theory Spec2Isabelle
  imports Main "HOL-Library.AList"
begin

section \<open>Python values, exceptions and dictionaries\<close>

text \<open>
  The three modules of the dashboard (\<^verbatim>\<open>covid_data_handler\<close>, \<^verbatim>\<open>covid_news_handling\<close>,
  \<^verbatim>\<open>covid_dashboard\<close>) are embedded as functions over one explicit \<open>world\<close> record that holds
  every module-level global. An exception is a value of type \<open>error\<close>; a procedure returns
  \<open>(error + result) \<times> world\<close>, so the mutations made before a raise stay visible, as they do for
  Python globals.

  A Python \<^verbatim>\<open>str\<close> is a \<open>string\<close> whose characters are read as code points below 256.
  A \<^verbatim>\<open>dict\<close> is an association list in insertion order: \<^verbatim>\<open>d[k] = v\<close> is \<open>AList.update\<close>
  (overwrite in place, else append), \<^verbatim>\<open>del d[k]\<close> is \<open>AList.delete\<close>, \<^verbatim>\<open>d[k]\<close> is \<open>map_of\<close>.
\<close>

datatype api_exn = FailedRequestError | ConnectionError | Timeout | OtherError

datatype error =
    KeyError | ValueError | TypeError | OverflowError | UnboundLocalError
  | ApiException api_exn

datatype pyval = PNone | PInt int | PStr string

type_synonym row = "(string \<times> pyval) list"

text \<open>A value of a decoded JSON response: a scalar, or a list of dictionaries.\<close>

datatype jval = JVal pyval | JRows "row list"

type_synonym response = "(string \<times> jval) list"

datatype fetch = Fetched response | Fails api_exn

definition has_key :: "(string \<times> 'v) list \<Rightarrow> string \<Rightarrow> bool" where
  "has_key d k = (map_of d k \<noteq> None)"

text \<open>Truth value of a Python object in \<^verbatim>\<open>if x:\<close>.\<close>

fun truthy :: "pyval \<Rightarrow> bool" where
  "truthy PNone = False"
| "truthy (PInt i) = (i \<noteq> 0)"
| "truthy (PStr s) = (s \<noteq> [])"

subsection \<open>Strings: \<^verbatim>\<open>int(s)\<close>, \<^verbatim>\<open>s.isdigit()\<close>, \<^verbatim>\<open>s.split(c)\<close>\<close>

definition code :: "char \<Rightarrow> nat" where
  "code c = of_char c"

definition is_digit :: "char \<Rightarrow> bool" where
  "is_digit c = (48 \<le> code c \<and> code c \<le> 57)"

definition digit_val :: "char \<Rightarrow> int" where
  "digit_val c = int (code c) - 48"

text \<open>
  \<^verbatim>\<open>str.isdigit\<close> on one character: the decimal digits and, below 256, the superscript
  digits U+00B2, U+00B3 and U+00B9 (which \<^verbatim>\<open>int\<close> refuses).
\<close>

definition isdigit_char :: "char \<Rightarrow> bool" where
  "isdigit_char c = (is_digit c \<or> code c = 178 \<or> code c = 179 \<or> code c = 185)"

definition isdigit :: "string \<Rightarrow> bool" where
  "isdigit s = (s \<noteq> [] \<and> list_all isdigit_char s)"

text \<open>
  White space as \<^verbatim>\<open>int\<close> strips it from both ends (code points below 256): tab to carriage
  return, space, U+0085 and U+00A0.
\<close>

definition is_space :: "char \<Rightarrow> bool" where
  "is_space c = ((9 \<le> code c \<and> code c \<le> 13) \<or> code c = 32 \<or> code c = 133 \<or> code c = 160)"

definition strip :: "string \<Rightarrow> string" where
  "strip s = rev (dropWhile is_space (rev (dropWhile is_space s)))"

text \<open>Decimal digits, with single underscores allowed between two digits.\<close>

fun parse_digits :: "string \<Rightarrow> int \<Rightarrow> int option" where
  "parse_digits [] acc = Some acc"
| "parse_digits (c # cs) acc =
     (if is_digit c then parse_digits cs (10 * acc + digit_val c)
      else if c = CHR ''_'' then
        (case cs of [] \<Rightarrow> None
         | d # ds \<Rightarrow> if is_digit d then parse_digits cs acc else None)
      else None)"

definition parse_unsigned :: "string \<Rightarrow> int option" where
  "parse_unsigned s =
     (case s of [] \<Rightarrow> None
      | c # cs \<Rightarrow> if is_digit c then parse_digits s 0 else None)"

text \<open>
  \<^verbatim>\<open>int(s)\<close> for a string; \<open>None\<close> stands for the ValueError. The interpreter's limit on
  the number of digits of a literal is left out.
\<close>

definition int_of_str :: "string \<Rightarrow> int option" where
  "int_of_str s =
     (case strip s of
        [] \<Rightarrow> None
      | c # cs \<Rightarrow>
          if c = CHR ''-'' then map_option uminus (parse_unsigned cs)
          else if c = CHR ''+'' then parse_unsigned cs
          else parse_unsigned (c # cs))"

text \<open>\<^verbatim>\<open>int(v)\<close> for the values a record can hold.\<close>

fun int_py :: "pyval \<Rightarrow> error + int" where
  "int_py PNone = Inl TypeError"
| "int_py (PInt i) = Inr i"
| "int_py (PStr s) = (case int_of_str s of None \<Rightarrow> Inl ValueError | Some i \<Rightarrow> Inr i)"

fun split_on :: "char \<Rightarrow> string \<Rightarrow> string list" where
  "split_on c [] = [[]]"
| "split_on c (x # xs) =
     (if x = c then [] # split_on c xs
      else (case split_on c xs of [] \<Rightarrow> [[x]] | y # ys \<Rightarrow> (x # y) # ys))"

section \<open>Key statistics: \<^verbatim>\<open>process_covid_csv_data\<close>\<close>

text \<open>
  \<^verbatim>\<open>next((i for i, item in enumerate(data) if item[key]), None)\<close>: the index of the first
  record whose entry under \<open>key\<close> is truthy. Every record visited is indexed with \<open>key\<close>,
  which raises KeyError where the key is missing.
\<close>

fun first_nonempty :: "string \<Rightarrow> row list \<Rightarrow> error + nat option" where
  "first_nonempty key [] = Inr None"
| "first_nonempty key (item # items) =
     (case map_of item key of
        None \<Rightarrow> Inl KeyError
      | Some v \<Rightarrow>
          if truthy v then Inr (Some 0)
          else (case first_nonempty key items of
                  Inl e \<Rightarrow> Inl e
                | Inr None \<Rightarrow> Inr None
                | Inr (Some i) \<Rightarrow> Inr (Some (Suc i))))"

text \<open>The loop of lines 126-129: add \<^verbatim>\<open>int(record['new_cases'])\<close> for each record in turn.\<close>

fun add_new_cases :: "int \<Rightarrow> row list \<Rightarrow> error + int" where
  "add_new_cases total_cases [] = Inr total_cases"
| "add_new_cases total_cases (item # items) =
     (case map_of item ''new_cases'' of
        None \<Rightarrow> Inl KeyError
      | Some v \<Rightarrow>
          (case int_py v of
             Inl e \<Rightarrow> Inl e
           | Inr n \<Rightarrow> add_new_cases (total_cases + n) items))"

text \<open>Lines 114-132: the cases of the (up to) seven records after the first non-empty one.\<close>

definition total_cases_last_7_days :: "row list \<Rightarrow> error + pyval" where
  "total_cases_last_7_days covid_data_local =
     (case first_nonempty ''new_cases'' covid_data_local of
        Inl e \<Rightarrow> Inl e
      | Inr None \<Rightarrow> Inr (PStr ''N/A'')
      | Inr (Some i) \<Rightarrow>
          (let first_date = i + 1;
               days = (if length covid_data_local - first_date > 7 then 7
                       else length covid_data_local - first_date)
           in case add_new_cases 0 (take days (drop first_date covid_data_local)) of
                Inl e \<Rightarrow> Inl e
              | Inr total_cases \<Rightarrow> Inr (PInt total_cases)))"

text \<open>Lines 135-150: the most recent non-empty entry of a column, as an integer.\<close>

definition latest_value :: "string \<Rightarrow> row list \<Rightarrow> error + pyval" where
  "latest_value key covid_data_local =
     (case first_nonempty key covid_data_local of
        Inl e \<Rightarrow> Inl e
      | Inr None \<Rightarrow> Inr (PStr ''N/A'')
      | Inr (Some first_date) \<Rightarrow>
          (case map_of (covid_data_local ! first_date) key of
             None \<Rightarrow> Inl KeyError
           | Some v \<Rightarrow> (case int_py v of Inl e \<Rightarrow> Inl e | Inr n \<Rightarrow> Inr (PInt n))))"

definition process_covid_csv_data :: "row list \<Rightarrow> error + (pyval \<times> pyval \<times> pyval)" where
  "process_covid_csv_data covid_data_local =
     (case total_cases_last_7_days covid_data_local of
        Inl e \<Rightarrow> Inl e
      | Inr total_cases \<Rightarrow>
          (case latest_value ''hospital_cases'' covid_data_local of
             Inl e \<Rightarrow> Inl e
           | Inr hospital_cases \<Rightarrow>
               (case latest_value ''cum_deaths'' covid_data_local of
                  Inl e \<Rightarrow> Inl e
                | Inr cum_deaths \<Rightarrow> Inr (total_cases, hospital_cases, cum_deaths))))"

text \<open>
  Column predicates used to state properties of the statistics: an entry is empty when it is
  there and falsy (\<^verbatim>\<open>None\<close>, \<^verbatim>\<open>0\<close> or the empty string); a column is typed when every entry
  is \<^verbatim>\<open>None\<close> or an integer, as the API delivers it; it is settled when, after its leading
  empty entries, every entry is an integer.
\<close>

definition empty_at :: "string \<Rightarrow> row \<Rightarrow> bool" where
  "empty_at key item = (case map_of item key of None \<Rightarrow> False | Some v \<Rightarrow> \<not> truthy v)"

definition int_at :: "string \<Rightarrow> row \<Rightarrow> bool" where
  "int_at key item = (case map_of item key of Some (PInt n) \<Rightarrow> True | _ \<Rightarrow> False)"

definition typed_at :: "string \<Rightarrow> row \<Rightarrow> bool" where
  "typed_at key item =
     (case map_of item key of Some PNone \<Rightarrow> True | Some (PInt n) \<Rightarrow> True | _ \<Rightarrow> False)"

definition column_empty :: "string \<Rightarrow> row list \<Rightarrow> bool" where
  "column_empty key rows = list_all (empty_at key) rows"

definition column_typed :: "string \<Rightarrow> row list \<Rightarrow> bool" where
  "column_typed key rows = list_all (typed_at key) rows"

definition column_settled :: "string \<Rightarrow> row list \<Rightarrow> bool" where
  "column_settled key rows = list_all (int_at key) (dropWhile (empty_at key) rows)"

section \<open>Dates, durations and the clock\<close>

text \<open>
  A naive \<^verbatim>\<open>datetime\<close> is the number of microseconds since 0001-01-01 00:00:00; the type
  holds the instants up to 9999-12-31 23:59:59.999999, and arithmetic that leaves the range
  raises OverflowError. A duration (\<^verbatim>\<open>timedelta\<close>, \<^verbatim>\<open>total_seconds()\<close>) is a number of
  microseconds.
\<close>

type_synonym datetime = int

definition usec_per_second :: int where
  "usec_per_second = 1000000"

definition usec_per_minute :: int where
  "usec_per_minute = 60000000"

definition usec_per_hour :: int where
  "usec_per_hour = 3600000000"

definition usec_per_day :: int where
  "usec_per_day = 86400000000"

definition datetime_max :: datetime where
  "datetime_max = 3652059 * 86400000000 - 1"

definition valid_datetime :: "datetime \<Rightarrow> bool" where
  "valid_datetime t = (0 \<le> t \<and> t \<le> datetime_max)"

text \<open>\<^verbatim>\<open>t + timedelta(microseconds=d)\<close>.\<close>

definition dt_add :: "datetime \<Rightarrow> int \<Rightarrow> error + datetime" where
  "dt_add t d = (if valid_datetime (t + d) then Inr (t + d) else Inl OverflowError)"

definition dt_hour :: "datetime \<Rightarrow> int" where
  "dt_hour t = (t mod usec_per_day) div usec_per_hour"

definition dt_minute :: "datetime \<Rightarrow> int" where
  "dt_minute t = (t mod usec_per_hour) div usec_per_minute"

text \<open>\<^verbatim>\<open>t.replace(hour=h, minute=m, second=0, microsecond=0)\<close>.\<close>

definition dt_replace :: "datetime \<Rightarrow> int \<Rightarrow> int \<Rightarrow> error + datetime" where
  "dt_replace t h m =
     (if 0 \<le> h \<and> h < 24 \<and> 0 \<le> m \<and> m < 60
      then Inr (t - t mod usec_per_day + h * usec_per_hour + m * usec_per_minute)
      else Inl ValueError)"

section \<open>The state of the three modules\<close>

datatype action = Sch_update_covid_data | Sch_update_news

text \<open>
  An event of \<^verbatim>\<open>sched.scheduler\<close>: the delay it was entered with, its priority, the
  callback and the callback's arguments \<^verbatim>\<open>(update_time, update_name, repeat)\<close>.
\<close>

record sched_event =
  ev_delay :: int
  ev_priority :: nat
  ev_action :: action
  ev_argument :: "datetime \<times> string \<times> bool"

text \<open>A value of a module's \<^verbatim>\<open>scheduled_updates\<close> dictionary.\<close>

record update_entry =
  e_event :: sched_event
  e_update_time :: datetime
  e_repeat :: bool

text \<open>A value of the dashboard's merged \<^verbatim>\<open>scheduled_updates\<close> dictionary.\<close>

record toast_entry =
  t_covid :: bool
  t_news :: bool
  t_time :: datetime
  t_repeat :: bool

text \<open>
  The globals of \<^verbatim>\<open>covid_data_handler\<close> (\<open>cdh_\<close>), \<^verbatim>\<open>covid_news_handling\<close> (\<open>cnh_\<close>) and
  \<^verbatim>\<open>covid_dashboard\<close> (\<open>dash_\<close>), and the environment: \<open>clock\<close> gives the successive
  readings of \<^verbatim>\<open>datetime.datetime.now()\<close> (\<open>ticks\<close> counts the readings taken), \<open>covid_api\<close>
  what the COVID API does for a list of filters, \<open>news_api\<close> what the news API does for a URL.
\<close>

record world =
  clock :: "nat \<Rightarrow> datetime"
  ticks :: nat
  covid_api :: "string list \<Rightarrow> fetch"
  news_api :: "string \<Rightarrow> fetch"
  cdh_covid_data :: response
  cdh_national_covid_data :: response
  cdh_scheduled_updates :: "(string \<times> update_entry) list"
  cdh_config_covid_location :: "(string \<times> string) list"
  cdh_scheduler :: "sched_event list"
  cnh_api_key :: string
  cnh_config_covid_terms :: string
  cnh_news :: "row list"
  cnh_formatted_news :: "row list"
  cnh_removed_articles :: "pyval list"
  cnh_scheduler :: "sched_event list"
  cnh_scheduled_updates :: "(string \<times> update_entry) list"
  dash_scheduled_updates :: "(string \<times> toast_entry) list"

text \<open>\<^verbatim>\<open>datetime.datetime.now()\<close>: the next reading of the clock.\<close>

definition now :: "world \<Rightarrow> datetime \<times> world" where
  "now w = (clock w (ticks w), w\<lparr>ticks := Suc (ticks w)\<rparr>)"

section \<open>Resolving an update interval\<close>

text \<open>
  \<^verbatim>\<open>time_to_update_interval\<close> (the same text in both handlers): the two fields of
  \<^verbatim>\<open>update_interval.split(":")\<close> are converted first, then the clock is read three times.
  The result is \<^verbatim>\<open>(time_to_update, update_time)\<close>.
\<close>

definition time_to_update_interval ::
  "string \<Rightarrow> world \<Rightarrow> (error + (int \<times> datetime)) \<times> world" where
  "time_to_update_interval update_interval w =
     (case map int_of_str (split_on CHR '':'' update_interval) of
        [Some hrs, Some mins] \<Rightarrow>
          (case now w of (t1, w1) \<Rightarrow>
             (case dt_replace t1 hrs mins of
                Inl e \<Rightarrow> (Inl e, w1)
              | Inr update_time \<Rightarrow>
                  (case now w1 of (t2, w2) \<Rightarrow>
                     (case (if update_time < t2 then dt_add update_time usec_per_day
                            else Inr update_time) of
                        Inl e \<Rightarrow> (Inl e, w2)
                      | Inr update_time \<Rightarrow>
                          (case now w2 of (t3, w3) \<Rightarrow>
                             (Inr (update_time - t3, update_time), w3))))))
      | _ \<Rightarrow> (Inl ValueError, w))"

text \<open>
  Lines 284-296 of \<^verbatim>\<open>covid_data_handler\<close> (188-200 of \<^verbatim>\<open>covid_news_handling\<close>): a
  \<^verbatim>\<open>datetime\<close> in the past is moved to the next occurrence of its hour and minute.
\<close>

definition resolve_datetime ::
  "datetime \<Rightarrow> world \<Rightarrow> (error + (int \<times> datetime)) \<times> world" where
  "resolve_datetime update_interval w =
     (case now w of (t1, w1) \<Rightarrow>
        if update_interval < t1 then
          (case now w1 of (t2, w2) \<Rightarrow>
             (case dt_replace t2 (dt_hour update_interval) (dt_minute update_interval) of
                Inl e \<Rightarrow> (Inl e, w2)
              | Inr update_time \<Rightarrow>
                  (case now w2 of (t3, w3) \<Rightarrow>
                     (case (if update_time < t3 then dt_add update_time usec_per_day
                            else Inr update_time) of
                        Inl e \<Rightarrow> (Inl e, w3)
                      | Inr update_time \<Rightarrow>
                          (case now w3 of (t4, w4) \<Rightarrow>
                             (Inr (update_time - t4, update_time), w4))))))
        else
          (case now w1 of (t4, w4) \<Rightarrow>
             (Inr (update_interval - t4, update_interval), w4)))"

text \<open>
  Lines 297-302 (201-206): an \<^verbatim>\<open>int\<close> is a number of seconds; the delay is its absolute
  value, the recorded time is \<^verbatim>\<open>now() + timedelta(seconds = update_interval)\<close>.
\<close>

definition resolve_seconds ::
  "int \<Rightarrow> world \<Rightarrow> (error + (int \<times> datetime)) \<times> world" where
  "resolve_seconds update_interval w =
     (let time_to_update = \<bar>update_interval\<bar> * usec_per_second in
      case now w of (t, w1) \<Rightarrow>
        (case dt_add t (update_interval * usec_per_second) of
           Inl e \<Rightarrow> (Inl e, w1)
         | Inr update_time \<Rightarrow> (Inr (time_to_update, update_time), w1)))"

text \<open>The argument \<^verbatim>\<open>update_interval\<close>: \<^verbatim>\<open>int | str | datetime.datetime\<close>, or anything else.\<close>

datatype interval =
    IntervalInt int | IntervalStr string | IntervalDatetime datetime | IntervalOther

text \<open>A resolved interval, or \<open>None\<close> for the early \<^verbatim>\<open>return None\<close>.\<close>

definition resolved ::
  "(error + (int \<times> datetime)) \<times> world \<Rightarrow> (error + (int \<times> datetime) option) \<times> world" where
  "resolved r = (case r of (Inl e, w) \<Rightarrow> (Inl e, w) | (Inr x, w) \<Rightarrow> (Inr (Some x), w))"

section \<open>Scheduling in \<^verbatim>\<open>covid_data_handler\<close>\<close>

text \<open>The tail \<^verbatim>\<open>[0-5][0-9]$\<close> of the pattern: \<^verbatim>\<open>$\<close> also matches before a final newline.\<close>

definition minutes_end :: "string \<Rightarrow> bool" where
  "minutes_end s =
     (case s of
        [a, b] \<Rightarrow> 48 \<le> code a \<and> code a \<le> 53 \<and> is_digit b
      | [a, b, c] \<Rightarrow> 48 \<le> code a \<and> code a \<le> 53 \<and> is_digit b \<and> c = CHR 0x0A
      | _ \<Rightarrow> False)"

text \<open>\<^verbatim>\<open>match("^([0-1]?[0-9]|2[0-3]):[0-5][0-9]$", s)\<close> (line 273).\<close>

definition covid_time_re :: "string \<Rightarrow> bool" where
  "covid_time_re s =
     ((case s of
         a # b # c # r \<Rightarrow>
           ((48 \<le> code a \<and> code a \<le> 49 \<and> is_digit b) \<or>
            (a = CHR ''2'' \<and> 48 \<le> code b \<and> code b \<le> 51)) \<and> c = CHR '':'' \<and> minutes_end r
       | _ \<Rightarrow> False) \<or>
      (case s of
         a # c # r \<Rightarrow> is_digit a \<and> c = CHR '':'' \<and> minutes_end r
       | _ \<Rightarrow> False))"

text \<open>
  Lines 270-304 of \<^verbatim>\<open>schedule_covid_updates\<close>: the pair
  \<^verbatim>\<open>(time_to_update, update_time)\<close>, or \<open>None\<close> where the procedure returns early. With an
  argument of another type neither variable is bound and line 304 raises.
\<close>

definition covid_update_time ::
  "interval \<Rightarrow> world \<Rightarrow> (error + (int \<times> datetime) option) \<times> world" where
  "covid_update_time update_interval w =
     (case update_interval of
        IntervalStr s \<Rightarrow>
          if covid_time_re s then resolved (time_to_update_interval s w)
          else if isdigit s then
            (case int_of_str s of
               None \<Rightarrow> (Inl ValueError, w)
             | Some n \<Rightarrow> resolved (resolve_seconds n w))
          else (Inr None, w)
      | IntervalDatetime d \<Rightarrow> resolved (resolve_datetime d w)
      | IntervalInt n \<Rightarrow> resolved (resolve_seconds n w)
      | IntervalOther \<Rightarrow> (Inl UnboundLocalError, w))"

text \<open>
  \<^verbatim>\<open>schedule_covid_updates\<close>: after the interval is resolved, lines 306-323 enter the event
  and record it under \<open>update_name\<close>, unless the name is already in use.
\<close>

definition schedule_covid_updates ::
  "interval \<Rightarrow> string \<Rightarrow> bool \<Rightarrow> world \<Rightarrow> (error + unit) \<times> world" where
  "schedule_covid_updates update_interval update_name repeat w =
     (case covid_update_time update_interval w of
        (Inl e, w1) \<Rightarrow> (Inl e, w1)
      | (Inr None, w1) \<Rightarrow> (Inr (), w1)
      | (Inr (Some (time_to_update, update_time)), w1) \<Rightarrow>
          if has_key (cdh_scheduled_updates w1) update_name then (Inr (), w1)
          else
            (let event = \<lparr>ev_delay = time_to_update, ev_priority = 1,
                          ev_action = Sch_update_covid_data,
                          ev_argument = (update_time, update_name, repeat)\<rparr>
             in (Inr (),
                 w1\<lparr>cdh_scheduler := cdh_scheduler w1 @ [event],
                    cdh_scheduled_updates :=
                      AList.update update_name
                        \<lparr>e_event = event, e_update_time = update_time, e_repeat = repeat\<rparr>
                        (cdh_scheduled_updates w1)\<rparr>)))"

text \<open>
  \<^verbatim>\<open>covid_API_request\<close>: the filters are built from the location, the API is asked, and its
  two connection failures are caught: a retry is scheduled and \<^verbatim>\<open>{"data": None}\<close> returned.
  Any other exception of the API propagates.
\<close>

definition covid_API_request ::
  "string \<Rightarrow> string \<Rightarrow> world \<Rightarrow> (error + response) \<times> world" where
  "covid_API_request location location_type w =
     (let location_data =
            (if location_type \<noteq> ''overview''
             then [''areaType='' @ location_type, ''areaName='' @ location]
             else [''areaType=overview''])
      in case covid_api w location_data of
           Fetched data \<Rightarrow> (Inr data, w)
         | Fails x \<Rightarrow>
             if x = FailedRequestError \<or> x = ConnectionError then
               (case schedule_covid_updates (IntervalInt 30) ''API Retry'' False w of
                  (Inl e, w1) \<Rightarrow> (Inl e, w1)
                | (Inr u, w1) \<Rightarrow> (Inr [(''data'', JVal PNone)], w1))
             else (Inl (ApiException x), w))"

text \<open>Lines 216-221 of \<^verbatim>\<open>sch_update_covid_data\<close>: the request for the configured location.\<close>

definition request_configured_location :: "world \<Rightarrow> (error + response) \<times> world" where
  "request_configured_location w =
     (if cdh_config_covid_location w \<noteq> [] then
        (case map_of (cdh_config_covid_location w) ''area_type'' of
           None \<Rightarrow> (Inl KeyError, w)
         | Some location_type \<Rightarrow>
             (case map_of (cdh_config_covid_location w) ''area_name'' of
                None \<Rightarrow> (Inl KeyError, w)
              | Some location \<Rightarrow> covid_API_request location location_type w))
      else covid_API_request ''Exeter'' ''ltla'' w)"

text \<open>
  \<^verbatim>\<open>sch_update_covid_data\<close>, the callback of a scheduled COVID update. A dictionary is truthy
  when it is not empty.
\<close>

definition sch_update_covid_data ::
  "datetime \<Rightarrow> string \<Rightarrow> bool \<Rightarrow> world \<Rightarrow> (error + unit) \<times> world" where
  "sch_update_covid_data update_time update_name repeat w =
     (if has_key (cdh_scheduled_updates w) update_name then
        (case request_configured_location
                (w\<lparr>cdh_scheduled_updates := AList.delete update_name (cdh_scheduled_updates w)\<rparr>) of
           (Inl e, w1) \<Rightarrow> (Inl e, w1)
         | (Inr api_response, w1) \<Rightarrow>
             (case covid_API_request ''Exeter'' ''overview'' w1 of
                (Inl e, w2) \<Rightarrow> (Inl e, w2)
              | (Inr national_api_response, w2) \<Rightarrow>
                  (let w3 = (if api_response \<noteq> [] then w2\<lparr>cdh_covid_data := api_response\<rparr>
                             else w2);
                       w4 = (if national_api_response \<noteq> []
                             then w3\<lparr>cdh_national_covid_data := national_api_response\<rparr>
                             else w3)
                   in if repeat then
                        (case dt_add update_time usec_per_day of
                           Inl e \<Rightarrow> (Inl e, w4)
                         | Inr update_time \<Rightarrow>
                             schedule_covid_updates (IntervalDatetime update_time)
                               update_name repeat w4)
                      else (Inr (), w4))))
      else (Inl KeyError, w))"

section \<open>Scheduling and articles in \<^verbatim>\<open>covid_news_handling\<close>\<close>

text \<open>
  \<^verbatim>\<open>match("[0-9]{2}:[0-9]{}2", s)\<close> (line 177): \<^verbatim>\<open>{}\<close> is no quantifier, so the braces are
  literal characters; \<^verbatim>\<open>match\<close> anchors the pattern at the start only.
\<close>

definition news_time_re :: "string \<Rightarrow> bool" where
  "news_time_re s =
     (case s of
        a # b # c # d # e # f # g # r \<Rightarrow>
          is_digit a \<and> is_digit b \<and> c = CHR '':'' \<and> is_digit d \<and>
          e = CHR 0x7B \<and> f = CHR 0x7D \<and> g = CHR ''2''
      | _ \<Rightarrow> False)"

text \<open>\<^verbatim>\<open>match("[0-9]+", s)\<close> (line 181): the string starts with a digit.\<close>

definition news_digits_re :: "string \<Rightarrow> bool" where
  "news_digits_re s = (case s of [] \<Rightarrow> False | a # r \<Rightarrow> is_digit a)"

text \<open>Lines 174-208 of \<^verbatim>\<open>schedule_news_updates\<close>.\<close>

definition news_update_time ::
  "interval \<Rightarrow> world \<Rightarrow> (error + (int \<times> datetime) option) \<times> world" where
  "news_update_time update_interval w =
     (case update_interval of
        IntervalStr s \<Rightarrow>
          if news_time_re s then resolved (time_to_update_interval s w)
          else if news_digits_re s then
            (case int_of_str s of
               None \<Rightarrow> (Inl ValueError, w)
             | Some n \<Rightarrow> resolved (resolve_seconds n w))
          else (Inr None, w)
      | IntervalDatetime d \<Rightarrow> resolved (resolve_datetime d w)
      | IntervalInt n \<Rightarrow> resolved (resolve_seconds n w)
      | IntervalOther \<Rightarrow> (Inl UnboundLocalError, w))"

definition schedule_news_updates ::
  "interval \<Rightarrow> string \<Rightarrow> bool \<Rightarrow> world \<Rightarrow> (error + unit) \<times> world" where
  "schedule_news_updates update_interval update_name repeat w =
     (case news_update_time update_interval w of
        (Inl e, w1) \<Rightarrow> (Inl e, w1)
      | (Inr None, w1) \<Rightarrow> (Inr (), w1)
      | (Inr (Some (time_to_update, update_time)), w1) \<Rightarrow>
          if has_key (cnh_scheduled_updates w1) update_name then (Inr (), w1)
          else
            (let event = \<lparr>ev_delay = time_to_update, ev_priority = 1,
                          ev_action = Sch_update_news,
                          ev_argument = (update_time, update_name, repeat)\<rparr>
             in (Inr (),
                 w1\<lparr>cnh_scheduler := cnh_scheduler w1 @ [event],
                    cnh_scheduled_updates :=
                      AList.update update_name
                        \<lparr>e_event = event, e_update_time = update_time, e_repeat = repeat\<rparr>
                        (cnh_scheduled_updates w1)\<rparr>)))"

text \<open>\<^verbatim>\<open>sep.join(parts)\<close>.\<close>

fun join :: "string \<Rightarrow> string list \<Rightarrow> string" where
  "join sep [] = []"
| "join sep [x] = x"
| "join sep (x # y # ys) = x @ sep @ join sep (y # ys)"

text \<open>
  \<^verbatim>\<open>news_API_request\<close>: \<open>None\<close> is the value of a call that ends in one of the two handlers
  (they schedule a retry and return nothing).
\<close>

definition news_API_request ::
  "string \<Rightarrow> world \<Rightarrow> (error + response option) \<times> world" where
  "news_API_request covid_terms w =
     (let covid_terms = (if cnh_config_covid_terms w \<noteq> [] then cnh_config_covid_terms w
                         else covid_terms);
          covid_terms_list = split_on CHR '' '' covid_terms;
          url = ''https://newsapi.org/v2/everything?q=+'' @ join ''+'' covid_terms_list
                @ ''&apikey='' @ cnh_api_key w
      in case news_api w url of
           Fetched data \<Rightarrow> (Inr (Some data), w)
         | Fails x \<Rightarrow>
             if x = ConnectionError \<or> x = Timeout then
               (case schedule_news_updates (IntervalInt 30) ''API Retry'' False w of
                  (Inl e, w1) \<Rightarrow> (Inl e, w1)
                | (Inr u, w1) \<Rightarrow> (Inr None, w1))
             else (Inl (ApiException x), w))"

text \<open>\<^verbatim>\<open>str(n)\<close> for an integer, and \<^verbatim>\<open>str(v)\<close> as an f-string formats a value.\<close>

fun str_nat :: "nat \<Rightarrow> string" where
  "str_nat n =
     (if n < 10 then [char_of (48 + n)]
      else str_nat (n div 10) @ [char_of (48 + n mod 10)])"

fun str_py :: "pyval \<Rightarrow> string" where
  "str_py PNone = ''None''"
| "str_py (PInt i) = (if i < 0 then CHR ''-'' # str_nat (nat (- i)) else str_nat (nat i))"
| "str_py (PStr s) = s"

text \<open>
  One round of the loop of \<^verbatim>\<open>news_formatter\<close> (lines 94-99): the title and the first 100
  characters of the content inside a link. Slicing is defined for a string only.
\<close>

definition format_article :: "row \<Rightarrow> error + row" where
  "format_article article =
     (case map_of article ''url'' of
        None \<Rightarrow> Inl KeyError
      | Some url \<Rightarrow>
          (case map_of article ''title'' of
             None \<Rightarrow> Inl KeyError
           | Some title \<Rightarrow>
               (case map_of article ''content'' of
                  None \<Rightarrow> Inl KeyError
                | Some (PStr text) \<Rightarrow>
                    Inr [(''title'', title),
                         (''content'',
                          PStr (''<a href = '' @ [CHR 0x27] @ str_py url @ [CHR 0x27, CHR 0x0A]
                                @ replicate 25 CHR '' '' @ ''style = '' @ [CHR 0x27]
                                @ ''color:black'' @ [CHR 0x27] @ ''>'' @ take 100 text
                                @ ''...</a>''))]
                | Some other \<Rightarrow> Inl TypeError)))"

text \<open>The loop of \<^verbatim>\<open>news_formatter\<close>: each formatted article is appended at once.\<close>

fun format_articles :: "row list \<Rightarrow> world \<Rightarrow> (error + unit) \<times> world" where
  "format_articles [] w = (Inr (), w)"
| "format_articles (article # articles) w =
     (case format_article article of
        Inl e \<Rightarrow> (Inl e, w)
      | Inr temp_formatted \<Rightarrow>
          format_articles articles
            (w\<lparr>cnh_formatted_news := cnh_formatted_news w @ [temp_formatted]\<rparr>))"

definition news_formatter :: "world \<Rightarrow> (error + unit) \<times> world" where
  "news_formatter w =
     (let temp_news_list = (if length (cnh_news w) \<ge> 5 then take 5 (cnh_news w)
                            else cnh_news w)
      in format_articles temp_news_list (w\<lparr>cnh_formatted_news := []\<rparr>))"

text \<open>
  The loop of \<^verbatim>\<open>update_news\<close> (lines 76-78): an article is appended unless its title is a
  removed one.
\<close>

fun append_articles :: "row list \<Rightarrow> world \<Rightarrow> (error + unit) \<times> world" where
  "append_articles [] w = (Inr (), w)"
| "append_articles (article # articles) w =
     (case map_of article ''title'' of
        None \<Rightarrow> (Inl KeyError, w)
      | Some title \<Rightarrow>
          append_articles articles
            (if title \<in> set (cnh_removed_articles w) then w
             else w\<lparr>cnh_news := cnh_news w @ [article]\<rparr>))"

text \<open>
  \<^verbatim>\<open>update_news\<close>. The list is cleared before the response is looked at. Iterating over a
  scalar under \<^verbatim>\<open>"articles"\<close> raises TypeError (for a non-empty string, at the first
  character's \<^verbatim>\<open>["title"]\<close>).
\<close>

definition update_news :: "string \<Rightarrow> world \<Rightarrow> (error + unit) \<times> world" where
  "update_news terms w =
     (case news_API_request terms w of
        (Inl e, w1) \<Rightarrow> (Inl e, w1)
      | (Inr api_response, w1) \<Rightarrow>
          (let w2 = w1\<lparr>cnh_news := []\<rparr> in
           case api_response of
             None \<Rightarrow> (Inr (), w2)
           | Some data \<Rightarrow>
               if data = [] then (Inr (), w2)
               else
                 (case map_of data ''status'' of
                    None \<Rightarrow> (Inl KeyError, w2)
                  | Some status \<Rightarrow>
                      if status = JVal (PStr ''error'') then (Inr (), w2)
                      else
                        (case map_of data ''articles'' of
                           None \<Rightarrow> (Inl KeyError, w2)
                         | Some (JRows articles) \<Rightarrow>
                             (case append_articles articles w2 of
                                (Inl e, w3) \<Rightarrow> (Inl e, w3)
                              | (Inr u, w3) \<Rightarrow> news_formatter w3)
                         | Some (JVal v) \<Rightarrow>
                             if v = PStr [] then news_formatter w2
                             else (Inl TypeError, w2)))))"

text \<open>\<^verbatim>\<open>[article['title'] for article in news]\<close>.\<close>

fun titles_of :: "row list \<Rightarrow> pyval list option" where
  "titles_of [] = Some []"
| "titles_of (article # articles) =
     (case map_of article ''title'' of
        None \<Rightarrow> None
      | Some title \<Rightarrow> map_option ((#) title) (titles_of articles))"

text \<open>\<^verbatim>\<open>xs.index(x)\<close> for an \<open>x\<close> that occurs in \<open>xs\<close>, and \<^verbatim>\<open>del xs[i]\<close>.\<close>

fun index_of :: "'a \<Rightarrow> 'a list \<Rightarrow> nat" where
  "index_of x [] = 0"
| "index_of x (y # ys) = (if x = y then 0 else Suc (index_of x ys))"

definition del_at :: "nat \<Rightarrow> 'a list \<Rightarrow> 'a list" where
  "del_at i xs = take i xs @ drop (Suc i) xs"

definition add_removed_article :: "pyval \<Rightarrow> world \<Rightarrow> (error + unit) \<times> world" where
  "add_removed_article article_title w =
     (let w1 = w\<lparr>cnh_removed_articles := cnh_removed_articles w @ [article_title]\<rparr> in
      case titles_of (cnh_news w1) of
        None \<Rightarrow> (Inl KeyError, w1)
      | Some article_titles \<Rightarrow>
          news_formatter
            (if article_title \<in> set article_titles
             then w1\<lparr>cnh_news := del_at (index_of article_title article_titles) (cnh_news w1)\<rparr>
             else w1))"

text \<open>\<^verbatim>\<open>sch_update_news\<close>, the callback of a scheduled news update.\<close>

definition sch_update_news ::
  "datetime \<Rightarrow> string \<Rightarrow> bool \<Rightarrow> world \<Rightarrow> (error + unit) \<times> world" where
  "sch_update_news update_time update_name repeat w =
     (if has_key (cnh_scheduled_updates w) update_name then
        (case update_news ''Covid COVID-19 coronavirus''
                (w\<lparr>cnh_scheduled_updates := AList.delete update_name (cnh_scheduled_updates w)\<rparr>) of
           (Inl e, w1) \<Rightarrow> (Inl e, w1)
         | (Inr u, w1) \<Rightarrow>
             if repeat then
               (case dt_add update_time usec_per_day of
                  Inl e \<Rightarrow> (Inl e, w1)
                | Inr update_time \<Rightarrow>
                    schedule_news_updates (IntervalDatetime update_time) update_name repeat w1)
             else (Inr (), w1))
      else (Inl KeyError, w))"

section \<open>The merged view of \<^verbatim>\<open>covid_dashboard\<close>\<close>

text \<open>The body of the first loop of \<^verbatim>\<open>collate_update_lists\<close> (lines 120-128).\<close>

definition collate_covid ::
  "(string \<times> update_entry) list \<Rightarrow> (string \<times> update_entry) list \<Rightarrow> string \<Rightarrow>
   (string \<times> toast_entry) list \<Rightarrow> (string \<times> toast_entry) list" where
  "collate_covid cdh_updates cnh_updates covid_update merged =
     (case map_of cdh_updates covid_update of
        None \<Rightarrow> merged
      | Some entry \<Rightarrow>
          if has_key cnh_updates covid_update then
            AList.update covid_update
              \<lparr>t_covid = True, t_news = True, t_time = e_update_time entry,
               t_repeat = e_repeat entry\<rparr> merged
          else
            AList.update covid_update
              \<lparr>t_covid = True, t_news = False, t_time = e_update_time entry,
               t_repeat = e_repeat entry\<rparr> merged)"

text \<open>The body of the second loop (lines 129-133).\<close>

definition collate_news ::
  "(string \<times> update_entry) list \<Rightarrow> string \<Rightarrow>
   (string \<times> toast_entry) list \<Rightarrow> (string \<times> toast_entry) list" where
  "collate_news cnh_updates news_update merged =
     (if has_key merged news_update then merged
      else
        (case map_of cnh_updates news_update of
           None \<Rightarrow> merged
         | Some entry \<Rightarrow>
             AList.update news_update
               \<lparr>t_covid = False, t_news = True, t_time = e_update_time entry,
                t_repeat = e_repeat entry\<rparr> merged))"

text \<open>
  \<^verbatim>\<open>collate_update_lists\<close>: the dashboard's dictionary is cleared and filled from the keys of
  the two handlers' dictionaries, in their order.
\<close>

definition collate_update_lists :: "world \<Rightarrow> world" where
  "collate_update_lists w =
     w\<lparr>dash_scheduled_updates :=
         fold (collate_news (cnh_scheduled_updates w)) (map fst (cnh_scheduled_updates w))
           (fold (collate_covid (cdh_scheduled_updates w) (cnh_scheduled_updates w))
              (map fst (cdh_scheduled_updates w)) [])\<rparr>"

text \<open>A dictionary has each key once.\<close>

definition is_dict :: "(string \<times> 'v) list \<Rightarrow> bool" where
  "is_dict d = distinct (map fst d)"

section \<open>Initial state and example states\<close>

text \<open>The globals as the three modules initialise them, in a given environment.\<close>

definition initial_world ::
  "(nat \<Rightarrow> datetime) \<Rightarrow> (string list \<Rightarrow> fetch) \<Rightarrow> (string \<Rightarrow> fetch) \<Rightarrow> world" where
  "initial_world clk capi napi =
     \<lparr>clock = clk, ticks = 0, covid_api = capi, news_api = napi,
      cdh_covid_data = [], cdh_national_covid_data = [], cdh_scheduled_updates = [],
      cdh_config_covid_location = [], cdh_scheduler = [],
      cnh_api_key = [], cnh_config_covid_terms = [], cnh_news = [], cnh_formatted_news = [],
      cnh_removed_articles = [], cnh_scheduler = [], cnh_scheduled_updates = [],
      dash_scheduled_updates = []\<rparr>"

text \<open>The dictionary value that scheduling records for an event.\<close>

definition entry_of :: "action \<Rightarrow> int \<Rightarrow> datetime \<Rightarrow> string \<Rightarrow> bool \<Rightarrow> update_entry" where
  "entry_of act delay update_time update_name repeat =
     \<lparr>e_event = \<lparr>ev_delay = delay, ev_priority = 1, ev_action = act,
                  ev_argument = (update_time, update_name, repeat)\<rparr>,
      e_update_time = update_time, e_repeat = repeat\<rparr>"

text \<open>
  The two registries of the collation scenario: update \<open>A\<close> in both handlers (with different
  times and repeat flags), update \<open>B\<close> in the news handler only.
\<close>

definition collation_example :: world where
  "collation_example =
     (initial_world (\<lambda>k. 0) (\<lambda>f. Fails OtherError) (\<lambda>u. Fails OtherError))
       \<lparr>cdh_scheduled_updates :=
          [(''A'', entry_of Sch_update_covid_data 0 (10 * usec_per_hour) ''A'' False)],
        cnh_scheduled_updates :=
          [(''A'', entry_of Sch_update_news 0 (9 * usec_per_hour) ''A'' True),
           (''B'', entry_of Sch_update_news 0 (11 * usec_per_hour) ''B'' True)]\<rparr>"


text \<open>The merged entry that the first loop of \<^verbatim>\<open>collate_update_lists\<close> writes for a name.\<close>

definition covid_toast :: "(string \<times> update_entry) list \<Rightarrow> update_entry \<Rightarrow> string \<Rightarrow> toast_entry" where
  "covid_toast cnh_updates entry name =
     \<lparr>t_covid = True, t_news = has_key cnh_updates name, t_time = e_update_time entry,
      t_repeat = e_repeat entry\<rparr>"

text \<open>
  Records as the API returns them for a local authority: no hospital cases and no deaths, and
  the cases of the latest day not yet published.
\<close>

definition exeter_rows :: "row list" where
  "exeter_rows =
     [[(''area_name'', PStr ''Exeter''), (''date'', PStr ''2021-10-28''), (''cum_deaths'', PNone),
       (''hospital_cases'', PNone), (''new_cases'', PNone)],
      [(''area_name'', PStr ''Exeter''), (''date'', PStr ''2021-10-27''), (''cum_deaths'', PNone),
       (''hospital_cases'', PNone), (''new_cases'', PInt 80)],
      [(''area_name'', PStr ''Exeter''), (''date'', PStr ''2021-10-26''), (''cum_deaths'', PNone),
       (''hospital_cases'', PNone), (''new_cases'', PInt 75)],
      [(''area_name'', PStr ''Exeter''), (''date'', PStr ''2021-10-25''), (''cum_deaths'', PNone),
       (''hospital_cases'', PNone), (''new_cases'', PInt 60)]]"

text \<open>A clock that stands still at 12:34:00 of one day, and a world without network.\<close>

definition frozen_clock :: "nat \<Rightarrow> datetime" where
  "frozen_clock k = 738000 * usec_per_day + 12 * usec_per_hour + 34 * usec_per_minute"

definition offline_world :: world where
  "offline_world =
     initial_world frozen_clock (\<lambda>f. Fails ConnectionError) (\<lambda>u. Fails ConnectionError)"

definition exeter_response :: response where
  "exeter_response = [(''data'', JRows exeter_rows), (''length'', JVal (PInt 4))]"

text \<open>Two articles that carry the same title, as two sources of one report do.\<close>

definition article_one :: row where
  "article_one = [(''title'', PStr ''Cases rise''), (''url'', PStr ''https://a.example/1''),
                  (''content'', PStr ''Cases rose again this week.'')]"

definition article_two :: row where
  "article_two = [(''title'', PStr ''Cases rise''), (''url'', PStr ''https://b.example/2''),
                  (''content'', PStr ''Syndicated copy of the same report.'')]"

text \<open>
  The offline world after an earlier successful load: both snapshots and the news list are
  filled, and an update named \<open>update\<close> is due in both handlers.
\<close>

definition loaded_world :: world where
  "loaded_world =
     offline_world
       \<lparr>cdh_covid_data := exeter_response, cdh_national_covid_data := exeter_response,
        cdh_scheduled_updates :=
          [(''update'', entry_of Sch_update_covid_data 0 (frozen_clock 0) ''update'' False)],
        cnh_news := [article_one, article_two],
        cnh_scheduled_updates :=
          [(''update'', entry_of Sch_update_news 0 (frozen_clock 0) ''update'' False)]\<rparr>"

text \<open>A response of the news API with one article, and a world whose two APIs answer.\<close>

definition news_response :: response where
  "news_response = [(''status'', JVal (PStr ''ok'')), (''totalResults'', JVal (PInt 1)),
                    (''articles'', JRows [article_one])]"

definition online_world :: world where
  "online_world =
     initial_world frozen_clock (\<lambda>f. Fetched exeter_response) (\<lambda>u. Fetched news_response)"

text \<open>A repeating update named \<open>daily\<close> that is due at this instant, in both handlers.\<close>

definition due_world :: world where
  "due_world =
     online_world
       \<lparr>cdh_scheduled_updates :=
          [(''daily'', entry_of Sch_update_covid_data 0 (frozen_clock 0) ''daily'' True)],
        cnh_scheduled_updates :=
          [(''daily'', entry_of Sch_update_news 0 (frozen_clock 0) ''daily'' True)]\<rparr>"

text \<open>The same, with APIs that raise an exception no handler catches.\<close>

definition broken_world :: world where
  "broken_world = due_world\<lparr>covid_api := (\<lambda>f. Fails OtherError), news_api := (\<lambda>u. Fails OtherError)\<rparr>"

text \<open>
  A repeating update that was due two days and one hour ago: the dashboard runs its schedulers
  only when a page is requested.
\<close>

definition late_world :: world where
  "late_world =
     online_world
       \<lparr>cdh_scheduled_updates :=
          [(''daily'', entry_of Sch_update_covid_data 0
                         (frozen_clock 0 - 2 * usec_per_day - usec_per_hour) ''daily'' True)],
        cnh_scheduled_updates :=
          [(''daily'', entry_of Sch_update_news 0
                         (frozen_clock 0 - 2 * usec_per_day - usec_per_hour) ''daily'' True)]\<rparr>"

text \<open>The same update when its callback runs one hour after it was due.\<close>

definition hour_late_world :: world where
  "hour_late_world =
     online_world
       \<lparr>cdh_scheduled_updates :=
          [(''daily'', entry_of Sch_update_covid_data 0
                         (frozen_clock 0 - usec_per_hour) ''daily'' True)],
        cnh_scheduled_updates :=
          [(''daily'', entry_of Sch_update_news 0
                         (frozen_clock 0 - usec_per_hour) ''daily'' True)]\<rparr>"

text \<open>
  The same update when it was due at 13:34 two days ago: 24 hours later is in the past, and
  today's 13:34 is still ahead of the clock.
\<close>

definition overdue_world :: world where
  "overdue_world =
     online_world
       \<lparr>cdh_scheduled_updates :=
          [(''daily'', entry_of Sch_update_covid_data 0
                         (frozen_clock 0 - 2 * usec_per_day + usec_per_hour) ''daily'' True)],
        cnh_scheduled_updates :=
          [(''daily'', entry_of Sch_update_news 0
                         (frozen_clock 0 - 2 * usec_per_day + usec_per_hour) ''daily'' True)]\<rparr>"

text \<open>
  A response of the news API with six articles, the last of which has no content, and the world
  of the update that is one hour late with this response.
\<close>

definition article_without_text :: row where
  "article_without_text = [(''title'', PStr ''Video report''), (''url'', PStr ''https://c.example/3''),
                           (''content'', PNone)]"

definition long_news_response :: response where
  "long_news_response =
     [(''status'', JVal (PStr ''ok'')), (''totalResults'', JVal (PInt 6)),
      (''articles'', JRows [article_one, article_one, article_one, article_one, article_one,
                            article_without_text])]"

definition long_news_world :: world where
  "long_news_world = hour_late_world\<lparr>news_api := (\<lambda>u. Fetched long_news_response)\<rparr>"

text \<open>
  A clock that advances by one microsecond at every reading, starting one microsecond before
  12:34:00, in a world without network.
\<close>

definition ticking_clock :: "nat \<Rightarrow> datetime" where
  "ticking_clock k = frozen_clock 0 - 1 + int k"

definition ticking_world :: world where
  "ticking_world =
     initial_world ticking_clock (\<lambda>f. Fails ConnectionError) (\<lambda>u. Fails ConnectionError)"

section \<open>Notions used to state the properties\<close>

text \<open>
  A wall-clock string as the specification describes it: \<open>hhmm h m\<close> is the zero-padded
  \<^verbatim>\<open>HH:MM\<close> of hour \<open>h\<close> and minute \<open>m\<close>, \<open>hmm h m\<close> the form with a single-digit hour.
\<close>

definition digit_char :: "nat \<Rightarrow> char" where
  "digit_char d = char_of (48 + d)"

definition hhmm :: "nat \<Rightarrow> nat \<Rightarrow> string" where
  "hhmm h m = [digit_char (h div 10), digit_char (h mod 10), CHR '':'',
               digit_char (m div 10), digit_char (m mod 10)]"

definition hmm :: "nat \<Rightarrow> nat \<Rightarrow> string" where
  "hmm h m = [digit_char h, CHR '':'', digit_char (m div 10), digit_char (m mod 10)]"

text \<open>
  The instant of time-of-day \<open>h:m\<close> on the day of \<open>t\<close>, and the occurrence chosen for a clock
  that reads \<open>t1\<close> when the day is taken and \<open>t2\<close> when the instant is compared with it:
  today's if it has not passed, otherwise tomorrow's.
\<close>

definition occurrence_today :: "datetime \<Rightarrow> nat \<Rightarrow> nat \<Rightarrow> datetime" where
  "occurrence_today t h m = t - t mod usec_per_day + int h * usec_per_hour + int m * usec_per_minute"

definition next_occurrence :: "datetime \<Rightarrow> datetime \<Rightarrow> nat \<Rightarrow> nat \<Rightarrow> datetime" where
  "next_occurrence t1 t2 h m =
     (if occurrence_today t1 h m < t2 then occurrence_today t1 h m + usec_per_day
      else occurrence_today t1 h m)"

text \<open>
  The statistics as the documentation describes them, column by column. An entry is non-empty
  when it is there and truthy; \<open>int_value\<close> is the integer \<^verbatim>\<open>int\<close> makes of it. \<open>latest_of\<close> is
  the first non-empty entry of a column (the records come most recent first) or the sentinel,
  \<open>week_total\<close> the sum of the cases of the seven records after the first one that has cases,
  or the sentinel. A column is absent when no record has its key.
\<close>

definition nonempty_at :: "string \<Rightarrow> row \<Rightarrow> bool" where
  "nonempty_at key item = (case map_of item key of None \<Rightarrow> False | Some v \<Rightarrow> truthy v)"

definition int_value :: "string \<Rightarrow> row \<Rightarrow> int" where
  "int_value key item =
     (case map_of item key of
        None \<Rightarrow> 0
      | Some v \<Rightarrow> (case int_py v of Inl e \<Rightarrow> 0 | Inr n \<Rightarrow> n))"

definition latest_of :: "string \<Rightarrow> row list \<Rightarrow> pyval" where
  "latest_of key rows =
     (case find (nonempty_at key) rows of
        None \<Rightarrow> PStr ''N/A''
      | Some item \<Rightarrow> PInt (int_value key item))"

definition week_total :: "row list \<Rightarrow> pyval" where
  "week_total rows =
     (case dropWhile (\<lambda>item. \<not> nonempty_at ''new_cases'' item) rows of
        [] \<Rightarrow> PStr ''N/A''
      | item # rest \<Rightarrow> PInt (sum_list (map (int_value ''new_cases'') (take 7 rest))))"

definition column_absent :: "string \<Rightarrow> row list \<Rightarrow> bool" where
  "column_absent key rows = list_all (\<lambda>item. map_of item key = None) rows"

text \<open>Conditions under which a refresh completes, used to state when an update is re-armed.\<close>

text \<open>
  Two worlds in the same environment: the clock, the two APIs and the configuration agree.
\<close>

definition same_environment :: "world \<Rightarrow> world \<Rightarrow> bool" where
  "same_environment w w' =
     (clock w' = clock w \<and> covid_api w' = covid_api w \<and> news_api w' = news_api w \<and>
      cdh_config_covid_location w' = cdh_config_covid_location w \<and>
      cnh_config_covid_terms w' = cnh_config_covid_terms w \<and> cnh_api_key w' = cnh_api_key w)"

text \<open>A later state of a world: the environment is the same and no clock reading is taken back.\<close>

definition advances :: "world \<Rightarrow> world \<Rightarrow> bool" where
  "advances w w' = (same_environment w w' \<and> ticks w \<le> ticks w')"

text \<open>
  Every reading of the clock is a valid \<^verbatim>\<open>datetime\<close> at least 30 seconds before the end of the
  range (so that a retry can be scheduled), and none is after \<open>t\<close>.
\<close>

definition clock_within :: "world \<Rightarrow> datetime \<Rightarrow> bool" where
  "clock_within w t =
     (\<forall>k. 0 \<le> clock w k \<and> clock w k + 30 * usec_per_second \<le> datetime_max \<and> clock w k \<le> t)"

text \<open>The COVID API answers, or fails with one of the two exceptions the handler catches.\<close>

definition covid_api_caught :: "world \<Rightarrow> bool" where
  "covid_api_caught w =
     (\<forall>f. covid_api w f \<noteq> Fails Timeout \<and> covid_api w f \<noteq> Fails OtherError)"

text \<open>The configured location is absent, or has both keys the callback reads.\<close>

definition covid_location_configured :: "world \<Rightarrow> bool" where
  "covid_location_configured w =
     (cdh_config_covid_location w = [] \<or>
      (has_key (cdh_config_covid_location w) ''area_type'' \<and>
       has_key (cdh_config_covid_location w) ''area_name''))"

text \<open>
  An article that \<^verbatim>\<open>update_news\<close> and \<^verbatim>\<open>news_formatter\<close> can process: it has a title and a url,
  and its content is a string.
\<close>

definition article_ok :: "row \<Rightarrow> bool" where
  "article_ok article =
     (has_key article ''title'' \<and> has_key article ''url'' \<and>
      (case map_of article ''content'' of Some (PStr text) \<Rightarrow> True | _ \<Rightarrow> False))"

text \<open>
  A response of the news API that \<^verbatim>\<open>update_news\<close> can process: empty, or with a status that
  is \<^verbatim>\<open>"error"\<close> or comes with a list of such articles.
\<close>

definition news_response_ok :: "response \<Rightarrow> bool" where
  "news_response_ok data =
     (data = [] \<or>
      (case map_of data ''status'' of
         None \<Rightarrow> False
       | Some status \<Rightarrow>
           status = JVal (PStr ''error'') \<or>
           (case map_of data ''articles'' of
              Some (JRows articles) \<Rightarrow> list_all article_ok articles
            | _ \<Rightarrow> False)))"

text \<open>
  The news API answers with such a response, or fails with one of the two exceptions the
  handler catches.
\<close>

definition news_api_settled :: "world \<Rightarrow> bool" where
  "news_api_settled w =
     (\<forall>url. case news_api w url of
              Fetched data \<Rightarrow> news_response_ok data
            | Fails x \<Rightarrow> x = ConnectionError \<or> x = Timeout)"

text \<open>
  The entry a repeating update is re-armed with, for the time \<open>previous\<close> its callback was called
  with and the clock readings from the \<open>k\<close>-th on: 24 hours after \<open>previous\<close> if that is not
  before the \<open>k\<close>-th reading, with the delay counted from the next reading; otherwise the next
  occurrence of the hour and minute of \<open>previous\<close>, taken from the next two readings, with the
  delay counted from the one after.
\<close>

definition rearmed_entry ::
  "action \<Rightarrow> datetime \<Rightarrow> string \<Rightarrow> (nat \<Rightarrow> datetime) \<Rightarrow> nat \<Rightarrow> update_entry" where
  "rearmed_entry act previous update_name clk k =
     (if previous + usec_per_day < clk k then
        (let fire_at = next_occurrence (clk (Suc k)) (clk (Suc (Suc k)))
                         (nat (dt_hour previous)) (nat (dt_minute previous))
         in entry_of act (fire_at - clk (Suc (Suc (Suc k)))) fire_at update_name True)
      else entry_of act (previous + usec_per_day - clk (Suc k)) (previous + usec_per_day)
             update_name True)"

section \<open>Properties of the merged view\<close>

lemma has_key_iff: "has_key d k \<longleftrightarrow> k \<in> fst ` set d"
  by (simp add: has_key_def map_of_eq_None_iff)

lemma collate_covid_map_of:
  "map_of (collate_covid cdh cnh k merged) name =
     (if name = k then (case map_of cdh k of None \<Rightarrow> map_of merged name
                        | Some entry \<Rightarrow> Some (covid_toast cnh entry k))
      else map_of merged name)"
  by (simp add: collate_covid_def covid_toast_def update_conv' split: option.splits)

lemma fold_collate_covid_map_of:
  "map_of (fold (collate_covid cdh cnh) ks merged) name =
     (case map_of cdh name of
        Some entry \<Rightarrow> if name \<in> set ks then Some (covid_toast cnh entry name) else map_of merged name
      | None \<Rightarrow> map_of merged name)"
proof (induction ks arbitrary: merged)
  case Nil
  then show ?case by (simp split: option.splits)
next
  case (Cons k ks)
  then show ?case
    by (auto simp: collate_covid_map_of split: option.splits)
qed

lemma collate_news_map_of:
  "map_of (collate_news cnh k merged) name =
     (case map_of merged name of
        Some t \<Rightarrow> Some t
      | None \<Rightarrow> if name = k then map_option (\<lambda>entry. \<lparr>t_covid = False, t_news = True, t_time = e_update_time entry,
                t_repeat = e_repeat entry\<rparr>) (map_of cnh k) else None)"
  by (auto simp: collate_news_def has_key_def update_conv' split: option.splits)

lemma fold_collate_news_map_of:
  "map_of (fold (collate_news cnh) ks merged) name =
     (case map_of merged name of
        Some t \<Rightarrow> Some t
      | None \<Rightarrow> if name \<in> set ks then map_option (\<lambda>entry. \<lparr>t_covid = False, t_news = True, t_time = e_update_time entry,
                t_repeat = e_repeat entry\<rparr>) (map_of cnh name) else None)"
proof (induction ks arbitrary: merged)
  case Nil
  then show ?case by (simp split: option.splits)
next
  case (Cons k ks)
  then show ?case
    by (auto simp: collate_news_map_of split: option.splits)
qed

lemma collate_covid_distinct: "distinct (map fst merged) \<Longrightarrow> distinct (map fst (collate_covid cdh cnh k merged))"
  by (simp add: collate_covid_def distinct_update split: option.splits)

lemma collate_news_distinct: "distinct (map fst merged) \<Longrightarrow> distinct (map fst (collate_news cnh k merged))"
  by (simp add: collate_news_def distinct_update split: option.splits)

lemma fold_collate_covid_distinct:
  "distinct (map fst merged) \<Longrightarrow> distinct (map fst (fold (collate_covid cdh cnh) ks merged))"
  by (induction ks arbitrary: merged) (simp_all add: collate_covid_distinct)

lemma fold_collate_news_distinct:
  "distinct (map fst merged) \<Longrightarrow> distinct (map fst (fold (collate_news cnh) ks merged))"
  by (induction ks arbitrary: merged) (simp_all add: collate_news_distinct)

lemma key_iff: "k \<in> fst ` set d \<longleftrightarrow> map_of d k \<noteq> None"
  by (simp add: map_of_eq_None_iff)

lemma map_of_Some_key: "map_of d k = Some v \<Longrightarrow> k \<in> fst ` set d"
  by (metis domI dom_map_of_conv_image_fst)

lemma collate_map_of:
  "map_of (dash_scheduled_updates (collate_update_lists w)) name =
     (case map_of (cdh_scheduled_updates w) name of
        Some entry \<Rightarrow> Some (covid_toast (cnh_scheduled_updates w) entry name)
      | None \<Rightarrow> map_option (\<lambda>entry. \<lparr>t_covid = False, t_news = True, t_time = e_update_time entry,
                t_repeat = e_repeat entry\<rparr>) (map_of (cnh_scheduled_updates w) name))"
proof (cases "map_of (cdh_scheduled_updates w) name")
  case None
  have "name \<notin> fst ` set (cnh_scheduled_updates w) \<Longrightarrow> map_of (cnh_scheduled_updates w) name = None"
    by (simp add: map_of_eq_None_iff)
  with None show ?thesis
    by (auto simp: collate_update_lists_def fold_collate_news_map_of fold_collate_covid_map_of)
next
  case (Some entry)
  then have "name \<in> fst ` set (cdh_scheduled_updates w)"
    by (rule map_of_Some_key)
  with Some show ?thesis
    by (simp add: collate_update_lists_def fold_collate_news_map_of fold_collate_covid_map_of)
qed

text \<open>
  Claim C7. For every pair of registry states, the merged view built by
  \<^verbatim>\<open>collate_update_lists\<close> is a dictionary (each name once) whose names are exactly the names of
  the covid registry and of the news registry; the covid flag of an entry is true iff its name is
  in the covid registry, its news flag is true iff its name is in the news registry (so a name in
  both has one entry with both flags true).
\<close>

theorem collate_update_lists_entries:
  "is_dict (dash_scheduled_updates (collate_update_lists w)) \<and>
   fst ` set (dash_scheduled_updates (collate_update_lists w)) =
     fst ` set (cdh_scheduled_updates w) \<union> fst ` set (cnh_scheduled_updates w) \<and>
   (\<forall>name toast. map_of (dash_scheduled_updates (collate_update_lists w)) name = Some toast \<longrightarrow>
      (t_covid toast \<longleftrightarrow> name \<in> fst ` set (cdh_scheduled_updates w)) \<and>
      (t_news toast \<longleftrightarrow> name \<in> fst ` set (cnh_scheduled_updates w)))"
proof (intro conjI allI impI)
  show "is_dict (dash_scheduled_updates (collate_update_lists w))"
    by (simp add: is_dict_def collate_update_lists_def fold_collate_news_distinct
        fold_collate_covid_distinct)
next
  have "dom (map_of (dash_scheduled_updates (collate_update_lists w))) =
        dom (map_of (cdh_scheduled_updates w)) \<union> dom (map_of (cnh_scheduled_updates w))"
    by (auto simp: collate_map_of split: option.splits)
  then show "fst ` set (dash_scheduled_updates (collate_update_lists w)) =
     fst ` set (cdh_scheduled_updates w) \<union> fst ` set (cnh_scheduled_updates w)"
    by (simp add: dom_map_of_conv_image_fst)
next
  fix name toast
  assume "map_of (dash_scheduled_updates (collate_update_lists w)) name = Some toast"
  then show "t_covid toast \<longleftrightarrow> name \<in> fst ` set (cdh_scheduled_updates w)"
    by (auto simp: collate_map_of covid_toast_def key_iff split: option.splits)
next
  fix name toast
  assume "map_of (dash_scheduled_updates (collate_update_lists w)) name = Some toast"
  then show "t_news toast \<longleftrightarrow> name \<in> fst ` set (cnh_scheduled_updates w)"
    by (auto simp: collate_map_of covid_toast_def has_key_def key_iff split: option.splits)
qed

text \<open>
  Claim C10. When a name is in both registries, its merged entry has both flags true and takes
  its time and its repeat flag from the covid registry's entry, whatever the news registry's
  entry holds.
\<close>

theorem collate_update_lists_shared_name:
  assumes "map_of (cdh_scheduled_updates w) name = Some covid_entry"
    and "map_of (cnh_scheduled_updates w) name = Some news_entry"
  shows "map_of (dash_scheduled_updates (collate_update_lists w)) name =
           Some \<lparr>t_covid = True, t_news = True, t_time = e_update_time covid_entry,
                 t_repeat = e_repeat covid_entry\<rparr>"
  using assms by (simp add: collate_map_of covid_toast_def has_key_def)


lemma collation_example_value:
  "dash_scheduled_updates (collate_update_lists collation_example) =
     [(''A'', \<lparr>t_covid = True, t_news = True, t_time = 10 * usec_per_hour, t_repeat = False\<rparr>),
      (''B'', \<lparr>t_covid = False, t_news = True, t_time = 11 * usec_per_hour, t_repeat = True\<rparr>)]"
  by (simp add: collate_update_lists_def collation_example_def initial_world_def entry_of_def
      collate_covid_def collate_news_def has_key_def)

text \<open>Witness for C7: the entry of \<open>B\<close>, a name of the news registry only.\<close>

theorem collate_update_lists_entries_witness:
  "map_of (dash_scheduled_updates (collate_update_lists collation_example)) ''B'' =
     Some \<lparr>t_covid = False, t_news = True, t_time = 11 * usec_per_hour, t_repeat = True\<rparr> \<and>
   ''B'' \<notin> fst ` set (cdh_scheduled_updates collation_example) \<and>
   ''B'' \<in> fst ` set (cnh_scheduled_updates collation_example) \<and>
   is_dict (dash_scheduled_updates (collate_update_lists collation_example)) \<and>
   fst ` set (dash_scheduled_updates (collate_update_lists collation_example)) = {''A'', ''B''}"
proof -
  have b: "map_of (dash_scheduled_updates (collate_update_lists collation_example)) ''B'' =
     Some \<lparr>t_covid = False, t_news = True, t_time = 11 * usec_per_hour, t_repeat = True\<rparr>"
    by (simp add: collation_example_value)
  have k: "fst ` set (cdh_scheduled_updates collation_example) \<union>
           fst ` set (cnh_scheduled_updates collation_example) = {''A'', ''B''}"
    by (auto simp: collation_example_def initial_world_def)
  from collate_update_lists_entries [of collation_example] b k show ?thesis
    by (metis toast_entry.select_convs(1) toast_entry.select_convs(2))
qed

text \<open>
  Witness for C10: \<open>A\<close> is in both registries, at 10:00 without repeat for covid and at 09:00
  with repeat for news; the merged entry shows 10:00 without repeat.
\<close>

theorem collate_update_lists_shared_name_witness:
  "map_of (dash_scheduled_updates (collate_update_lists collation_example)) ''A'' =
     Some \<lparr>t_covid = True, t_news = True, t_time = 10 * usec_per_hour, t_repeat = False\<rparr>"
proof -
  have c: "map_of (cdh_scheduled_updates collation_example) ''A'' =
             Some (entry_of Sch_update_covid_data 0 (10 * usec_per_hour) ''A'' False)"
    by (simp add: collation_example_def initial_world_def)
  have n: "map_of (cnh_scheduled_updates collation_example) ''A'' =
             Some (entry_of Sch_update_news 0 (9 * usec_per_hour) ''A'' True)"
    by (simp add: collation_example_def initial_world_def)
  from collate_update_lists_shared_name [OF c n] show ?thesis
    by (simp add: entry_of_def)
qed

section \<open>Properties of the key statistics\<close>

lemma first_nonempty_empty: "column_empty key rows \<Longrightarrow> first_nonempty key rows = Inr None"
  by (induction rows) (auto simp: column_empty_def empty_at_def split: option.splits)

lemma first_nonempty_index:
  "first_nonempty key rows = Inr (Some i) \<Longrightarrow>
     i < length rows \<and> (\<exists>v. map_of (rows ! i) key = Some v \<and> truthy v)"
proof (induction rows arbitrary: i)
  case Nil
  then show ?case by simp
next
  case (Cons item items)
  then show ?case
    by (auto split: option.splits if_splits sum.splits)
qed

lemma first_nonempty_typed:
  "column_typed key rows \<Longrightarrow>
     first_nonempty key rows = Inr None \<or> (\<exists>i. first_nonempty key rows = Inr (Some i))"
proof (induction rows)
  case Nil
  then show ?case by simp
next
  case (Cons item items)
  then have "column_typed key items"
    by (simp add: column_typed_def)
  with Cons.IH have "first_nonempty key items = Inr None \<or> (\<exists>i. first_nonempty key items = Inr (Some i))"
    by simp
  moreover from Cons.prems obtain v where "map_of item key = Some v"
    by (auto simp: column_typed_def typed_at_def split: option.splits)
  ultimately show ?case
    by auto
qed

lemma first_nonempty_append:
  "list_all (empty_at key) pre \<Longrightarrow>
     first_nonempty key (pre @ rest) =
       (case first_nonempty key rest of
          Inr (Some j) \<Rightarrow> Inr (Some (length pre + j))
        | r \<Rightarrow> r)"
  by (induction pre) (auto simp: empty_at_def split: option.splits sum.splits)

lemma add_new_cases_int:
  "list_all (int_at ''new_cases'') items \<Longrightarrow> \<exists>n. add_new_cases acc items = Inr n"
  by (induction items arbitrary: acc) (auto simp: int_at_def split: option.splits pyval.splits)

lemma list_all_take_drop: "list_all P xs \<Longrightarrow> list_all P (take d (drop f xs))"
  by (metis append_take_drop_id list_all_append)

lemma latest_value_empty: "column_empty key rows \<Longrightarrow> latest_value key rows = Inr (PStr ''N/A'')"
  by (simp add: latest_value_def first_nonempty_empty)

lemma total_cases_empty:
  "column_empty ''new_cases'' rows \<Longrightarrow> total_cases_last_7_days rows = Inr (PStr ''N/A'')"
  by (simp add: total_cases_last_7_days_def first_nonempty_empty)

lemma latest_value_typed:
  assumes "column_typed key rows"
  shows "\<exists>v. latest_value key rows = Inr v"
proof -
  from first_nonempty_typed [OF assms] show ?thesis
  proof
    assume "first_nonempty key rows = Inr None"
    then show ?thesis by (simp add: latest_value_def)
  next
    assume "\<exists>i. first_nonempty key rows = Inr (Some i)"
    then obtain i where i: "first_nonempty key rows = Inr (Some i)" by blast
    then obtain v where v: "i < length rows" "map_of (rows ! i) key = Some v" "truthy v"
      using first_nonempty_index by blast
    from assms v(1) have "typed_at key (rows ! i)"
      by (simp add: column_typed_def list_all_length)
    with v obtain n where "v = PInt n"
      by (cases v) (auto simp: typed_at_def)
    with i v show ?thesis by (simp add: latest_value_def)
  qed
qed

lemma total_cases_settled:
  assumes "column_settled ''new_cases'' rows"
  shows "\<exists>v. total_cases_last_7_days rows = Inr v"
proof -
  define pre where "pre = takeWhile (empty_at ''new_cases'') rows"
  define rest where "rest = dropWhile (empty_at ''new_cases'') rows"
  have rows: "rows = pre @ rest"
    by (simp add: pre_def rest_def)
  have pre: "list_all (empty_at ''new_cases'') pre"
    unfolding pre_def list_all_iff by (metis set_takeWhileD)
  have rest: "list_all (int_at ''new_cases'') rest"
    using assms by (simp add: column_settled_def rest_def)
  have fn: "first_nonempty ''new_cases'' rows =
       (case first_nonempty ''new_cases'' rest of
          Inr (Some j) \<Rightarrow> Inr (Some (length pre + j))
        | r \<Rightarrow> r)"
    unfolding rows by (rule first_nonempty_append [OF pre])
  have "column_typed ''new_cases'' rest"
    using rest unfolding column_typed_def list_all_iff
    by (auto simp: int_at_def typed_at_def split: option.splits pyval.splits)
  from first_nonempty_typed [OF this] show ?thesis
  proof
    assume "first_nonempty ''new_cases'' rest = Inr None"
    with fn show ?thesis by (simp add: total_cases_last_7_days_def)
  next
    assume "\<exists>j. first_nonempty ''new_cases'' rest = Inr (Some j)"
    then obtain j where j: "first_nonempty ''new_cases'' rest = Inr (Some j)" by blast
    with fn have i: "first_nonempty ''new_cases'' rows = Inr (Some (length pre + j))" by simp
    define days where "days = (if length rows - (length pre + j + 1) > 7 then 7
         else length rows - (length pre + j + 1))"
    have "drop (length pre + j + 1) rows = drop (j + 1) rest"
      by (simp add: rows)
    moreover have "\<exists>n. add_new_cases 0 (take days (drop (j + 1) rest)) = Inr n"
      using rest by (intro add_new_cases_int list_all_take_drop)
    ultimately obtain n where
      "add_new_cases 0 (take days (drop (length pre + j + 1) rows)) = Inr n" by auto
    then have "total_cases_last_7_days rows = Inr (PInt n)"
      unfolding total_cases_last_7_days_def Let_def days_def using i by simp
    then show ?thesis by blast
  qed
qed

lemma first_nonempty_none:
  "first_nonempty key rows = Inr None \<Longrightarrow> list_all (\<lambda>item. \<not> nonempty_at key item) rows"
  by (induction rows) (auto simp: nonempty_at_def split: option.splits if_splits sum.splits)

lemma first_nonempty_some:
  "first_nonempty key rows = Inr (Some i) \<Longrightarrow>
     i < length rows \<and> nonempty_at key (rows ! i) \<and>
     list_all (\<lambda>item. \<not> nonempty_at key item) (take i rows)"
proof (induction rows arbitrary: i)
  case Nil
  then show ?case by simp
next
  case (Cons item items)
  then show ?case
    by (auto simp: nonempty_at_def split: option.splits if_splits sum.splits)
qed

lemma find_split:
  "i < length rows \<Longrightarrow> P (rows ! i) \<Longrightarrow> list_all (\<lambda>x. \<not> P x) (take i rows) \<Longrightarrow>
     find P rows = Some (rows ! i) \<and> dropWhile (\<lambda>x. \<not> P x) rows = rows ! i # drop (Suc i) rows"
proof (induction rows arbitrary: i)
  case Nil
  then show ?case by simp
next
  case (Cons item items)
  show ?case
  proof (cases i)
    case 0
    with Cons.prems show ?thesis by simp
  next
    case (Suc j)
    with Cons.prems have "j < length items" "P (items ! j)" "list_all (\<lambda>x. \<not> P x) (take j items)"
      "\<not> P item"
      by simp_all
    with Cons.IH [of j] Suc show ?thesis by simp
  qed
qed

lemma find_none: "list_all (\<lambda>x. \<not> P x) rows \<Longrightarrow> find P rows = None \<and> dropWhile (\<lambda>x. \<not> P x) rows = []"
  by (induction rows) auto

lemma latest_value_latest_of:
  assumes "latest_value key rows = Inr b"
  shows "b = latest_of key rows"
proof (cases "first_nonempty key rows")
  case (Inl e)
  with assms show ?thesis by (simp add: latest_value_def)
next
  case (Inr r)
  show ?thesis
  proof (cases r)
    case None
    with Inr have "find (nonempty_at key) rows = None"
      using first_nonempty_none find_none by blast
    moreover from assms Inr None have "b = PStr ''N/A''"
      by (simp add: latest_value_def)
    ultimately show ?thesis by (simp add: latest_of_def)
  next
    case (Some i)
    with Inr have "find (nonempty_at key) rows = Some (rows ! i)"
      using first_nonempty_some find_split by blast
    then have "latest_of key rows = PInt (int_value key (rows ! i))"
      by (simp add: latest_of_def)
    moreover from assms Inr Some have "b = PInt (int_value key (rows ! i))"
      by (auto simp: latest_value_def int_value_def split: option.splits sum.splits)
    ultimately show ?thesis by simp
  qed
qed

lemma add_new_cases_sum:
  "add_new_cases acc items = Inr n \<Longrightarrow> n = acc + sum_list (map (int_value ''new_cases'') items)"
proof (induction items arbitrary: acc)
  case Nil
  then show ?case by simp
next
  case (Cons item items)
  from Cons.prems obtain v m where v: "map_of item ''new_cases'' = Some v" "int_py v = Inr m"
    "add_new_cases (acc + m) items = Inr n"
    by (auto split: option.splits sum.splits)
  from Cons.IH [OF v(3)] v(1,2) show ?case
    by (simp add: int_value_def)
qed

lemma take_week: "take (if length xs - f > 7 then 7 else length xs - f) (drop f xs) = take 7 (drop f xs)"
  by simp

lemma total_cases_week_total:
  assumes "total_cases_last_7_days rows = Inr a"
  shows "a = week_total rows"
proof (cases "first_nonempty ''new_cases'' rows")
  case (Inl e)
  with assms show ?thesis by (simp add: total_cases_last_7_days_def)
next
  case (Inr r)
  show ?thesis
  proof (cases r)
    case None
    with Inr have "dropWhile (\<lambda>item. \<not> nonempty_at ''new_cases'' item) rows = []"
      using first_nonempty_none find_none by blast
    moreover from assms Inr None have "a = PStr ''N/A''"
      by (simp add: total_cases_last_7_days_def)
    ultimately show ?thesis by (simp add: week_total_def del: dropWhile_eq_Nil_conv)
  next
    case (Some i)
    with Inr have "dropWhile (\<lambda>item. \<not> nonempty_at ''new_cases'' item) rows = rows ! i # drop (Suc i) rows"
      using first_nonempty_some find_split by blast
    then have w: "week_total rows = PInt (sum_list (map (int_value ''new_cases'') (take 7 (drop (Suc i) rows))))"
      by (simp add: week_total_def)
    from assms Inr Some obtain n where
      n: "add_new_cases 0 (take 7 (drop (Suc i) rows)) = Inr n" "a = PInt n"
      by (auto simp: total_cases_last_7_days_def Let_def take_week split: sum.splits if_splits)
    from add_new_cases_sum [OF n(1)] n(2) w show ?thesis by simp
  qed
qed

lemma first_nonempty_absent:
  "column_absent key rows \<Longrightarrow> rows \<noteq> [] \<Longrightarrow> first_nonempty key rows = Inl KeyError"
  by (cases rows) (simp_all add: column_absent_def)

lemma latest_value_absent:
  "column_absent key rows \<Longrightarrow> rows \<noteq> [] \<Longrightarrow> latest_value key rows = Inl KeyError"
  by (simp add: latest_value_def first_nonempty_absent)

lemma total_cases_absent:
  "column_absent ''new_cases'' rows \<Longrightarrow> rows \<noteq> [] \<Longrightarrow> total_cases_last_7_days rows = Inl KeyError"
  by (simp add: total_cases_last_7_days_def first_nonempty_absent)

text \<open>
  Claim C9, amended. Whatever \<^verbatim>\<open>process_covid_csv_data\<close> returns is, statistic by statistic,
  what the column of that statistic holds: the sum of the cases of the seven records after the
  first one that has cases, and the first non-empty entry of the hospital cases and of the
  deaths. A statistic whose entry is there and empty in every record comes out as the sentinel
  \<open>N/A\<close>, each statistic on its own. The function returns these values (it raises nothing) when
  the cases are empty everywhere or integers after their leading empty entries, and the
  hospital cases and the deaths are each empty everywhere or made of integers and \<^verbatim>\<open>None\<close>.
  When no record of a non-empty list has the key of a statistic, the function raises: KeyError
  for the cases, some exception for the other two.
\<close>

theorem process_covid_csv_data_sentinel:
  "(\<forall>a b c. process_covid_csv_data rows = Inr (a, b, c) \<longrightarrow>
      a = week_total rows \<and> b = latest_of ''hospital_cases'' rows \<and>
      c = latest_of ''cum_deaths'' rows) \<and>
   (column_empty ''new_cases'' rows \<longrightarrow>
      (\<forall>a b c. process_covid_csv_data rows = Inr (a, b, c) \<longrightarrow> a = PStr ''N/A'')) \<and>
   (column_empty ''hospital_cases'' rows \<longrightarrow>
      (\<forall>a b c. process_covid_csv_data rows = Inr (a, b, c) \<longrightarrow> b = PStr ''N/A'')) \<and>
   (column_empty ''cum_deaths'' rows \<longrightarrow>
      (\<forall>a b c. process_covid_csv_data rows = Inr (a, b, c) \<longrightarrow> c = PStr ''N/A'')) \<and>
   ((column_empty ''new_cases'' rows \<or> column_settled ''new_cases'' rows) \<and>
    (column_empty ''hospital_cases'' rows \<or> column_typed ''hospital_cases'' rows) \<and>
    (column_empty ''cum_deaths'' rows \<or> column_typed ''cum_deaths'' rows) \<longrightarrow>
      process_covid_csv_data rows =
        Inr (week_total rows, latest_of ''hospital_cases'' rows, latest_of ''cum_deaths'' rows)) \<and>
   (rows \<noteq> [] \<and> column_absent ''new_cases'' rows \<longrightarrow> process_covid_csv_data rows = Inl KeyError) \<and>
   (rows \<noteq> [] \<and> (column_absent ''hospital_cases'' rows \<or> column_absent ''cum_deaths'' rows) \<longrightarrow>
      (\<exists>e. process_covid_csv_data rows = Inl e))"
proof -
  have vals: "a = week_total rows \<and> b = latest_of ''hospital_cases'' rows \<and>
      c = latest_of ''cum_deaths'' rows" if "process_covid_csv_data rows = Inr (a, b, c)" for a b c
  proof -
    from that have "total_cases_last_7_days rows = Inr a"
      "latest_value ''hospital_cases'' rows = Inr b" "latest_value ''cum_deaths'' rows = Inr c"
      by (auto simp: process_covid_csv_data_def split: sum.splits)
    then show ?thesis
      using total_cases_week_total latest_value_latest_of by blast
  qed
  have e1: "a = PStr ''N/A''"
    if "column_empty ''new_cases'' rows" "process_covid_csv_data rows = Inr (a, b, c)" for a b c
    using that by (auto simp: process_covid_csv_data_def total_cases_empty split: sum.splits)
  have e2: "b = PStr ''N/A''"
    if "column_empty ''hospital_cases'' rows" "process_covid_csv_data rows = Inr (a, b, c)" for a b c
    using that by (auto simp: process_covid_csv_data_def latest_value_empty split: sum.splits)
  have e3: "c = PStr ''N/A''"
    if "column_empty ''cum_deaths'' rows" "process_covid_csv_data rows = Inr (a, b, c)" for a b c
    using that by (auto simp: process_covid_csv_data_def latest_value_empty split: sum.splits)
  have returns: "process_covid_csv_data rows =
        Inr (week_total rows, latest_of ''hospital_cases'' rows, latest_of ''cum_deaths'' rows)"
    if h: "(column_empty ''new_cases'' rows \<or> column_settled ''new_cases'' rows) \<and>
    (column_empty ''hospital_cases'' rows \<or> column_typed ''hospital_cases'' rows) \<and>
    (column_empty ''cum_deaths'' rows \<or> column_typed ''cum_deaths'' rows)"
  proof -
    from h have "\<exists>a. total_cases_last_7_days rows = Inr a"
      using total_cases_empty total_cases_settled by blast
    then obtain a where a: "total_cases_last_7_days rows = Inr a" ..
    from h have "\<exists>b. latest_value ''hospital_cases'' rows = Inr b"
      using latest_value_empty latest_value_typed by blast
    then obtain b where b: "latest_value ''hospital_cases'' rows = Inr b" ..
    from h have "\<exists>c. latest_value ''cum_deaths'' rows = Inr c"
      using latest_value_empty latest_value_typed by blast
    then obtain c where c: "latest_value ''cum_deaths'' rows = Inr c" ..
    have "process_covid_csv_data rows = Inr (a, b, c)"
      by (simp add: process_covid_csv_data_def a b c)
    with vals [OF this] show ?thesis by simp
  qed
  have k1: "process_covid_csv_data rows = Inl KeyError"
    if "rows \<noteq> [] \<and> column_absent ''new_cases'' rows"
    using that by (simp add: process_covid_csv_data_def total_cases_absent)
  have k2: "\<exists>e. process_covid_csv_data rows = Inl e"
    if "rows \<noteq> [] \<and> (column_absent ''hospital_cases'' rows \<or> column_absent ''cum_deaths'' rows)"
    using that latest_value_absent [of _ rows]
    by (auto simp: process_covid_csv_data_def split: sum.splits)
  from vals e1 e2 e3 returns k1 k2 show ?thesis by blast
qed

text \<open>
  Witness for C9: the records of a local authority, whose cases of the three days after the
  first reported one add up to 135 while no hospital cases or deaths are reported; and a
  record list without cases.
\<close>

theorem process_covid_csv_data_sentinel_witness:
  "column_settled ''new_cases'' exeter_rows \<and> column_empty ''hospital_cases'' exeter_rows \<and>
   column_empty ''cum_deaths'' exeter_rows \<and>
   process_covid_csv_data exeter_rows = Inr (PInt 135, PStr ''N/A'', PStr ''N/A'') \<and>
   column_absent ''new_cases'' [[(''hospital_cases'', PInt 3)]] \<and>
   process_covid_csv_data [[(''hospital_cases'', PInt 3)]] = Inl KeyError"
proof -
  have i: "column_settled ''new_cases'' exeter_rows"
    by (simp add: exeter_rows_def column_settled_def empty_at_def int_at_def)
  have h: "column_empty ''hospital_cases'' exeter_rows"
    by (simp add: exeter_rows_def column_empty_def empty_at_def)
  have d: "column_empty ''cum_deaths'' exeter_rows"
    by (simp add: exeter_rows_def column_empty_def empty_at_def)
  have w: "week_total exeter_rows = PInt 135"
    by (simp add: exeter_rows_def week_total_def nonempty_at_def int_value_def)
  note t = process_covid_csv_data_sentinel [of exeter_rows]
  from t i h d have p: "process_covid_csv_data exeter_rows =
      Inr (week_total exeter_rows, latest_of ''hospital_cases'' exeter_rows,
           latest_of ''cum_deaths'' exeter_rows)"
    by blast
  from t h p have "latest_of ''hospital_cases'' exeter_rows = PStr ''N/A''" by blast
  moreover from t d p have "latest_of ''cum_deaths'' exeter_rows = PStr ''N/A''" by blast
  ultimately have r: "process_covid_csv_data exeter_rows = Inr (PInt 135, PStr ''N/A'', PStr ''N/A'')"
    using p w by simp
  have a: "column_absent ''new_cases'' [[(''hospital_cases'', PInt 3)]]"
    by (simp add: column_absent_def)
  with process_covid_csv_data_sentinel [of "[[(''hospital_cases'', PInt 3)]]"]
  have "process_covid_csv_data [[(''hospital_cases'', PInt 3)]] = Inl KeyError"
    by blast
  with i h d r a show ?thesis by blast
qed

text \<open>
  Counterexample to C9 as stated: a record list without the \<^verbatim>\<open>hospital_cases\<close> key raises
  KeyError, and one whose hospital cases are empty everywhere raises TypeError when a day of the
  week after the first non-empty one has no cases.
\<close>

theorem process_covid_csv_data_counterexample:
  "process_covid_csv_data [[(''new_cases'', PInt 5), (''cum_deaths'', PInt 1)]] = Inl KeyError \<and>
   process_covid_csv_data
     [[(''new_cases'', PInt 5), (''hospital_cases'', PNone), (''cum_deaths'', PInt 1)],
      [(''new_cases'', PNone), (''hospital_cases'', PNone), (''cum_deaths'', PInt 1)]] = Inl TypeError"
  by (intro conjI; code_simp)

section \<open>Properties of scheduling\<close>

text \<open>Resolving an interval changes nothing in the world but the number of clock readings.\<close>

lemma time_to_update_interval_frame:
  "snd (time_to_update_interval s w) = w\<lparr>ticks := ticks (snd (time_to_update_interval s w))\<rparr>"
  by (simp add: time_to_update_interval_def now_def dt_replace_def dt_add_def
      split: list.splits option.splits sum.splits)

lemma resolve_datetime_frame:
  "snd (resolve_datetime d w) = w\<lparr>ticks := ticks (snd (resolve_datetime d w))\<rparr>"
  by (simp add: resolve_datetime_def now_def dt_replace_def dt_add_def
      split: sum.splits)

lemma resolve_seconds_frame:
  "snd (resolve_seconds n w) = w\<lparr>ticks := ticks (snd (resolve_seconds n w))\<rparr>"
  by (simp add: resolve_seconds_def now_def dt_add_def Let_def split: sum.splits)

lemma resolved_snd: "snd (resolved r) = snd r"
  by (cases r) (auto simp: resolved_def split: sum.splits)

lemma resolved_fst:
  "fst (resolved r) = (case fst r of Inl e \<Rightarrow> Inl e | Inr x \<Rightarrow> Inr (Some x))"
  by (cases r) (auto simp: resolved_def split: sum.splits)

lemma covid_update_time_frame:
  "snd (covid_update_time iv w) = w\<lparr>ticks := ticks (snd (covid_update_time iv w))\<rparr>"
proof (cases iv)
  case (IntervalInt n)
  then show ?thesis
    using resolve_seconds_frame [of n w] by (simp add: covid_update_time_def resolved_snd)
next
  case (IntervalStr s)
  then show ?thesis
    using resolve_seconds_frame [of _ w] time_to_update_interval_frame [of s w]
    by (simp add: covid_update_time_def resolved_snd split: option.splits)
next
  case (IntervalDatetime d)
  then show ?thesis
    using resolve_datetime_frame [of d w] by (simp add: covid_update_time_def resolved_snd)
next
  case IntervalOther
  then show ?thesis by (simp add: covid_update_time_def)
qed

lemma news_update_time_frame:
  "snd (news_update_time iv w) = w\<lparr>ticks := ticks (snd (news_update_time iv w))\<rparr>"
proof (cases iv)
  case (IntervalInt n)
  then show ?thesis
    using resolve_seconds_frame [of n w] by (simp add: news_update_time_def resolved_snd)
next
  case (IntervalStr s)
  then show ?thesis
    using resolve_seconds_frame [of _ w] time_to_update_interval_frame [of s w]
    by (simp add: news_update_time_def resolved_snd split: option.splits)
next
  case (IntervalDatetime d)
  then show ?thesis
    using resolve_datetime_frame [of d w] by (simp add: news_update_time_def resolved_snd)
next
  case IntervalOther
  then show ?thesis by (simp add: news_update_time_def)
qed

lemma frame_fields:
  assumes "w' = w\<lparr>ticks := k\<rparr>"
  shows "cdh_scheduled_updates w' = cdh_scheduled_updates w"
    and "cnh_scheduled_updates w' = cnh_scheduled_updates w"
    and "cdh_scheduler w' = cdh_scheduler w"
    and "cnh_scheduler w' = cnh_scheduler w"
  using assms by simp_all

text \<open>
  Claim C8, amended. For every world and every name already in a handler's registry, a call of
  that handler's scheduling procedure with the name registers nothing: the world is left as it
  was but for the clock readings taken, so the registry and the scheduler's queue are unchanged;
  and the call raises exactly when resolving the interval raises, which does not depend on the
  name: the rejection of the duplicate itself raises nothing.
\<close>

theorem schedule_duplicate_name_rejected:
  "(has_key (cdh_scheduled_updates w) update_name \<longrightarrow>
      snd (schedule_covid_updates update_interval update_name repeat w) =
        w\<lparr>ticks := ticks (snd (schedule_covid_updates update_interval update_name repeat w))\<rparr> \<and>
      cdh_scheduled_updates (snd (schedule_covid_updates update_interval update_name repeat w)) =
        cdh_scheduled_updates w \<and>
      cdh_scheduler (snd (schedule_covid_updates update_interval update_name repeat w)) =
        cdh_scheduler w \<and>
      fst (schedule_covid_updates update_interval update_name repeat w) =
        (case fst (covid_update_time update_interval w) of Inl e \<Rightarrow> Inl e | Inr r \<Rightarrow> Inr ())) \<and>
   (has_key (cnh_scheduled_updates w) update_name \<longrightarrow>
      snd (schedule_news_updates update_interval update_name repeat w) =
        w\<lparr>ticks := ticks (snd (schedule_news_updates update_interval update_name repeat w))\<rparr> \<and>
      cnh_scheduled_updates (snd (schedule_news_updates update_interval update_name repeat w)) =
        cnh_scheduled_updates w \<and>
      cnh_scheduler (snd (schedule_news_updates update_interval update_name repeat w)) =
        cnh_scheduler w \<and>
      fst (schedule_news_updates update_interval update_name repeat w) =
        (case fst (news_update_time update_interval w) of Inl e \<Rightarrow> Inl e | Inr r \<Rightarrow> Inr ()))"
proof (intro conjI impI)
  assume dup: "has_key (cdh_scheduled_updates w) update_name"
  obtain r w1 where r: "covid_update_time update_interval w = (r, w1)"
    by (cases "covid_update_time update_interval w")
  with covid_update_time_frame [of update_interval w] have w1: "w1 = w\<lparr>ticks := ticks w1\<rparr>"
    by simp
  then have reg: "cdh_scheduled_updates w1 = cdh_scheduled_updates w"
    by (rule frame_fields)
  have res: "schedule_covid_updates update_interval update_name repeat w =
        ((case r of Inl e \<Rightarrow> Inl e | Inr x \<Rightarrow> Inr ()), w1)"
    using dup reg r by (simp add: schedule_covid_updates_def split: sum.splits option.splits)
  show "snd (schedule_covid_updates update_interval update_name repeat w) =
        w\<lparr>ticks := ticks (snd (schedule_covid_updates update_interval update_name repeat w))\<rparr>"
    using res w1 by simp
  show "cdh_scheduled_updates (snd (schedule_covid_updates update_interval update_name repeat w)) =
        cdh_scheduled_updates w"
    using res reg by simp
  show "cdh_scheduler (snd (schedule_covid_updates update_interval update_name repeat w)) =
        cdh_scheduler w"
    using res frame_fields(3) [OF w1] by simp
  show "fst (schedule_covid_updates update_interval update_name repeat w) =
        (case fst (covid_update_time update_interval w) of Inl e \<Rightarrow> Inl e | Inr r \<Rightarrow> Inr ())"
    using res r by simp
next
  assume dup: "has_key (cnh_scheduled_updates w) update_name"
  obtain r w1 where r: "news_update_time update_interval w = (r, w1)"
    by (cases "news_update_time update_interval w")
  with news_update_time_frame [of update_interval w] have w1: "w1 = w\<lparr>ticks := ticks w1\<rparr>"
    by simp
  then have reg: "cnh_scheduled_updates w1 = cnh_scheduled_updates w"
    by (rule frame_fields)
  have res: "schedule_news_updates update_interval update_name repeat w =
        ((case r of Inl e \<Rightarrow> Inl e | Inr x \<Rightarrow> Inr ()), w1)"
    using dup reg r by (simp add: schedule_news_updates_def split: sum.splits option.splits)
  show "snd (schedule_news_updates update_interval update_name repeat w) =
        w\<lparr>ticks := ticks (snd (schedule_news_updates update_interval update_name repeat w))\<rparr>"
    using res w1 by simp
  show "cnh_scheduled_updates (snd (schedule_news_updates update_interval update_name repeat w)) =
        cnh_scheduled_updates w"
    using res reg by simp
  show "cnh_scheduler (snd (schedule_news_updates update_interval update_name repeat w)) =
        cnh_scheduler w"
    using res frame_fields(4) [OF w1] by simp
  show "fst (schedule_news_updates update_interval update_name repeat w) =
        (case fst (news_update_time update_interval w) of Inl e \<Rightarrow> Inl e | Inr r \<Rightarrow> Inr ())"
    using res r by simp
qed

text \<open>
  Witness for C8: \<open>update\<close> is in both registries; scheduling it again in 60 seconds returns
  normally and leaves registry and queue as they were.
\<close>

theorem schedule_duplicate_name_rejected_witness:
  "has_key (cdh_scheduled_updates loaded_world) ''update'' \<and>
   has_key (cnh_scheduled_updates loaded_world) ''update'' \<and>
   fst (schedule_covid_updates (IntervalInt 60) ''update'' True loaded_world) = Inr () \<and>
   cdh_scheduled_updates (snd (schedule_covid_updates (IntervalInt 60) ''update'' True loaded_world)) =
     cdh_scheduled_updates loaded_world \<and>
   cdh_scheduler (snd (schedule_covid_updates (IntervalInt 60) ''update'' True loaded_world)) =
     cdh_scheduler loaded_world \<and>
   fst (schedule_news_updates (IntervalInt 60) ''update'' True loaded_world) = Inr () \<and>
   cnh_scheduled_updates (snd (schedule_news_updates (IntervalInt 60) ''update'' True loaded_world)) =
     cnh_scheduled_updates loaded_world \<and>
   cnh_scheduler (snd (schedule_news_updates (IntervalInt 60) ''update'' True loaded_world)) =
     cnh_scheduler loaded_world"
proof -
  have c: "has_key (cdh_scheduled_updates loaded_world) ''update''"
    by code_simp
  have n: "has_key (cnh_scheduled_updates loaded_world) ''update''"
    by code_simp
  have rc: "fst (covid_update_time (IntervalInt 60) loaded_world) =
      Inr (Some (60 * usec_per_second, frozen_clock 0 + 60 * usec_per_second))"
    by code_simp
  have rn: "fst (news_update_time (IntervalInt 60) loaded_world) =
      Inr (Some (60 * usec_per_second, frozen_clock 0 + 60 * usec_per_second))"
    by code_simp
  from schedule_duplicate_name_rejected [of loaded_world "''update''" "IntervalInt 60" True]
    c n rc rn
  show ?thesis by simp
qed

text \<open>
  Counterexample to C8 as stated: \<open>update\<close> is in the registry, and a second call with a number
  of seconds that leaves the range of \<^verbatim>\<open>datetime\<close> raises OverflowError.
\<close>

theorem schedule_duplicate_name_counterexample:
  "has_key (cdh_scheduled_updates loaded_world) ''update'' \<and>
   fst (schedule_covid_updates (IntervalStr ''999999999999999999'') ''update'' False loaded_world) =
     Inl OverflowError"
  by (intro conjI; code_simp)

section \<open>Scheduling at a time of day\<close>

lemma code_digit_char: "d < 10 \<Longrightarrow> code (digit_char d) = 48 + d"
  by (simp add: code_def digit_char_def)

lemma code_colon: "code CHR '':'' = 58" "code CHR ''-'' = 45" "code CHR ''+'' = 43" "code CHR ''_'' = 95"
  "code CHR ''2'' = 50"
  by (simp_all add: code_def)

lemma code_inj: "code a = code b \<longleftrightarrow> a = b"
  by (simp add: code_def)

lemma digit_char_facts:
  assumes "d < 10"
  shows "is_digit (digit_char d)" "digit_val (digit_char d) = int d" "\<not> is_space (digit_char d)"
    "digit_char d \<noteq> CHR '':''" "digit_char d \<noteq> CHR ''-''" "digit_char d \<noteq> CHR ''+''"
  using assms code_digit_char [OF assms]
  by (auto simp: is_digit_def digit_val_def is_space_def code_colon simp flip: code_inj)

lemma digit_char_two: "digit_char 2 = CHR ''2''"
  by (simp add: code_digit_char code_colon flip: code_inj)

lemma int_of_str_two_digits:
  assumes "a < 10" "b < 10"
  shows "int_of_str [digit_char a, digit_char b] = Some (int (10 * a + b))"
  using digit_char_facts [OF assms(1)] digit_char_facts [OF assms(2)]
  by (simp add: int_of_str_def strip_def parse_unsigned_def)

lemma int_of_str_one_digit:
  assumes "a < 10"
  shows "int_of_str [digit_char a] = Some (int a)"
  using digit_char_facts [OF assms]
  by (simp add: int_of_str_def strip_def parse_unsigned_def)

lemma hhmm_fields:
  assumes "h < 24" "m < 60"
  shows "map int_of_str (split_on CHR '':'' (hhmm h m)) = [Some (int h), Some (int m)]"
proof -
  have d: "h div 10 < 10" "h mod 10 < 10" "m div 10 < 10" "m mod 10 < 10"
    using assms by auto
  have "split_on CHR '':'' (hhmm h m) =
      [[digit_char (h div 10), digit_char (h mod 10)], [digit_char (m div 10), digit_char (m mod 10)]]"
    using digit_char_facts(4) [OF d(1)] digit_char_facts(4) [OF d(2)]
      digit_char_facts(4) [OF d(3)] digit_char_facts(4) [OF d(4)]
    by (simp add: hhmm_def)
  then show ?thesis
    using int_of_str_two_digits [OF d(1) d(2)] int_of_str_two_digits [OF d(3) d(4)] by simp
qed

lemma hmm_fields:
  assumes "h < 10" "m < 60"
  shows "map int_of_str (split_on CHR '':'' (hmm h m)) = [Some (int h), Some (int m)]"
proof -
  have d: "m div 10 < 10" "m mod 10 < 10"
    using assms by auto
  have "split_on CHR '':'' (hmm h m) =
      [[digit_char h], [digit_char (m div 10), digit_char (m mod 10)]]"
    using digit_char_facts(4) [OF assms(1)]
      digit_char_facts(4) [OF d(1)] digit_char_facts(4) [OF d(2)]
    by (simp add: hmm_def)
  then show ?thesis
    using int_of_str_one_digit [OF assms(1)] int_of_str_two_digits [OF d(1) d(2)] by simp
qed

lemma minutes_end_digits:
  assumes "m < 60"
  shows "minutes_end [digit_char (m div 10), digit_char (m mod 10)]"
proof -
  have d: "m div 10 < 10" "m mod 10 < 10" "m div 10 \<le> 5"
    using assms by auto
  show ?thesis
    using code_digit_char [OF d(1)] digit_char_facts(1) [OF d(2)] d(3)
    by (simp add: minutes_end_def)
qed

lemma covid_time_re_hhmm:
  assumes "h < 24" "m < 60"
  shows "covid_time_re (hhmm h m)"
proof (cases "h < 20")
  case True
  then have d: "h div 10 < 10" "h mod 10 < 10" "h div 10 \<le> 1"
    by auto
  show ?thesis
    using code_digit_char [OF d(1)] digit_char_facts(1) [OF d(2)] d(3)
      minutes_end_digits [OF assms(2)]
    by (simp add: covid_time_re_def hhmm_def)
next
  case False
  with assms have d: "h div 10 = 2" "h mod 10 < 10" "h mod 10 \<le> 3"
    by presburger+
  show ?thesis
    using code_digit_char [OF d(2)] d(3) minutes_end_digits [OF assms(2)]
    by (simp add: covid_time_re_def hhmm_def d(1) digit_char_two)
qed

lemma covid_time_re_hmm:
  assumes "h < 10" "m < 60"
  shows "covid_time_re (hmm h m)"
  using digit_char_facts(1) [OF assms(1)] minutes_end_digits [OF assms(2)]
  by (simp add: covid_time_re_def hmm_def)

lemma occurrence_today_bounds:
  assumes "h < 24" "m < 60"
  shows "t - usec_per_day < occurrence_today t h m" "occurrence_today t h m < t + usec_per_day"
    "t - t mod usec_per_day \<le> occurrence_today t h m"
    "occurrence_today t h m < t - t mod usec_per_day + usec_per_day"
proof -
  have a: "0 \<le> t mod usec_per_day" "t mod usec_per_day < usec_per_day"
    by (simp_all add: usec_per_day_def)
  have b: "int h * usec_per_hour + int m * usec_per_minute < usec_per_day"
    "0 \<le> int h * usec_per_hour + int m * usec_per_minute"
    using assms by (simp_all add: usec_per_day_def usec_per_hour_def usec_per_minute_def)
  show "t - usec_per_day < occurrence_today t h m" "occurrence_today t h m < t + usec_per_day"
    "t - t mod usec_per_day \<le> occurrence_today t h m"
    "occurrence_today t h m < t - t mod usec_per_day + usec_per_day"
    unfolding occurrence_today_def using a b by linarith+
qed

lemma time_to_update_interval_value:
  assumes hm: "h < 24" "m < 60"
    and fields: "map int_of_str (split_on CHR '':'' s) = [Some (int h), Some (int m)]"
    and range: "0 \<le> clock w (ticks w)" "clock w (ticks w) + 2 * usec_per_day \<le> datetime_max"
  shows "time_to_update_interval s w =
     (Inr (next_occurrence (clock w (ticks w)) (clock w (Suc (ticks w))) h m
             - clock w (Suc (Suc (ticks w))),
           next_occurrence (clock w (ticks w)) (clock w (Suc (ticks w))) h m),
      w\<lparr>ticks := Suc (Suc (Suc (ticks w)))\<rparr>)"
proof -
  have rep: "dt_replace (clock w (ticks w)) (int h) (int m) =
      Inr (occurrence_today (clock w (ticks w)) h m)"
    using hm by (simp add: dt_replace_def occurrence_today_def)
  have m0: "0 \<le> clock w (ticks w) - clock w (ticks w) mod usec_per_day"
    using range(1) by (simp add: usec_per_day_def) (smt (verit) zmod_le_nonneg_dividend)
  have valid: "valid_datetime (occurrence_today (clock w (ticks w)) h m + usec_per_day)"
    using occurrence_today_bounds [OF hm, of "clock w (ticks w)"] range m0
    by (simp add: valid_datetime_def usec_per_day_def)
  show ?thesis
    using rep valid
    by (simp add: time_to_update_interval_def fields now_def next_occurrence_def dt_add_def)
qed

lemma occurrence_today_clock:
  assumes "h < 24" "m < 60"
  shows "dt_hour (occurrence_today t h m + k * usec_per_day) = int h"
    and "dt_minute (occurrence_today t h m + k * usec_per_day) = int m"
proof -
  define q where "q = t div usec_per_day"
  have e: "t - t mod usec_per_day = usec_per_day * q"
    by (simp add: q_def minus_mod_eq_mult_div)
  have f: "occurrence_today t h m + k * usec_per_day =
      usec_per_day * (q + k) + (int h * usec_per_hour + int m * usec_per_minute)"
    by (simp add: occurrence_today_def e algebra_simps)
  have x: "0 \<le> int h * usec_per_hour + int m * usec_per_minute"
    "int h * usec_per_hour + int m * usec_per_minute < usec_per_day"
    using assms by (simp_all add: usec_per_day_def usec_per_hour_def usec_per_minute_def)
  have "(occurrence_today t h m + k * usec_per_day) mod usec_per_day =
      int h * usec_per_hour + int m * usec_per_minute"
    unfolding f using x by simp
  moreover have "(int h * usec_per_hour + int m * usec_per_minute) div usec_per_hour = int h"
    using assms by (simp add: usec_per_hour_def usec_per_minute_def)
  ultimately show "dt_hour (occurrence_today t h m + k * usec_per_day) = int h"
    by (simp add: dt_hour_def)
  have g: "occurrence_today t h m + k * usec_per_day =
      usec_per_hour * (24 * (q + k) + int h) + int m * usec_per_minute"
    unfolding f by (simp add: usec_per_day_def usec_per_hour_def algebra_simps)
  have y: "0 \<le> int m * usec_per_minute" "int m * usec_per_minute < usec_per_hour"
    using assms by (simp_all add: usec_per_hour_def usec_per_minute_def)
  have "(occurrence_today t h m + k * usec_per_day) mod usec_per_hour = int m * usec_per_minute"
    unfolding g using y by simp
  then show "dt_minute (occurrence_today t h m + k * usec_per_day) = int m"
    by (simp add: dt_minute_def usec_per_minute_def)
qed

lemma next_occurrence_clock:
  assumes "h < 24" "m < 60"
  shows "dt_hour (next_occurrence t1 t2 h m) = int h"
    and "dt_minute (next_occurrence t1 t2 h m) = int m"
  using occurrence_today_clock [OF assms, of t1 0] occurrence_today_clock [OF assms, of t1 1]
  by (simp_all add: next_occurrence_def)

text \<open>
  Claim C2, amended. For every valid \<^verbatim>\<open>HH:MM\<close> string (hour 0-23, zero-padded or single-digit,
  minute 00-59) and a clock at least two days before the end of \<^verbatim>\<open>datetime\<close>'s range,
  \<^verbatim>\<open>schedule_covid_updates\<close> returns without raising; under a new name it records the entry
  and enters the event with \<open>fire_at\<close> today's occurrence of that time of day if it is not
  before the clock reading it is compared with, otherwise tomorrow's, and with the delay
  \<open>fire_at\<close> minus the third clock reading. With a clock that stands still during the call,
  \<open>fire_at\<close> is at or after now (not strictly after), less than a day ahead, and the delay is
  not negative.
\<close>

theorem schedule_covid_updates_clock_time:
  assumes hm: "h < 24" "m < 60"
    and s: "s = hhmm h m \<or> (h < 10 \<and> s = hmm h m)"
    and clock: "clock w (ticks w) = t1" "clock w (Suc (ticks w)) = t2"
      "clock w (Suc (Suc (ticks w))) = t3"
    and range: "0 \<le> t1" "t1 + 2 * usec_per_day \<le> datetime_max"
  shows "fst (schedule_covid_updates (IntervalStr s) update_name repeat w) = Inr () \<and>
    (\<not> has_key (cdh_scheduled_updates w) update_name \<longrightarrow>
       map_of (cdh_scheduled_updates
                 (snd (schedule_covid_updates (IntervalStr s) update_name repeat w))) update_name =
         Some (entry_of Sch_update_covid_data (next_occurrence t1 t2 h m - t3)
                 (next_occurrence t1 t2 h m) update_name repeat) \<and>
       cdh_scheduler (snd (schedule_covid_updates (IntervalStr s) update_name repeat w)) =
         cdh_scheduler w @
           [e_event (entry_of Sch_update_covid_data (next_occurrence t1 t2 h m - t3)
                       (next_occurrence t1 t2 h m) update_name repeat)]) \<and>
    dt_hour (next_occurrence t1 t2 h m) = int h \<and>
    dt_minute (next_occurrence t1 t2 h m) = int m \<and>
    (t2 = t1 \<longrightarrow> t1 \<le> next_occurrence t1 t2 h m \<and>
                next_occurrence t1 t2 h m < t1 + usec_per_day) \<and>
    (t2 = t1 \<and> t3 = t1 \<longrightarrow> 0 \<le> next_occurrence t1 t2 h m - t3)"
proof -
  have re: "covid_time_re s"
    using s hm covid_time_re_hhmm covid_time_re_hmm by blast
  have fields: "map int_of_str (split_on CHR '':'' s) = [Some (int h), Some (int m)]"
    using s hm hhmm_fields hmm_fields by blast
  have tti: "time_to_update_interval s w =
     (Inr (next_occurrence t1 t2 h m - t3, next_occurrence t1 t2 h m),
      w\<lparr>ticks := Suc (Suc (Suc (ticks w)))\<rparr>)"
    using time_to_update_interval_value [OF hm fields, of w] range clock by simp
  have cut: "covid_update_time (IntervalStr s) w =
     (Inr (Some (next_occurrence t1 t2 h m - t3, next_occurrence t1 t2 h m)),
      w\<lparr>ticks := Suc (Suc (Suc (ticks w)))\<rparr>)"
    by (simp add: covid_update_time_def re tti resolved_def)
  have ret: "fst (schedule_covid_updates (IntervalStr s) update_name repeat w) = Inr ()"
    by (simp add: schedule_covid_updates_def cut Let_def)
  have reg: "map_of (cdh_scheduled_updates
                 (snd (schedule_covid_updates (IntervalStr s) update_name repeat w))) update_name =
         Some (entry_of Sch_update_covid_data (next_occurrence t1 t2 h m - t3)
                 (next_occurrence t1 t2 h m) update_name repeat) \<and>
       cdh_scheduler (snd (schedule_covid_updates (IntervalStr s) update_name repeat w)) =
         cdh_scheduler w @
           [e_event (entry_of Sch_update_covid_data (next_occurrence t1 t2 h m - t3)
                       (next_occurrence t1 t2 h m) update_name repeat)]"
    if "\<not> has_key (cdh_scheduled_updates w) update_name"
    using that
    by (simp add: schedule_covid_updates_def cut Let_def entry_of_def update_conv')
  have frozen: "t1 \<le> next_occurrence t1 t2 h m \<and> next_occurrence t1 t2 h m < t1 + usec_per_day"
    if "t2 = t1"
    using that occurrence_today_bounds [OF hm, of t1]
    by (auto simp: next_occurrence_def)
  show ?thesis
    using ret reg frozen next_occurrence_clock [OF hm, of t1 t2] by auto
qed

text \<open>Witness for C2: at 12:34:00 the string \<open>12:35\<close> is scheduled one minute ahead.\<close>

theorem schedule_covid_updates_clock_time_witness:
  "(12::nat) < 24 \<and> (35::nat) < 60 \<and> ''12:35'' = hhmm 12 35 \<and>
   0 \<le> clock offline_world (ticks offline_world) \<and>
   clock offline_world (ticks offline_world) + 2 * usec_per_day \<le> datetime_max \<and>
   \<not> has_key (cdh_scheduled_updates offline_world) ''HH:MM'' \<and>
   fst (schedule_covid_updates (IntervalStr ''12:35'') ''HH:MM'' False offline_world) = Inr () \<and>
   map_of (cdh_scheduled_updates
             (snd (schedule_covid_updates (IntervalStr ''12:35'') ''HH:MM'' False offline_world)))
       ''HH:MM'' =
     Some (entry_of Sch_update_covid_data usec_per_minute (frozen_clock 0 + usec_per_minute)
             ''HH:MM'' False)"
proof -
  have s: "''12:35'' = hhmm 12 35"
    by code_simp
  have c: "clock offline_world (ticks offline_world) = frozen_clock 0"
    "clock offline_world (Suc (ticks offline_world)) = frozen_clock 0"
    "clock offline_world (Suc (Suc (ticks offline_world))) = frozen_clock 0"
    by (simp_all add: offline_world_def initial_world_def frozen_clock_def)
  have r: "0 \<le> frozen_clock 0" "frozen_clock 0 + 2 * usec_per_day \<le> datetime_max"
    by (simp_all add: frozen_clock_def usec_per_day_def usec_per_hour_def usec_per_minute_def
        datetime_max_def)
  have f: "\<not> has_key (cdh_scheduled_updates offline_world) ''HH:MM''"
    by (simp add: offline_world_def initial_world_def has_key_def)
  have n: "next_occurrence (frozen_clock 0) (frozen_clock 0) 12 35 = frozen_clock 0 + usec_per_minute"
    by (simp add: next_occurrence_def occurrence_today_def frozen_clock_def usec_per_day_def
        usec_per_hour_def usec_per_minute_def)
  have hm: "(12::nat) < 24" "(35::nat) < 60"
    by simp_all
  from schedule_covid_updates_clock_time
         [OF hm disjI1 [OF s] c r, of "''HH:MM''" False] f n c r s
  show ?thesis by simp
qed

text \<open>
  Counterexample to C2 as stated. At 12:34:00 sharp the string \<open>12:34\<close> gets \<open>fire_at\<close> equal
  to now in \<^verbatim>\<open>schedule_covid_updates\<close>, which is not strictly in the future. With a clock that
  advances between its readings the same string, scheduled one microsecond before 12:34:00, gets
  \<open>fire_at\<close> 12:34:00 and a delay of minus one microsecond. And \<^verbatim>\<open>schedule_news_updates\<close>
  raises ValueError on the string.
\<close>

theorem schedule_updates_clock_time_counterexample:
  "clock offline_world (ticks offline_world) = frozen_clock 0 \<and>
   map_of (cdh_scheduled_updates
             (snd (schedule_covid_updates (IntervalStr ''12:34'') ''HH:MM'' False offline_world)))
       ''HH:MM'' =
     Some (entry_of Sch_update_covid_data 0 (frozen_clock 0) ''HH:MM'' False) \<and>
   clock ticking_world (ticks ticking_world) = frozen_clock 0 - 1 \<and>
   map_of (cdh_scheduled_updates
             (snd (schedule_covid_updates (IntervalStr ''12:34'') ''HH:MM'' False ticking_world)))
       ''HH:MM'' =
     Some (entry_of Sch_update_covid_data (- 1) (frozen_clock 0) ''HH:MM'' False) \<and>
   fst (schedule_news_updates (IntervalStr ''12:34'') ''HH:MM'' False offline_world) =
     Inl ValueError"
  by (intro conjI; code_simp)

section \<open>Repeating updates\<close>

lemma same_environment_refl: "same_environment w w"
  by (simp add: same_environment_def)

lemma same_environment_trans:
  "same_environment w w1 \<Longrightarrow> same_environment w1 w2 \<Longrightarrow> same_environment w w2"
  by (simp add: same_environment_def)

lemma clock_within_env: "same_environment w w' \<Longrightarrow> clock_within w t \<Longrightarrow> clock_within w' t"
  by (simp add: same_environment_def clock_within_def)

lemma resolve_seconds_value:
  assumes "valid_datetime (clock w (ticks w) + n * usec_per_second)"
  shows "resolve_seconds n w =
     (Inr (\<bar>n\<bar> * usec_per_second, clock w (ticks w) + n * usec_per_second),
      w\<lparr>ticks := Suc (ticks w)\<rparr>)"
  using assms by (simp add: resolve_seconds_def now_def dt_add_def Let_def)

lemma schedule_covid_seconds:
  assumes "valid_datetime (clock w (ticks w) + n * usec_per_second)"
  shows "\<exists>w'. schedule_covid_updates (IntervalInt n) nm rep w = (Inr (), w') \<and>
           same_environment w w' \<and>
           cnh_scheduled_updates w' = cnh_scheduled_updates w \<and>
           (\<forall>x. x \<noteq> nm \<longrightarrow> map_of (cdh_scheduled_updates w') x = map_of (cdh_scheduled_updates w) x)"
  using resolve_seconds_value [OF assms]
  by (simp add: schedule_covid_updates_def covid_update_time_def resolved_def Let_def
      same_environment_def update_conv')

lemma covid_API_request_ok:
  assumes api: "covid_api w f0 \<noteq> Fails Timeout" "covid_api w f0 \<noteq> Fails OtherError"
    and f0: "f0 = (if location_type \<noteq> ''overview''
             then [''areaType='' @ location_type, ''areaName='' @ location]
             else [''areaType=overview''])"
    and clock: "clock_within w t"
  shows "\<exists>r w'. covid_API_request location location_type w = (Inr r, w') \<and>
           same_environment w w' \<and>
           (\<forall>x. x \<noteq> ''API Retry'' \<longrightarrow>
              map_of (cdh_scheduled_updates w') x = map_of (cdh_scheduled_updates w) x)"
proof (cases "covid_api w f0")
  case (Fetched data)
  then show ?thesis
    by (simp add: covid_API_request_def Let_def f0 [symmetric] same_environment_refl)
next
  case (Fails x)
  with api have x: "x = FailedRequestError \<or> x = ConnectionError"
    by (cases x) auto
  have "valid_datetime (clock w (ticks w) + 30 * usec_per_second)"
    using clock by (simp add: clock_within_def valid_datetime_def usec_per_second_def)
  from schedule_covid_seconds [OF this, of "''API Retry''" False]
  obtain w' where "schedule_covid_updates (IntervalInt 30) ''API Retry'' False w = (Inr (), w')"
    "same_environment w w'"
    "\<forall>x. x \<noteq> ''API Retry'' \<longrightarrow>
        map_of (cdh_scheduled_updates w') x = map_of (cdh_scheduled_updates w) x"
    by blast
  with Fails x show ?thesis
    by (auto simp: covid_API_request_def Let_def f0 [symmetric])
qed

lemma request_configured_location_ok:
  assumes "covid_api_caught w" "covid_location_configured w" "clock_within w t"
  shows "\<exists>r w'. request_configured_location w = (Inr r, w') \<and>
           same_environment w w' \<and>
           (\<forall>x. x \<noteq> ''API Retry'' \<longrightarrow>
              map_of (cdh_scheduled_updates w') x = map_of (cdh_scheduled_updates w) x)"
proof (cases "cdh_config_covid_location w = []")
  case True
  then show ?thesis
    using covid_API_request_ok [OF _ _ refl assms(3), of "''ltla''" "''Exeter''"] assms(1)
    by (simp add: request_configured_location_def covid_api_caught_def)
next
  case False
  with assms(2) obtain location_type location where
    "map_of (cdh_config_covid_location w) ''area_type'' = Some location_type"
    "map_of (cdh_config_covid_location w) ''area_name'' = Some location"
    by (auto simp: covid_location_configured_def has_key_def)
  with False show ?thesis
    using covid_API_request_ok [OF _ _ refl assms(3), of location_type location] assms(1)
    by (simp add: request_configured_location_def covid_api_caught_def)
qed

lemma resolve_datetime_ahead:
  assumes "\<not> d < clock w (ticks w)"
  shows "resolve_datetime d w =
     (Inr (d - clock w (Suc (ticks w)), d), w\<lparr>ticks := Suc (Suc (ticks w))\<rparr>)"
  using assms by (simp add: resolve_datetime_def now_def)

lemma schedule_covid_datetime_ahead:
  assumes "\<not> d < clock w (ticks w)" "\<not> has_key (cdh_scheduled_updates w) nm"
  shows "fst (schedule_covid_updates (IntervalDatetime d) nm rep w) = Inr () \<and>
     map_of (cdh_scheduled_updates (snd (schedule_covid_updates (IntervalDatetime d) nm rep w))) nm =
       Some (entry_of Sch_update_covid_data (d - clock w (Suc (ticks w))) d nm rep)"
  using assms resolve_datetime_ahead [OF assms(1)]
  by (simp add: schedule_covid_updates_def covid_update_time_def resolved_def Let_def
      entry_of_def update_conv')

lemma sch_update_covid_data_repeat:
  assumes entry: "map_of (cdh_scheduled_updates w) update_name = Some entry"
    and name: "update_name \<noteq> ''API Retry''"
    and api: "covid_api_caught w" and cfg: "covid_location_configured w"
    and clock: "clock_within w (update_time + usec_per_day)"
    and valid: "update_time + usec_per_day \<le> datetime_max"
  shows "fst (sch_update_covid_data update_time update_name True w) = Inr () \<and>
    (\<exists>delay. map_of (cdh_scheduled_updates
                 (snd (sch_update_covid_data update_time update_name True w))) update_name =
       Some (entry_of Sch_update_covid_data delay (update_time + usec_per_day) update_name True))"
proof -
  define w0 where
    "w0 = w\<lparr>cdh_scheduled_updates := AList.delete update_name (cdh_scheduled_updates w)\<rparr>"
  have env0: "same_environment w w0"
    by (simp add: w0_def same_environment_def)
  have gone0: "map_of (cdh_scheduled_updates w0) update_name = None"
    by (simp add: w0_def delete_conv')
  have c0: "clock_within w0 (update_time + usec_per_day)"
    using clock_within_env [OF env0 clock] .
  have a0: "covid_api_caught w0" "covid_location_configured w0"
    using api cfg by (simp_all add: w0_def covid_api_caught_def covid_location_configured_def)
  from request_configured_location_ok [OF a0 c0]
  obtain r1 w1 where w1: "request_configured_location w0 = (Inr r1, w1)"
    "same_environment w0 w1"
    "\<forall>x. x \<noteq> ''API Retry'' \<longrightarrow>
        map_of (cdh_scheduled_updates w1) x = map_of (cdh_scheduled_updates w0) x"
    by blast
  have c1: "clock_within w1 (update_time + usec_per_day)"
    using clock_within_env [OF w1(2) c0] .
  have a1: "covid_api w1 [''areaType=overview''] \<noteq> Fails Timeout"
    "covid_api w1 [''areaType=overview''] \<noteq> Fails OtherError"
    using a0(1) w1(2) by (simp_all add: covid_api_caught_def same_environment_def)
  from covid_API_request_ok [OF a1 _ c1, of "''overview''" "''Exeter''"]
  obtain r2 w2 where w2: "covid_API_request ''Exeter'' ''overview'' w1 = (Inr r2, w2)"
    "same_environment w1 w2"
    "\<forall>x. x \<noteq> ''API Retry'' \<longrightarrow>
        map_of (cdh_scheduled_updates w2) x = map_of (cdh_scheduled_updates w1) x"
    by auto
  define w4 where "w4 =
    (let w3 = (if r1 \<noteq> [] then w2\<lparr>cdh_covid_data := r1\<rparr> else w2)
     in if r2 \<noteq> [] then w3\<lparr>cdh_national_covid_data := r2\<rparr> else w3)"
  have reg4: "cdh_scheduled_updates w4 = cdh_scheduled_updates w2"
    and clk4: "clock w4 = clock w2" and tick4: "ticks w4 = ticks w2"
    by (simp_all add: w4_def Let_def)
  have gone4: "\<not> has_key (cdh_scheduled_updates w4) update_name"
    using gone0 w1(3) w2(3) name by (simp add: has_key_def reg4)
  have "clock_within w2 (update_time + usec_per_day)"
    using clock_within_env [OF w2(2) c1] .
  then have ahead: "\<not> update_time + usec_per_day < clock w4 (ticks w4)"
    and pos: "0 \<le> clock w4 0"
    by (simp_all add: clock_within_def clk4 not_less)
  have "0 \<le> update_time + usec_per_day"
    using \<open>clock_within w2 (update_time + usec_per_day)\<close> pos
    by (simp add: clock_within_def clk4) (meson order_trans)
  with valid have add: "dt_add update_time usec_per_day = Inr (update_time + usec_per_day)"
    by (simp add: dt_add_def valid_datetime_def)
  have run: "sch_update_covid_data update_time update_name True w =
      schedule_covid_updates (IntervalDatetime (update_time + usec_per_day)) update_name True w4"
    using entry w1(1) w2(1) add
    by (simp add: sch_update_covid_data_def has_key_def w0_def [symmetric] w4_def Let_def)
  show ?thesis
    unfolding run using schedule_covid_datetime_ahead [OF ahead gone4, of True] by blast
qed

lemma schedule_news_seconds:
  assumes "valid_datetime (clock w (ticks w) + n * usec_per_second)"
  shows "\<exists>w'. schedule_news_updates (IntervalInt n) nm rep w = (Inr (), w') \<and>
           same_environment w w' \<and>
           (\<forall>x. x \<noteq> nm \<longrightarrow> map_of (cnh_scheduled_updates w') x = map_of (cnh_scheduled_updates w) x)"
  using resolve_seconds_value [OF assms]
  by (simp add: schedule_news_updates_def news_update_time_def resolved_def Let_def
      same_environment_def update_conv')

lemma news_API_request_ok:
  assumes api: "news_api_settled w" and clock: "clock_within w t"
  shows "\<exists>r w'. news_API_request terms w = (Inr r, w') \<and>
           same_environment w w' \<and>
           (\<forall>x. x \<noteq> ''API Retry'' \<longrightarrow>
              map_of (cnh_scheduled_updates w') x = map_of (cnh_scheduled_updates w) x) \<and>
           (case r of None \<Rightarrow> True | Some data \<Rightarrow> news_response_ok data)"
proof -
  define url where "url = ''https://newsapi.org/v2/everything?q=+'' @
      join ''+'' (split_on CHR '' ''
         (if cnh_config_covid_terms w \<noteq> [] then cnh_config_covid_terms w else terms))
      @ ''&apikey='' @ cnh_api_key w"
  have eq: "news_API_request terms w =
      (case news_api w url of
         Fetched data \<Rightarrow> (Inr (Some data), w)
       | Fails x \<Rightarrow>
           if x = ConnectionError \<or> x = Timeout then
             (case schedule_news_updates (IntervalInt 30) ''API Retry'' False w of
                (Inl e, w1) \<Rightarrow> (Inl e, w1)
              | (Inr u, w1) \<Rightarrow> (Inr None, w1))
           else (Inl (ApiException x), w))"
    by (simp add: news_API_request_def Let_def url_def)
  show ?thesis
  proof (cases "news_api w url")
    case (Fetched data)
    with api have "news_response_ok data"
      by (auto simp: news_api_settled_def split: fetch.splits dest: spec [of _ url])
    with Fetched show ?thesis
      by (simp add: eq same_environment_refl)
  next
    case (Fails x)
    with api have x: "x = ConnectionError \<or> x = Timeout"
      by (auto simp: news_api_settled_def split: fetch.splits dest: spec [of _ url])
    have "valid_datetime (clock w (ticks w) + 30 * usec_per_second)"
      using clock by (simp add: clock_within_def valid_datetime_def usec_per_second_def)
    from schedule_news_seconds [OF this, of "''API Retry''" False]
    obtain w' where "schedule_news_updates (IntervalInt 30) ''API Retry'' False w = (Inr (), w')"
      "same_environment w w'"
      "\<forall>x. x \<noteq> ''API Retry'' \<longrightarrow>
          map_of (cnh_scheduled_updates w') x = map_of (cnh_scheduled_updates w) x"
      by blast
    with Fails x show ?thesis
      by (auto simp: eq)
  qed
qed

lemma append_articles_ok:
  assumes "list_all article_ok articles" "list_all article_ok (cnh_news w)"
  shows "\<exists>w'. append_articles articles w = (Inr (), w') \<and> same_environment w w' \<and>
           cnh_scheduled_updates w' = cnh_scheduled_updates w \<and>
           list_all article_ok (cnh_news w')"
  using assms
proof (induction articles arbitrary: w)
  case Nil
  then show ?case by (simp add: same_environment_refl)
next
  case (Cons article articles)
  from Cons.prems obtain title where title: "map_of article ''title'' = Some title"
    by (auto simp: article_ok_def has_key_def)
  define w1 where "w1 = (if title \<in> set (cnh_removed_articles w) then w
             else w\<lparr>cnh_news := cnh_news w @ [article]\<rparr>)"
  have e: "same_environment w w1" "cnh_scheduled_updates w1 = cnh_scheduled_updates w"
    "list_all article_ok (cnh_news w1)"
    using Cons.prems by (simp_all add: w1_def same_environment_def)
  from Cons.prems have "list_all article_ok articles" by simp
  from Cons.IH [OF this e(3)] obtain w' where
    "append_articles articles w1 = (Inr (), w')" "same_environment w1 w'"
    "cnh_scheduled_updates w' = cnh_scheduled_updates w1" "list_all article_ok (cnh_news w')"
    by blast
  with e title show ?case
    using same_environment_trans [of w w1 w']
    by (simp add: w1_def [symmetric])
qed

lemma format_article_ok: "article_ok article \<Longrightarrow> \<exists>formatted. format_article article = Inr formatted"
  by (auto simp: article_ok_def has_key_def format_article_def split: option.splits pyval.splits)

lemma format_articles_ok:
  assumes "list_all article_ok articles"
  shows "\<exists>w'. format_articles articles w = (Inr (), w') \<and> same_environment w w' \<and>
           cnh_scheduled_updates w' = cnh_scheduled_updates w"
  using assms
proof (induction articles arbitrary: w)
  case Nil
  then show ?case by (simp add: same_environment_refl)
next
  case (Cons article articles)
  from Cons.prems obtain formatted where f: "format_article article = Inr formatted"
    using format_article_ok by auto
  define w1 where "w1 = w\<lparr>cnh_formatted_news := cnh_formatted_news w @ [formatted]\<rparr>"
  have e: "same_environment w w1" "cnh_scheduled_updates w1 = cnh_scheduled_updates w"
    by (simp_all add: w1_def same_environment_def)
  from Cons.prems have "list_all article_ok articles" by simp
  from Cons.IH [OF this, of w1] obtain w' where
    "format_articles articles w1 = (Inr (), w')" "same_environment w1 w'"
    "cnh_scheduled_updates w' = cnh_scheduled_updates w1"
    by blast
  with e f show ?case
    using same_environment_trans [of w w1 w']
    by (simp add: w1_def [symmetric])
qed

lemma news_formatter_ok:
  assumes "list_all article_ok (cnh_news w)"
  shows "\<exists>w'. news_formatter w = (Inr (), w') \<and> same_environment w w' \<and>
           cnh_scheduled_updates w' = cnh_scheduled_updates w"
proof -
  define w1 where "w1 = w\<lparr>cnh_formatted_news := []\<rparr>"
  have e: "same_environment w w1" "cnh_scheduled_updates w1 = cnh_scheduled_updates w"
    by (simp_all add: w1_def same_environment_def)
  have "list_all article_ok (take 5 (cnh_news w))"
    using assms by (metis append_take_drop_id list_all_append)
  then have "list_all article_ok
      (if length (cnh_news w) \<ge> 5 then take 5 (cnh_news w) else cnh_news w)"
    using assms by simp
  from format_articles_ok [OF this, of w1] e show ?thesis
    using same_environment_trans [of w w1]
    by (auto simp: news_formatter_def Let_def w1_def [symmetric])
qed

lemma update_news_ok:
  assumes api: "news_api_settled w" and clock: "clock_within w t"
  shows "\<exists>w'. update_news terms w = (Inr (), w') \<and> same_environment w w' \<and>
           (\<forall>x. x \<noteq> ''API Retry'' \<longrightarrow>
              map_of (cnh_scheduled_updates w') x = map_of (cnh_scheduled_updates w) x)"
proof -
  from news_API_request_ok [OF api clock, of terms]
  obtain r w1 where w1: "news_API_request terms w = (Inr r, w1)" "same_environment w w1"
    "\<forall>x. x \<noteq> ''API Retry'' \<longrightarrow>
        map_of (cnh_scheduled_updates w1) x = map_of (cnh_scheduled_updates w) x"
    "case r of None \<Rightarrow> True | Some data \<Rightarrow> news_response_ok data"
    by blast
  define w2 where "w2 = w1\<lparr>cnh_news := []\<rparr>"
  have e2: "same_environment w w2" "cnh_scheduled_updates w2 = cnh_scheduled_updates w1"
    "list_all article_ok (cnh_news w2)"
    using w1(2) by (simp_all add: w2_def same_environment_def)
  have keep: "\<exists>w'. res = (Inr (), w') \<and> same_environment w w' \<and>
           (\<forall>x. x \<noteq> ''API Retry'' \<longrightarrow>
              map_of (cnh_scheduled_updates w') x = map_of (cnh_scheduled_updates w) x)"
    if "res = (Inr (), w3)" "same_environment w2 w3"
      "cnh_scheduled_updates w3 = cnh_scheduled_updates w2" for res w3
    using that e2 w1(3) same_environment_trans [of w w2 w3] by simp
  have stop: ?thesis if "update_news terms w = (Inr (), w2)"
    using keep [OF that same_environment_refl refl] .
  show ?thesis
  proof (cases r)
    case None
    with w1(1) show ?thesis
      by (intro stop) (simp add: update_news_def w2_def Let_def)
  next
    case (Some data)
    with w1(4) have ok: "news_response_ok data" by simp
    show ?thesis
    proof (cases "data = []")
      case True
      with Some w1(1) show ?thesis
        by (intro stop) (simp add: update_news_def w2_def Let_def)
    next
      case False
      with ok obtain status where status: "map_of data ''status'' = Some status"
        and rest: "status = JVal (PStr ''error'') \<or>
           (case map_of data ''articles'' of
              Some (JRows articles) \<Rightarrow> list_all article_ok articles
            | _ \<Rightarrow> False)"
        by (auto simp: news_response_ok_def split: option.splits)
      show ?thesis
      proof (cases "status = JVal (PStr ''error'')")
        case True
        with Some False status w1(1) show ?thesis
          by (intro stop) (simp add: update_news_def w2_def Let_def)
      next
        case ne: False
        with rest obtain articles where arts: "map_of data ''articles'' = Some (JRows articles)"
          "list_all article_ok articles"
          by (auto split: option.splits jval.splits)
        from append_articles_ok [OF arts(2) e2(3)] obtain w3 where
          w3: "append_articles articles w2 = (Inr (), w3)" "same_environment w2 w3"
          "cnh_scheduled_updates w3 = cnh_scheduled_updates w2"
          "list_all article_ok (cnh_news w3)"
          by blast
        from news_formatter_ok [OF w3(4)] obtain w4 where
          w4: "news_formatter w3 = (Inr (), w4)" "same_environment w3 w4"
          "cnh_scheduled_updates w4 = cnh_scheduled_updates w3"
          by blast
        have "update_news terms w = (Inr (), w4)"
          using Some False status ne arts(1) w1(1) w3(1) w4(1)
          by (simp add: update_news_def w2_def [symmetric] Let_def)
        then show ?thesis
          using keep [of _ w4] same_environment_trans [OF w3(2) w4(2)] w3(3) w4(3) by simp
      qed
    qed
  qed
qed

lemma schedule_news_datetime_ahead:
  assumes "\<not> d < clock w (ticks w)" "\<not> has_key (cnh_scheduled_updates w) nm"
  shows "fst (schedule_news_updates (IntervalDatetime d) nm rep w) = Inr () \<and>
     map_of (cnh_scheduled_updates (snd (schedule_news_updates (IntervalDatetime d) nm rep w))) nm =
       Some (entry_of Sch_update_news (d - clock w (Suc (ticks w))) d nm rep)"
  using assms resolve_datetime_ahead [OF assms(1)]
  by (simp add: schedule_news_updates_def news_update_time_def resolved_def Let_def
      entry_of_def update_conv')

lemma sch_update_news_repeat:
  assumes entry: "map_of (cnh_scheduled_updates w) update_name = Some entry"
    and name: "update_name \<noteq> ''API Retry''"
    and api: "news_api_settled w"
    and clock: "clock_within w (update_time + usec_per_day)"
    and valid: "update_time + usec_per_day \<le> datetime_max"
  shows "fst (sch_update_news update_time update_name True w) = Inr () \<and>
    (\<exists>delay. map_of (cnh_scheduled_updates
                 (snd (sch_update_news update_time update_name True w))) update_name =
       Some (entry_of Sch_update_news delay (update_time + usec_per_day) update_name True))"
proof -
  define w0 where
    "w0 = w\<lparr>cnh_scheduled_updates := AList.delete update_name (cnh_scheduled_updates w)\<rparr>"
  have env0: "same_environment w w0"
    by (simp add: w0_def same_environment_def)
  have gone0: "map_of (cnh_scheduled_updates w0) update_name = None"
    by (simp add: w0_def delete_conv')
  have c0: "clock_within w0 (update_time + usec_per_day)"
    using clock_within_env [OF env0 clock] .
  have a0: "news_api_settled w0"
    using api by (simp add: w0_def news_api_settled_def)
  from update_news_ok [OF a0 c0, of "''Covid COVID-19 coronavirus''"]
  obtain w1 where w1: "update_news ''Covid COVID-19 coronavirus'' w0 = (Inr (), w1)"
    "same_environment w0 w1"
    "\<forall>x. x \<noteq> ''API Retry'' \<longrightarrow>
        map_of (cnh_scheduled_updates w1) x = map_of (cnh_scheduled_updates w0) x"
    by blast
  have gone1: "\<not> has_key (cnh_scheduled_updates w1) update_name"
    using gone0 w1(3) name by (simp add: has_key_def)
  have c1: "clock_within w1 (update_time + usec_per_day)"
    using clock_within_env [OF w1(2) c0] .
  then have ahead: "\<not> update_time + usec_per_day < clock w1 (ticks w1)"
    and pos: "0 \<le> clock w1 0"
    by (simp_all add: clock_within_def not_less)
  have "0 \<le> update_time + usec_per_day"
    using c1 pos by (simp add: clock_within_def) (meson order_trans)
  with valid have add: "dt_add update_time usec_per_day = Inr (update_time + usec_per_day)"
    by (simp add: dt_add_def valid_datetime_def)
  have run: "sch_update_news update_time update_name True w =
      schedule_news_updates (IntervalDatetime (update_time + usec_per_day)) update_name True w1"
    using entry w1(1) add
    by (simp add: sch_update_news_def has_key_def w0_def [symmetric])
  show ?thesis
    unfolding run using schedule_news_datetime_ahead [OF ahead gone1, of True] by blast
qed

lemma sch_update_covid_data_removes_first:
  assumes "map_of (cdh_scheduled_updates w) update_name = Some entry"
    and "covid_location_configured w" and "\<forall>f. covid_api w f = Fails OtherError"
  shows "sch_update_covid_data update_time update_name repeat w =
     (Inl (ApiException OtherError),
      w\<lparr>cdh_scheduled_updates := AList.delete update_name (cdh_scheduled_updates w)\<rparr>)"
  using assms
  by (auto simp: sch_update_covid_data_def request_configured_location_def
      covid_API_request_def covid_location_configured_def has_key_def Let_def)

lemma sch_update_news_removes_first:
  assumes "map_of (cnh_scheduled_updates w) update_name = Some entry"
    and "\<forall>u. news_api w u = Fails OtherError"
  shows "sch_update_news update_time update_name repeat w =
     (Inl (ApiException OtherError),
      w\<lparr>cnh_scheduled_updates := AList.delete update_name (cnh_scheduled_updates w)\<rparr>)"
  using assms
  by (simp add: sch_update_news_def update_news_def news_API_request_def has_key_def Let_def)

lemma e_update_time_entry_of: "e_update_time (entry_of act delay t nm rep) = t"
  by (simp add: entry_of_def)

lemma advances_refl: "advances w w"
  by (simp add: advances_def same_environment_def)

lemma advances_trans: "advances w w1 \<Longrightarrow> advances w1 w2 \<Longrightarrow> advances w w2"
  by (simp add: advances_def same_environment_def)

lemma dt_hour_range: "0 \<le> dt_hour t \<and> dt_hour t < 24"
proof -
  have a: "0 \<le> t mod usec_per_day" "t mod usec_per_day \<le> 86399999999"
    by (simp_all add: usec_per_day_def)
  from a(2) have "t mod usec_per_day div 3600000000 \<le> 86399999999 div 3600000000"
    by (rule zdiv_mono1) simp
  with a(1) show ?thesis
    unfolding dt_hour_def by (simp add: usec_per_hour_def pos_imp_zdiv_nonneg_iff)
qed

lemma dt_minute_range: "0 \<le> dt_minute t \<and> dt_minute t < 60"
proof -
  have a: "0 \<le> t mod usec_per_hour" "t mod usec_per_hour \<le> 3599999999"
    by (simp_all add: usec_per_hour_def)
  from a(2) have "t mod usec_per_hour div 60000000 \<le> 3599999999 div 60000000"
    by (rule zdiv_mono1) simp
  with a(1) show ?thesis
    unfolding dt_minute_def by (simp add: usec_per_minute_def pos_imp_zdiv_nonneg_iff)
qed

lemma dt_hour_next_day: "dt_hour (t + usec_per_day) = dt_hour t"
  by (simp add: dt_hour_def)

lemma dt_minute_next_day: "dt_minute (t + usec_per_day) = dt_minute t"
proof -
  have "usec_per_day = 24 * usec_per_hour"
    by (simp add: usec_per_day_def usec_per_hour_def)
  moreover have "(t + 24 * usec_per_hour) mod usec_per_hour = t mod usec_per_hour"
    by (rule mod_mult_self1)
  ultimately have "(t + usec_per_day) mod usec_per_hour = t mod usec_per_hour"
    by simp
  then show ?thesis by (simp add: dt_minute_def)
qed

lemma resolve_datetime_past:
  assumes "d < clock w (ticks w)" "fst (resolve_datetime d w) = Inr x"
  shows "x = (next_occurrence (clock w (Suc (ticks w))) (clock w (Suc (Suc (ticks w))))
                (nat (dt_hour d)) (nat (dt_minute d)) - clock w (Suc (Suc (Suc (ticks w)))),
              next_occurrence (clock w (Suc (ticks w))) (clock w (Suc (Suc (ticks w))))
                (nat (dt_hour d)) (nat (dt_minute d)))"
proof -
  have rep: "dt_replace t (dt_hour d) (dt_minute d) =
      Inr (occurrence_today t (nat (dt_hour d)) (nat (dt_minute d)))" for t
    using dt_hour_range [of d] dt_minute_range [of d]
    by (simp add: dt_replace_def occurrence_today_def)
  from assms show ?thesis
    by (auto simp: resolve_datetime_def now_def rep next_occurrence_def dt_add_def
        split: if_splits)
qed

lemma time_to_update_interval_ticks: "ticks w \<le> ticks (snd (time_to_update_interval s w))"
  by (simp add: time_to_update_interval_def now_def dt_replace_def dt_add_def
      split: list.splits option.splits sum.splits)

lemma resolve_datetime_ticks: "ticks w \<le> ticks (snd (resolve_datetime d w))"
  by (simp add: resolve_datetime_def now_def dt_replace_def dt_add_def split: sum.splits)

lemma resolve_seconds_ticks: "ticks w \<le> ticks (snd (resolve_seconds n w))"
  by (simp add: resolve_seconds_def now_def dt_add_def Let_def split: sum.splits)

lemma covid_update_time_ticks: "ticks w \<le> ticks (snd (covid_update_time iv w))"
  using resolve_seconds_ticks [of w] time_to_update_interval_ticks [of w]
    resolve_datetime_ticks [of w]
  by (cases iv) (simp_all add: covid_update_time_def resolved_snd split: option.splits)

lemma news_update_time_ticks: "ticks w \<le> ticks (snd (news_update_time iv w))"
  using resolve_seconds_ticks [of w] time_to_update_interval_ticks [of w]
    resolve_datetime_ticks [of w]
  by (cases iv) (simp_all add: news_update_time_def resolved_snd split: option.splits)

lemma frame_advances: "w' = w\<lparr>ticks := k\<rparr> \<Longrightarrow> ticks w \<le> k \<Longrightarrow> advances w w'"
  by (simp add: advances_def same_environment_def)

lemma schedule_covid_updates_frame:
  "advances w (snd (schedule_covid_updates iv nm rep w)) \<and>
   (\<forall>x. x \<noteq> nm \<longrightarrow>
      map_of (cdh_scheduled_updates (snd (schedule_covid_updates iv nm rep w))) x =
      map_of (cdh_scheduled_updates w) x)"
proof -
  obtain r w1 where r: "covid_update_time iv w = (r, w1)"
    by (cases "covid_update_time iv w")
  with covid_update_time_frame [of iv w] covid_update_time_ticks [of w iv]
  have w1: "w1 = w\<lparr>ticks := ticks w1\<rparr>" "ticks w \<le> ticks w1"
    by simp_all
  have a: "advances w w1"
    using frame_advances [OF w1] .
  have reg: "cdh_scheduled_updates w1 = cdh_scheduled_updates w"
    using w1(1) by (rule frame_fields)
  show ?thesis
    using a reg
    by (auto simp: schedule_covid_updates_def r Let_def advances_def same_environment_def
        update_conv' split: sum.splits option.splits)
qed

lemma schedule_news_updates_frame:
  "advances w (snd (schedule_news_updates iv nm rep w)) \<and>
   (\<forall>x. x \<noteq> nm \<longrightarrow>
      map_of (cnh_scheduled_updates (snd (schedule_news_updates iv nm rep w))) x =
      map_of (cnh_scheduled_updates w) x)"
proof -
  obtain r w1 where r: "news_update_time iv w = (r, w1)"
    by (cases "news_update_time iv w")
  with news_update_time_frame [of iv w] news_update_time_ticks [of w iv]
  have w1: "w1 = w\<lparr>ticks := ticks w1\<rparr>" "ticks w \<le> ticks w1"
    by simp_all
  have a: "advances w w1"
    using frame_advances [OF w1] .
  have reg: "cnh_scheduled_updates w1 = cnh_scheduled_updates w"
    using w1(1) by (rule frame_fields)
  show ?thesis
    using a reg
    by (auto simp: schedule_news_updates_def r Let_def advances_def same_environment_def
        update_conv' split: sum.splits option.splits)
qed

lemma covid_API_request_frame:
  "advances w (snd (covid_API_request location location_type w)) \<and>
   (\<forall>x. x \<noteq> ''API Retry'' \<longrightarrow>
      map_of (cdh_scheduled_updates (snd (covid_API_request location location_type w))) x =
      map_of (cdh_scheduled_updates w) x)"
proof -
  have "snd (covid_API_request location location_type w) = w \<or>
      snd (covid_API_request location location_type w) =
        snd (schedule_covid_updates (IntervalInt 30) ''API Retry'' False w)"
    by (auto simp: covid_API_request_def Let_def split: fetch.splits sum.splits prod.splits)
  then show ?thesis
    using schedule_covid_updates_frame [of w "IntervalInt 30" "''API Retry''" False]
      advances_refl [of w]
    by auto
qed

lemma request_configured_location_frame:
  "advances w (snd (request_configured_location w)) \<and>
   (\<forall>x. x \<noteq> ''API Retry'' \<longrightarrow>
      map_of (cdh_scheduled_updates (snd (request_configured_location w))) x =
      map_of (cdh_scheduled_updates w) x)"
  using covid_API_request_frame [of w] advances_refl [of w]
  by (auto simp: request_configured_location_def split: option.splits)

lemma schedule_covid_datetime_rearm:
  assumes fresh: "\<not> has_key (cdh_scheduled_updates w) nm"
    and ret: "fst (schedule_covid_updates (IntervalDatetime (previous + usec_per_day)) nm True w) = Inr ()"
  shows "map_of (cdh_scheduled_updates
           (snd (schedule_covid_updates (IntervalDatetime (previous + usec_per_day)) nm True w))) nm =
         Some (rearmed_entry Sch_update_covid_data previous nm (clock w) (ticks w))"
proof (cases "previous + usec_per_day < clock w (ticks w)")
  case False
  from schedule_covid_datetime_ahead [OF False fresh, of True] False show ?thesis
    by (simp add: rearmed_entry_def)
next
  case True
  obtain x w' where x: "resolve_datetime (previous + usec_per_day) w = (x, w')"
    by (cases "resolve_datetime (previous + usec_per_day) w")
  with resolve_datetime_frame [of "previous + usec_per_day" w]
  have "w' = w\<lparr>ticks := ticks w'\<rparr>" by simp
  then have reg: "cdh_scheduled_updates w' = cdh_scheduled_updates w"
    by (rule frame_fields)
  from ret obtain y where y: "x = Inr y"
    by (cases x) (simp_all add: schedule_covid_updates_def covid_update_time_def x resolved_def)
  with x have "fst (resolve_datetime (previous + usec_per_day) w) = Inr y" by simp
  from resolve_datetime_past [OF True this] have
    "y = (next_occurrence (clock w (Suc (ticks w))) (clock w (Suc (Suc (ticks w))))
                (nat (dt_hour previous)) (nat (dt_minute previous)) - clock w (Suc (Suc (Suc (ticks w)))),
              next_occurrence (clock w (Suc (ticks w))) (clock w (Suc (Suc (ticks w))))
                (nat (dt_hour previous)) (nat (dt_minute previous)))"
    by (simp add: dt_hour_next_day dt_minute_next_day)
  with True fresh show ?thesis
    by (simp add: schedule_covid_updates_def covid_update_time_def x y resolved_def reg
        rearmed_entry_def Let_def entry_of_def update_conv')
qed

lemma schedule_news_datetime_rearm:
  assumes fresh: "\<not> has_key (cnh_scheduled_updates w) nm"
    and ret: "fst (schedule_news_updates (IntervalDatetime (previous + usec_per_day)) nm True w) = Inr ()"
  shows "map_of (cnh_scheduled_updates
           (snd (schedule_news_updates (IntervalDatetime (previous + usec_per_day)) nm True w))) nm =
         Some (rearmed_entry Sch_update_news previous nm (clock w) (ticks w))"
proof (cases "previous + usec_per_day < clock w (ticks w)")
  case False
  from schedule_news_datetime_ahead [OF False fresh, of True] False show ?thesis
    by (simp add: rearmed_entry_def)
next
  case True
  obtain x w' where x: "resolve_datetime (previous + usec_per_day) w = (x, w')"
    by (cases "resolve_datetime (previous + usec_per_day) w")
  with resolve_datetime_frame [of "previous + usec_per_day" w]
  have "w' = w\<lparr>ticks := ticks w'\<rparr>" by simp
  then have reg: "cnh_scheduled_updates w' = cnh_scheduled_updates w"
    by (rule frame_fields)
  from ret obtain y where y: "x = Inr y"
    by (cases x) (simp_all add: schedule_news_updates_def news_update_time_def x resolved_def)
  with x have "fst (resolve_datetime (previous + usec_per_day) w) = Inr y" by simp
  from resolve_datetime_past [OF True this] have
    "y = (next_occurrence (clock w (Suc (ticks w))) (clock w (Suc (Suc (ticks w))))
                (nat (dt_hour previous)) (nat (dt_minute previous)) - clock w (Suc (Suc (Suc (ticks w)))),
              next_occurrence (clock w (Suc (ticks w))) (clock w (Suc (Suc (ticks w))))
                (nat (dt_hour previous)) (nat (dt_minute previous)))"
    by (simp add: dt_hour_next_day dt_minute_next_day)
  with True fresh show ?thesis
    by (simp add: schedule_news_updates_def news_update_time_def x y resolved_def reg
        rearmed_entry_def Let_def entry_of_def update_conv')
qed

lemma dt_add_value: "dt_add t d = Inr u \<Longrightarrow> u = t + d"
  by (simp add: dt_add_def split: if_splits)

lemma sch_update_covid_data_rearm:
  assumes entry: "map_of (cdh_scheduled_updates w) update_name = Some entry"
    and name: "update_name \<noteq> ''API Retry''"
    and ret: "fst (sch_update_covid_data previous update_name True w) = Inr ()"
  shows "\<exists>k\<ge>ticks w.
     map_of (cdh_scheduled_updates (snd (sch_update_covid_data previous update_name True w)))
       update_name =
     Some (rearmed_entry Sch_update_covid_data previous update_name (clock w) k)"
proof -
  define w0 where
    "w0 = w\<lparr>cdh_scheduled_updates := AList.delete update_name (cdh_scheduled_updates w)\<rparr>"
  have a0: "advances w w0"
    by (simp add: w0_def advances_def same_environment_def)
  have gone0: "map_of (cdh_scheduled_updates w0) update_name = None"
    by (simp add: w0_def delete_conv')
  obtain r1 w1 where w1: "request_configured_location w0 = (r1, w1)"
    by (cases "request_configured_location w0")
  with request_configured_location_frame [of w0]
  have a1: "advances w0 w1"
    and reg1: "\<forall>x. x \<noteq> ''API Retry'' \<longrightarrow>
        map_of (cdh_scheduled_updates w1) x = map_of (cdh_scheduled_updates w0) x"
    by simp_all
  obtain r2 w2 where w2: "covid_API_request ''Exeter'' ''overview'' w1 = (r2, w2)"
    by (cases "covid_API_request ''Exeter'' ''overview'' w1")
  with covid_API_request_frame [of w1 "''Exeter''" "''overview''"]
  have a2: "advances w1 w2"
    and reg2: "\<forall>x. x \<noteq> ''API Retry'' \<longrightarrow>
        map_of (cdh_scheduled_updates w2) x = map_of (cdh_scheduled_updates w1) x"
    by simp_all
  have has: "has_key (cdh_scheduled_updates w) update_name"
    using entry by (simp add: has_key_def)
  from ret has w1 obtain b1 where b1: "r1 = Inr b1"
    by (cases r1) (simp_all add: sch_update_covid_data_def w0_def [symmetric])
  from ret has w1 w2 b1 obtain b2 where b2: "r2 = Inr b2"
    by (cases r2) (simp_all add: sch_update_covid_data_def w0_def [symmetric])
  define w4 where "w4 =
    (let w3 = (if b1 \<noteq> [] then w2\<lparr>cdh_covid_data := b1\<rparr> else w2)
     in if b2 \<noteq> [] then w3\<lparr>cdh_national_covid_data := b2\<rparr> else w3)"
  have reg4: "cdh_scheduled_updates w4 = cdh_scheduled_updates w2"
    and clk4: "clock w4 = clock w2" and tick4: "ticks w4 = ticks w2"
    by (simp_all add: w4_def Let_def)
  have gone4: "\<not> has_key (cdh_scheduled_updates w4) update_name"
    using gone0 reg1 reg2 name by (simp add: has_key_def reg4)
  have run0: "sch_update_covid_data previous update_name True w =
      (case dt_add previous usec_per_day of
         Inl e \<Rightarrow> (Inl e, w4)
       | Inr update_time \<Rightarrow>
           schedule_covid_updates (IntervalDatetime update_time) update_name True w4)"
    using has w1 w2 b1 b2
    by (auto simp: sch_update_covid_data_def w0_def [symmetric] w4_def Let_def
        split: sum.splits)
  from ret obtain u where u: "dt_add previous usec_per_day = Inr u"
    unfolding run0 by (cases "dt_add previous usec_per_day") simp_all
  with dt_add_value have add: "dt_add previous usec_per_day = Inr (previous + usec_per_day)"
    by blast
  have run: "sch_update_covid_data previous update_name True w =
      schedule_covid_updates (IntervalDatetime (previous + usec_per_day)) update_name True w4"
    by (simp add: run0 add)
  from ret have "fst (schedule_covid_updates (IntervalDatetime (previous + usec_per_day))
      update_name True w4) = Inr ()"
    by (simp add: run)
  from schedule_covid_datetime_rearm [OF gone4 this]
  have "map_of (cdh_scheduled_updates (snd (sch_update_covid_data previous update_name True w)))
       update_name =
     Some (rearmed_entry Sch_update_covid_data previous update_name (clock w4) (ticks w4))"
    by (simp add: run)
  moreover have "clock w4 = clock w" "ticks w \<le> ticks w4"
    using a0 a1 a2 by (simp_all add: advances_def same_environment_def clk4 tick4)
  ultimately show ?thesis by auto
qed

lemma news_API_request_frame:
  "advances w (snd (news_API_request terms w)) \<and>
   (\<forall>x. x \<noteq> ''API Retry'' \<longrightarrow>
      map_of (cnh_scheduled_updates (snd (news_API_request terms w))) x =
      map_of (cnh_scheduled_updates w) x)"
proof -
  have "snd (news_API_request terms w) = w \<or>
      snd (news_API_request terms w) =
        snd (schedule_news_updates (IntervalInt 30) ''API Retry'' False w)"
    by (auto simp: news_API_request_def Let_def split: fetch.splits sum.splits prod.splits)
  then show ?thesis
    using schedule_news_updates_frame [of w "IntervalInt 30" "''API Retry''" False]
      advances_refl [of w]
    by auto
qed

lemma append_articles_frame:
  "advances w (snd (append_articles articles w)) \<and>
   cnh_scheduled_updates (snd (append_articles articles w)) = cnh_scheduled_updates w"
proof (induction articles arbitrary: w)
  case Nil
  then show ?case by (simp add: advances_refl)
next
  case (Cons article articles)
  show ?case
  proof (cases "map_of article ''title''")
    case None
    then show ?thesis by (simp add: advances_refl)
  next
    case (Some title)
    define w1 where "w1 = (if title \<in> set (cnh_removed_articles w) then w
             else w\<lparr>cnh_news := cnh_news w @ [article]\<rparr>)"
    have e: "advances w w1" "cnh_scheduled_updates w1 = cnh_scheduled_updates w"
      by (simp_all add: w1_def advances_def same_environment_def)
    from Cons.IH [of w1] e Some show ?thesis
      using advances_trans [of w w1]
      by (simp add: w1_def [symmetric])
  qed
qed

lemma format_articles_frame:
  "advances w (snd (format_articles articles w)) \<and>
   cnh_scheduled_updates (snd (format_articles articles w)) = cnh_scheduled_updates w"
proof (induction articles arbitrary: w)
  case Nil
  then show ?case by (simp add: advances_refl)
next
  case (Cons article articles)
  show ?case
  proof (cases "format_article article")
    case (Inl e)
    then show ?thesis by (simp add: advances_refl)
  next
    case (Inr formatted)
    define w1 where "w1 = w\<lparr>cnh_formatted_news := cnh_formatted_news w @ [formatted]\<rparr>"
    have e: "advances w w1" "cnh_scheduled_updates w1 = cnh_scheduled_updates w"
      by (simp_all add: w1_def advances_def same_environment_def)
    from Cons.IH [of w1] e Inr show ?thesis
      using advances_trans [of w w1]
      by (simp add: w1_def [symmetric])
  qed
qed

lemma news_formatter_frame:
  "advances w (snd (news_formatter w)) \<and>
   cnh_scheduled_updates (snd (news_formatter w)) = cnh_scheduled_updates w"
proof -
  define w1 where "w1 = w\<lparr>cnh_formatted_news := []\<rparr>"
  have e: "advances w w1" "cnh_scheduled_updates w1 = cnh_scheduled_updates w"
    by (simp_all add: w1_def advances_def same_environment_def)
  from format_articles_frame [of w1] e show ?thesis
    using advances_trans [of w w1]
    by (simp add: news_formatter_def Let_def w1_def [symmetric])
qed

lemma update_news_frame:
  "advances w (snd (update_news terms w)) \<and>
   (\<forall>x. x \<noteq> ''API Retry'' \<longrightarrow>
      map_of (cnh_scheduled_updates (snd (update_news terms w))) x =
      map_of (cnh_scheduled_updates w) x)"
proof -
  obtain r w1 where w1: "news_API_request terms w = (r, w1)"
    by (cases "news_API_request terms w")
  with news_API_request_frame [of w terms]
  have a1: "advances w w1"
    and reg1: "\<forall>x. x \<noteq> ''API Retry'' \<longrightarrow>
        map_of (cnh_scheduled_updates w1) x = map_of (cnh_scheduled_updates w) x"
    by simp_all
  define w2 where "w2 = w1\<lparr>cnh_news := []\<rparr>"
  have e2: "advances w1 w2" "cnh_scheduled_updates w2 = cnh_scheduled_updates w1"
    by (simp_all add: w2_def advances_def same_environment_def)
  have quiet: "advances w1 w' \<and> cnh_scheduled_updates w' = cnh_scheduled_updates w1"
    if "advances w2 w' \<and> cnh_scheduled_updates w' = cnh_scheduled_updates w2" for w'
    using that e2 advances_trans [of w1 w2 w'] by simp
  have q2: "advances w1 w2 \<and> cnh_scheduled_updates w2 = cnh_scheduled_updates w1"
    using e2 by simp
  have qf: "advances w1 (snd (news_formatter w2)) \<and>
      cnh_scheduled_updates (snd (news_formatter w2)) = cnh_scheduled_updates w1"
    using quiet [OF news_formatter_frame [of w2]] .
  have qa: "advances w1 (snd (news_formatter w')) \<and>
      cnh_scheduled_updates (snd (news_formatter w')) = cnh_scheduled_updates w1"
    if "append_articles articles w2 = (r', w')" for articles r' w'
    using that append_articles_frame [of w2 articles] news_formatter_frame [of w']
      advances_trans [of w2 w'] quiet
    by simp
  have qb: "advances w1 w' \<and> cnh_scheduled_updates w' = cnh_scheduled_updates w1"
    if "append_articles articles w2 = (r', w')" for articles r' w'
    using that quiet [OF append_articles_frame [of w2 articles]] by simp
  have "advances w1 (snd (update_news terms w)) \<and>
      cnh_scheduled_updates (snd (update_news terms w)) = cnh_scheduled_updates w1"
    using q2 qf qa qb advances_refl [of w1]
    by (auto simp: update_news_def w1 w2_def [symmetric] Let_def
        split: sum.splits option.splits jval.splits prod.splits)
  with a1 reg1 show ?thesis
    using advances_trans [of w w1] by simp
qed

lemma sch_update_news_rearm:
  assumes entry: "map_of (cnh_scheduled_updates w) update_name = Some entry"
    and name: "update_name \<noteq> ''API Retry''"
    and ret: "fst (sch_update_news previous update_name True w) = Inr ()"
  shows "\<exists>k\<ge>ticks w.
     map_of (cnh_scheduled_updates (snd (sch_update_news previous update_name True w)))
       update_name =
     Some (rearmed_entry Sch_update_news previous update_name (clock w) k)"
proof -
  define w0 where
    "w0 = w\<lparr>cnh_scheduled_updates := AList.delete update_name (cnh_scheduled_updates w)\<rparr>"
  have a0: "advances w w0"
    by (simp add: w0_def advances_def same_environment_def)
  have gone0: "map_of (cnh_scheduled_updates w0) update_name = None"
    by (simp add: w0_def delete_conv')
  obtain r1 w1 where w1: "update_news ''Covid COVID-19 coronavirus'' w0 = (r1, w1)"
    by (cases "update_news ''Covid COVID-19 coronavirus'' w0")
  with update_news_frame [of w0 "''Covid COVID-19 coronavirus''"]
  have a1: "advances w0 w1"
    and reg1: "\<forall>x. x \<noteq> ''API Retry'' \<longrightarrow>
        map_of (cnh_scheduled_updates w1) x = map_of (cnh_scheduled_updates w0) x"
    by simp_all
  have has: "has_key (cnh_scheduled_updates w) update_name"
    using entry by (simp add: has_key_def)
  from ret has w1 obtain b1 where b1: "r1 = Inr b1"
    by (cases r1) (simp_all add: sch_update_news_def w0_def [symmetric])
  have gone1: "\<not> has_key (cnh_scheduled_updates w1) update_name"
    using gone0 reg1 name by (simp add: has_key_def)
  have run0: "sch_update_news previous update_name True w =
      (case dt_add previous usec_per_day of
         Inl e \<Rightarrow> (Inl e, w1)
       | Inr update_time \<Rightarrow>
           schedule_news_updates (IntervalDatetime update_time) update_name True w1)"
    using has w1 b1
    by (simp add: sch_update_news_def w0_def [symmetric])
  from ret obtain u where u: "dt_add previous usec_per_day = Inr u"
    unfolding run0 by (cases "dt_add previous usec_per_day") simp_all
  with dt_add_value have add: "dt_add previous usec_per_day = Inr (previous + usec_per_day)"
    by blast
  have run: "sch_update_news previous update_name True w =
      schedule_news_updates (IntervalDatetime (previous + usec_per_day)) update_name True w1"
    by (simp add: run0 add)
  from ret have "fst (schedule_news_updates (IntervalDatetime (previous + usec_per_day))
      update_name True w1) = Inr ()"
    by (simp add: run)
  from schedule_news_datetime_rearm [OF gone1 this]
  have "map_of (cnh_scheduled_updates (snd (sch_update_news previous update_name True w)))
       update_name =
     Some (rearmed_entry Sch_update_news previous update_name (clock w1) (ticks w1))"
    by (simp add: run)
  moreover have "clock w1 = clock w" "ticks w \<le> ticks w1"
    using a0 a1 by (simp_all add: advances_def same_environment_def)
  ultimately show ?thesis by auto
qed

lemma rearmed_entry_clock:
  "dt_hour (e_update_time (rearmed_entry act previous nm clk k)) = dt_hour previous \<and>
   dt_minute (e_update_time (rearmed_entry act previous nm clk k)) = dt_minute previous"
proof -
  have h: "nat (dt_hour previous) < 24" "int (nat (dt_hour previous)) = dt_hour previous"
    and m: "nat (dt_minute previous) < 60" "int (nat (dt_minute previous)) = dt_minute previous"
    using dt_hour_range [of previous] dt_minute_range [of previous]
    by (simp_all add: nat_less_iff)
  from next_occurrence_clock [OF h(1) m(1)] h(2) m(2) show ?thesis
    by (simp add: rearmed_entry_def Let_def e_update_time_entry_of dt_hour_next_day
        dt_minute_next_day)
qed

lemma rearmed_entry_frozen:
  assumes "\<forall>j. clk j = t" "previous + usec_per_day < t"
  shows "t \<le> e_update_time (rearmed_entry act previous nm clk k) \<and>
     e_update_time (rearmed_entry act previous nm clk k) < t + usec_per_day"
proof -
  have h: "nat (dt_hour previous) < 24" and m: "nat (dt_minute previous) < 60"
    using dt_hour_range [of previous] dt_minute_range [of previous]
    by (simp_all add: nat_less_iff)
  from occurrence_today_bounds [OF h m, of t] assms show ?thesis
    by (auto simp: rearmed_entry_def Let_def e_update_time_entry_of next_occurrence_def)
qed

text \<open>
  Claim C5, amended. Take a repeating update under a name other than the retry name
  \<^verbatim>\<open>API Retry\<close>, whose callback (\<^verbatim>\<open>sch_update_covid_data\<close> or \<^verbatim>\<open>sch_update_news\<close>) is called
  with the recorded time of its registry entry. Whenever the callback returns without raising,
  the registry again has an entry under the same name, repeating, and that entry is
  \<open>rearmed_entry\<close> for a clock reading taken during the call: its recorded time is exactly 24
  hours after the previous entry's recorded time when that is not before the reading, and
  otherwise the next occurrence of the previous time's hour and minute. In both cases the
  recorded time has the hour and minute of the previous one, and with a clock that stands still
  the late case gives an instant at or after now and less than a day ahead. The callback does
  return without raising when the API answers or fails with a caught exception, the news
  response is well formed, and no clock reading is after the previous time plus 24 hours; the
  entry is then the one 24 hours after the previous. The old entry is removed before the
  refresh runs: when the refresh raises, the world left behind is the one before the call
  without the entry.
\<close>

theorem repeating_update_rearmed:
  "(map_of (cdh_scheduled_updates w) update_name = Some covid_entry \<and>
    update_name \<noteq> ''API Retry'' \<and>
    fst (sch_update_covid_data (e_update_time covid_entry) update_name True w) = Inr () \<longrightarrow>
      (\<exists>k\<ge>ticks w.
         map_of (cdh_scheduled_updates
                   (snd (sch_update_covid_data (e_update_time covid_entry) update_name True w)))
           update_name =
         Some (rearmed_entry Sch_update_covid_data (e_update_time covid_entry) update_name
                 (clock w) k))) \<and>
   (map_of (cnh_scheduled_updates w) update_name = Some news_entry \<and>
    update_name \<noteq> ''API Retry'' \<and>
    fst (sch_update_news (e_update_time news_entry) update_name True w) = Inr () \<longrightarrow>
      (\<exists>k\<ge>ticks w.
         map_of (cnh_scheduled_updates
                   (snd (sch_update_news (e_update_time news_entry) update_name True w)))
           update_name =
         Some (rearmed_entry Sch_update_news (e_update_time news_entry) update_name
                 (clock w) k))) \<and>
   (dt_hour (e_update_time (rearmed_entry act previous update_name clk k)) = dt_hour previous \<and>
    dt_minute (e_update_time (rearmed_entry act previous update_name clk k)) =
      dt_minute previous) \<and>
   (previous + usec_per_day < clk k \<or>
      rearmed_entry act previous update_name clk k =
        entry_of act (previous + usec_per_day - clk (Suc k)) (previous + usec_per_day)
          update_name True) \<and>
   ((\<forall>j. clk j = t) \<and> previous + usec_per_day < t \<longrightarrow>
      t \<le> e_update_time (rearmed_entry act previous update_name clk k) \<and>
      e_update_time (rearmed_entry act previous update_name clk k) < t + usec_per_day) \<and>
   (map_of (cdh_scheduled_updates w) update_name = Some covid_entry \<and>
    update_name \<noteq> ''API Retry'' \<and> covid_api_caught w \<and> covid_location_configured w \<and>
    clock_within w (e_update_time covid_entry + usec_per_day) \<and>
    e_update_time covid_entry + usec_per_day \<le> datetime_max \<longrightarrow>
      fst (sch_update_covid_data (e_update_time covid_entry) update_name True w) = Inr () \<and>
      (\<exists>delay. map_of (cdh_scheduled_updates
                   (snd (sch_update_covid_data (e_update_time covid_entry) update_name True w)))
                 update_name =
         Some (entry_of Sch_update_covid_data delay
                 (e_update_time covid_entry + usec_per_day) update_name True))) \<and>
   (map_of (cnh_scheduled_updates w) update_name = Some news_entry \<and>
    update_name \<noteq> ''API Retry'' \<and> news_api_settled w \<and>
    clock_within w (e_update_time news_entry + usec_per_day) \<and>
    e_update_time news_entry + usec_per_day \<le> datetime_max \<longrightarrow>
      fst (sch_update_news (e_update_time news_entry) update_name True w) = Inr () \<and>
      (\<exists>delay. map_of (cnh_scheduled_updates
                   (snd (sch_update_news (e_update_time news_entry) update_name True w)))
                 update_name =
         Some (entry_of Sch_update_news delay
                 (e_update_time news_entry + usec_per_day) update_name True))) \<and>
   (map_of (cdh_scheduled_updates w) update_name = Some covid_entry \<and>
    covid_location_configured w \<and> (\<forall>f. covid_api w f = Fails OtherError) \<longrightarrow>
      sch_update_covid_data update_time update_name repeat w =
        (Inl (ApiException OtherError),
         w\<lparr>cdh_scheduled_updates := AList.delete update_name (cdh_scheduled_updates w)\<rparr>)) \<and>
   (map_of (cnh_scheduled_updates w) update_name = Some news_entry \<and>
    (\<forall>u. news_api w u = Fails OtherError) \<longrightarrow>
      sch_update_news update_time update_name repeat w =
        (Inl (ApiException OtherError),
         w\<lparr>cnh_scheduled_updates := AList.delete update_name (cnh_scheduled_updates w)\<rparr>))"
  apply (intro conjI)
  subgoal
    using sch_update_covid_data_rearm [of w update_name covid_entry "e_update_time covid_entry"]
    by blast
  subgoal
    using sch_update_news_rearm [of w update_name news_entry "e_update_time news_entry"]
    by blast
  subgoal
    using rearmed_entry_clock [of act previous update_name clk k] by blast
  subgoal
    using rearmed_entry_clock [of act previous update_name clk k] by blast
  subgoal
    by (simp add: rearmed_entry_def)
  subgoal
    using rearmed_entry_frozen [of clk t previous act update_name k] by blast
  subgoal
    using sch_update_covid_data_repeat [of w update_name covid_entry "e_update_time covid_entry"]
    by blast
  subgoal
    using sch_update_news_repeat [of w update_name news_entry "e_update_time news_entry"]
    by blast
  subgoal
    using sch_update_covid_data_removes_first [of w update_name covid_entry update_time repeat]
    by blast
  subgoal
    using sch_update_news_removes_first [of w update_name news_entry update_time repeat]
    by blast
  done

text \<open>
  Counterexample to C5 as stated: the callback fires two days and one hour late. The time 24
  hours after the previous one is in the past, so \<^verbatim>\<open>schedule_covid_updates\<close> (and
  \<^verbatim>\<open>schedule_news_updates\<close>) moves it to the next occurrence of its hour and minute: the new
  entry is 72 hours after the previous one, not 24.
\<close>

theorem repeating_update_counterexample:
  "map_of (cdh_scheduled_updates late_world) ''daily'' =
     Some (entry_of Sch_update_covid_data 0
             (frozen_clock 0 - 2 * usec_per_day - usec_per_hour) ''daily'' True) \<and>
   map_of (cdh_scheduled_updates
      (snd (sch_update_covid_data (frozen_clock 0 - 2 * usec_per_day - usec_per_hour)
              ''daily'' True late_world))) ''daily'' =
     Some (entry_of Sch_update_covid_data (23 * usec_per_hour)
             (frozen_clock 0 - 2 * usec_per_day - usec_per_hour + 3 * usec_per_day)
             ''daily'' True) \<and>
   map_of (cnh_scheduled_updates
      (snd (sch_update_news (frozen_clock 0 - 2 * usec_per_day - usec_per_hour)
              ''daily'' True late_world))) ''daily'' =
     Some (entry_of Sch_update_news (23 * usec_per_hour)
             (frozen_clock 0 - 2 * usec_per_day - usec_per_hour + 3 * usec_per_day)
             ''daily'' True)"
  by (intro conjI; code_simp)

text \<open>
  Witness for C5. The update \<open>daily\<close> fires one hour late in a world whose APIs answer, and is
  re-armed 24 hours after its previous time, 23 hours from now, in both handlers; so it is
  when the news response has a sixth article without content, which the formatter does not
  read. When the update was due at 13:34 two days ago, it is re-armed for 13:34 today, one
  hour from now. With APIs that raise, the callback leaves the registry without the entry.
\<close>

theorem repeating_update_rearmed_witness:
  "map_of (cdh_scheduled_updates hour_late_world) ''daily'' =
     Some (entry_of Sch_update_covid_data 0 (frozen_clock 0 - usec_per_hour) ''daily'' True) \<and>
   map_of (cnh_scheduled_updates hour_late_world) ''daily'' =
     Some (entry_of Sch_update_news 0 (frozen_clock 0 - usec_per_hour) ''daily'' True) \<and>
   ''daily'' \<noteq> ''API Retry'' \<and> covid_api_caught hour_late_world \<and>
   covid_location_configured hour_late_world \<and> news_api_settled hour_late_world \<and>
   clock_within hour_late_world (frozen_clock 0 - usec_per_hour + usec_per_day) \<and>
   frozen_clock 0 - usec_per_hour + usec_per_day \<le> datetime_max \<and>
   fst (sch_update_covid_data (frozen_clock 0 - usec_per_hour) ''daily'' True hour_late_world) =
     Inr () \<and>
   map_of (cdh_scheduled_updates
      (snd (sch_update_covid_data (frozen_clock 0 - usec_per_hour) ''daily'' True
              hour_late_world))) ''daily'' =
     Some (entry_of Sch_update_covid_data (23 * usec_per_hour)
             (frozen_clock 0 - usec_per_hour + usec_per_day) ''daily'' True) \<and>
   fst (sch_update_news (frozen_clock 0 - usec_per_hour) ''daily'' True hour_late_world) =
     Inr () \<and>
   map_of (cnh_scheduled_updates
      (snd (sch_update_news (frozen_clock 0 - usec_per_hour) ''daily'' True
              hour_late_world))) ''daily'' =
     Some (entry_of Sch_update_news (23 * usec_per_hour)
             (frozen_clock 0 - usec_per_hour + usec_per_day) ''daily'' True) \<and>
   map_of (cdh_scheduled_updates overdue_world) ''daily'' =
     Some (entry_of Sch_update_covid_data 0
             (frozen_clock 0 - 2 * usec_per_day + usec_per_hour) ''daily'' True) \<and>
   map_of (cnh_scheduled_updates overdue_world) ''daily'' =
     Some (entry_of Sch_update_news 0
             (frozen_clock 0 - 2 * usec_per_day + usec_per_hour) ''daily'' True) \<and>
   fst (sch_update_covid_data (frozen_clock 0 - 2 * usec_per_day + usec_per_hour) ''daily'' True
          overdue_world) = Inr () \<and>
   map_of (cdh_scheduled_updates
      (snd (sch_update_covid_data (frozen_clock 0 - 2 * usec_per_day + usec_per_hour) ''daily''
              True overdue_world))) ''daily'' =
     Some (entry_of Sch_update_covid_data usec_per_hour (frozen_clock 0 + usec_per_hour)
             ''daily'' True) \<and>
   fst (sch_update_news (frozen_clock 0 - 2 * usec_per_day + usec_per_hour) ''daily'' True
          overdue_world) = Inr () \<and>
   map_of (cnh_scheduled_updates
      (snd (sch_update_news (frozen_clock 0 - 2 * usec_per_day + usec_per_hour) ''daily''
              True overdue_world))) ''daily'' =
     Some (entry_of Sch_update_news usec_per_hour (frozen_clock 0 + usec_per_hour)
             ''daily'' True) \<and>
   (\<forall>j. frozen_clock j = frozen_clock 0) \<and>
   frozen_clock 0 - 2 * usec_per_day + usec_per_hour + usec_per_day < frozen_clock 0 \<and>
   frozen_clock 0 \<le>
     e_update_time (rearmed_entry Sch_update_news
        (frozen_clock 0 - 2 * usec_per_day + usec_per_hour) ''daily'' frozen_clock 0) \<and>
   e_update_time (rearmed_entry Sch_update_news
        (frozen_clock 0 - 2 * usec_per_day + usec_per_hour) ''daily'' frozen_clock 0) <
     frozen_clock 0 + usec_per_day \<and>
   map_of (cnh_scheduled_updates long_news_world) ''daily'' =
     Some (entry_of Sch_update_news 0 (frozen_clock 0 - usec_per_hour) ''daily'' True) \<and>
   \<not> news_api_settled long_news_world \<and>
   fst (sch_update_news (frozen_clock 0 - usec_per_hour) ''daily'' True long_news_world) =
     Inr () \<and>
   map_of (cnh_scheduled_updates
      (snd (sch_update_news (frozen_clock 0 - usec_per_hour) ''daily'' True
              long_news_world))) ''daily'' =
     Some (entry_of Sch_update_news (23 * usec_per_hour)
             (frozen_clock 0 - usec_per_hour + usec_per_day) ''daily'' True) \<and>
   map_of (cdh_scheduled_updates broken_world) ''daily'' =
     Some (entry_of Sch_update_covid_data 0 (frozen_clock 0) ''daily'' True) \<and>
   map_of (cnh_scheduled_updates broken_world) ''daily'' =
     Some (entry_of Sch_update_news 0 (frozen_clock 0) ''daily'' True) \<and>
   covid_location_configured broken_world \<and>
   (\<forall>f. covid_api broken_world f = Fails OtherError) \<and>
   (\<forall>u. news_api broken_world u = Fails OtherError) \<and>
   sch_update_covid_data (frozen_clock 0) ''daily'' True broken_world =
     (Inl (ApiException OtherError), broken_world\<lparr>cdh_scheduled_updates := []\<rparr>) \<and>
   sch_update_news (frozen_clock 0) ''daily'' True broken_world =
     (Inl (ApiException OtherError), broken_world\<lparr>cnh_scheduled_updates := []\<rparr>)"
proof -
  define p where "p = frozen_clock 0 - usec_per_hour"
  define q where "q = frozen_clock 0 - 2 * usec_per_day + usec_per_hour"
  have ce: "map_of (cdh_scheduled_updates hour_late_world) ''daily'' =
     Some (entry_of Sch_update_covid_data 0 p ''daily'' True)"
    and ne: "map_of (cnh_scheduled_updates hour_late_world) ''daily'' =
     Some (entry_of Sch_update_news 0 p ''daily'' True)"
    by (simp_all add: p_def hour_late_world_def online_world_def initial_world_def)
  have nm: "''daily'' \<noteq> ''API Retry''"
    by simp
  have ca: "covid_api_caught hour_late_world"
    by (simp add: covid_api_caught_def hour_late_world_def online_world_def initial_world_def)
  have cl: "covid_location_configured hour_late_world"
    by (simp add: covid_location_configured_def hour_late_world_def online_world_def
        initial_world_def)
  have na: "news_api_settled hour_late_world"
    by (simp add: news_api_settled_def hour_late_world_def online_world_def initial_world_def
        news_response_ok_def news_response_def article_ok_def article_one_def has_key_def)
  have cw: "clock_within hour_late_world (p + usec_per_day)"
    by (simp add: p_def clock_within_def hour_late_world_def online_world_def initial_world_def
        frozen_clock_def usec_per_day_def usec_per_hour_def usec_per_minute_def
        usec_per_second_def datetime_max_def)
  have mx: "p + usec_per_day \<le> datetime_max"
    by (simp add: p_def frozen_clock_def usec_per_day_def usec_per_hour_def usec_per_minute_def
        datetime_max_def)
  have re: "rearmed_entry act p nm (clock hour_late_world) k =
      entry_of act (23 * usec_per_hour) (p + usec_per_day) nm True" for act nm k
    by (simp add: rearmed_entry_def p_def hour_late_world_def online_world_def initial_world_def
        frozen_clock_def usec_per_day_def usec_per_hour_def usec_per_minute_def)
  note t1 = repeating_update_rearmed
    [where w = hour_late_world and update_name = "''daily''"
       and covid_entry = "entry_of Sch_update_covid_data 0 p ''daily'' True"
       and news_entry = "entry_of Sch_update_news 0 p ''daily'' True",
     unfolded e_update_time_entry_of]
  from t1 [THEN conjunct2, THEN conjunct2, THEN conjunct2, THEN conjunct2, THEN conjunct2,
      THEN conjunct1] ce nm ca cl cw mx
  have c1: "fst (sch_update_covid_data p ''daily'' True hour_late_world) = Inr ()"
    by blast
  from t1 [THEN conjunct2, THEN conjunct2, THEN conjunct2, THEN conjunct2, THEN conjunct2,
      THEN conjunct2, THEN conjunct1] ne nm na cw mx
  have n1: "fst (sch_update_news p ''daily'' True hour_late_world) = Inr ()"
    by blast
  from t1 [THEN conjunct1] ce nm c1 obtain k where
    "map_of (cdh_scheduled_updates (snd (sch_update_covid_data p ''daily'' True hour_late_world)))
       ''daily'' =
     Some (rearmed_entry Sch_update_covid_data p ''daily'' (clock hour_late_world) k)"
    by blast
  then have c2: "map_of (cdh_scheduled_updates
      (snd (sch_update_covid_data p ''daily'' True hour_late_world))) ''daily'' =
     Some (entry_of Sch_update_covid_data (23 * usec_per_hour) (p + usec_per_day) ''daily'' True)"
    by (simp only: re)
  from t1 [THEN conjunct2, THEN conjunct1] ne nm n1 obtain k where
    "map_of (cnh_scheduled_updates (snd (sch_update_news p ''daily'' True hour_late_world)))
       ''daily'' =
     Some (rearmed_entry Sch_update_news p ''daily'' (clock hour_late_world) k)"
    by blast
  then have n2: "map_of (cnh_scheduled_updates
      (snd (sch_update_news p ''daily'' True hour_late_world))) ''daily'' =
     Some (entry_of Sch_update_news (23 * usec_per_hour) (p + usec_per_day) ''daily'' True)"
    by (simp only: re)
  have oce: "map_of (cdh_scheduled_updates overdue_world) ''daily'' =
     Some (entry_of Sch_update_covid_data 0 q ''daily'' True)"
    and one: "map_of (cnh_scheduled_updates overdue_world) ''daily'' =
     Some (entry_of Sch_update_news 0 q ''daily'' True)"
    by (simp_all add: q_def overdue_world_def online_world_def initial_world_def)
  have oc1: "fst (sch_update_covid_data q ''daily'' True overdue_world) = Inr ()"
    unfolding q_def by code_simp
  have on1: "fst (sch_update_news q ''daily'' True overdue_world) = Inr ()"
    unfolding q_def by code_simp
  have ore: "rearmed_entry act q nm (clock overdue_world) k =
      entry_of act usec_per_hour (frozen_clock 0 + usec_per_hour) nm True" for act nm k
    by (simp add: rearmed_entry_def q_def overdue_world_def online_world_def initial_world_def
        next_occurrence_def occurrence_today_def dt_hour_def dt_minute_def Let_def
        frozen_clock_def usec_per_day_def usec_per_hour_def usec_per_minute_def)
  note t2 = repeating_update_rearmed
    [where w = overdue_world and update_name = "''daily''"
       and covid_entry = "entry_of Sch_update_covid_data 0 q ''daily'' True"
       and news_entry = "entry_of Sch_update_news 0 q ''daily'' True",
     unfolded e_update_time_entry_of]
  from t2 [THEN conjunct1] oce nm oc1 obtain k where
    "map_of (cdh_scheduled_updates (snd (sch_update_covid_data q ''daily'' True overdue_world)))
       ''daily'' =
     Some (rearmed_entry Sch_update_covid_data q ''daily'' (clock overdue_world) k)"
    by blast
  then have oc2: "map_of (cdh_scheduled_updates
      (snd (sch_update_covid_data q ''daily'' True overdue_world))) ''daily'' =
     Some (entry_of Sch_update_covid_data usec_per_hour (frozen_clock 0 + usec_per_hour)
             ''daily'' True)"
    by (simp only: ore)
  from t2 [THEN conjunct2, THEN conjunct1] one nm on1 obtain k where
    "map_of (cnh_scheduled_updates (snd (sch_update_news q ''daily'' True overdue_world)))
       ''daily'' =
     Some (rearmed_entry Sch_update_news q ''daily'' (clock overdue_world) k)"
    by blast
  then have on2: "map_of (cnh_scheduled_updates
      (snd (sch_update_news q ''daily'' True overdue_world))) ''daily'' =
     Some (entry_of Sch_update_news usec_per_hour (frozen_clock 0 + usec_per_hour)
             ''daily'' True)"
    by (simp only: ore)
  have fz: "\<forall>j. frozen_clock j = frozen_clock 0"
    by (simp add: frozen_clock_def)
  have lt: "q + usec_per_day < frozen_clock 0"
    by (simp add: q_def usec_per_day_def usec_per_hour_def)
  from repeating_update_rearmed
    [where clk = frozen_clock and t = "frozen_clock 0" and previous = q
       and act = Sch_update_news and update_name = "''daily''" and k = 0,
     THEN conjunct2, THEN conjunct2, THEN conjunct2, THEN conjunct2, THEN conjunct1] fz lt
  have bd: "frozen_clock 0 \<le>
       e_update_time (rearmed_entry Sch_update_news q ''daily'' frozen_clock 0)"
    "e_update_time (rearmed_entry Sch_update_news q ''daily'' frozen_clock 0) <
       frozen_clock 0 + usec_per_day"
    by blast+
  have lne: "map_of (cnh_scheduled_updates long_news_world) ''daily'' =
     Some (entry_of Sch_update_news 0 p ''daily'' True)"
    by (simp add: p_def long_news_world_def hour_late_world_def online_world_def
        initial_world_def)
  have lna: "\<not> news_api_settled long_news_world"
    by (simp add: news_api_settled_def long_news_world_def long_news_response_def
        news_response_ok_def article_ok_def article_without_text_def)
  have ln1: "fst (sch_update_news p ''daily'' True long_news_world) = Inr ()"
    unfolding p_def by code_simp
  have lre: "rearmed_entry act p nm (clock long_news_world) k =
      entry_of act (23 * usec_per_hour) (p + usec_per_day) nm True" for act nm k
    by (simp add: rearmed_entry_def p_def long_news_world_def hour_late_world_def
        online_world_def initial_world_def
        frozen_clock_def usec_per_day_def usec_per_hour_def usec_per_minute_def)
  note t3 = repeating_update_rearmed
    [where w = long_news_world and update_name = "''daily''"
       and news_entry = "entry_of Sch_update_news 0 p ''daily'' True",
     unfolded e_update_time_entry_of]
  from t3 [THEN conjunct2, THEN conjunct1] lne nm ln1 obtain k where
    "map_of (cnh_scheduled_updates (snd (sch_update_news p ''daily'' True long_news_world)))
       ''daily'' =
     Some (rearmed_entry Sch_update_news p ''daily'' (clock long_news_world) k)"
    by blast
  then have ln2: "map_of (cnh_scheduled_updates
      (snd (sch_update_news p ''daily'' True long_news_world))) ''daily'' =
     Some (entry_of Sch_update_news (23 * usec_per_hour) (p + usec_per_day) ''daily'' True)"
    by (simp only: lre)
  have bce: "map_of (cdh_scheduled_updates broken_world) ''daily'' =
     Some (entry_of Sch_update_covid_data 0 (frozen_clock 0) ''daily'' True)"
    and bne: "map_of (cnh_scheduled_updates broken_world) ''daily'' =
     Some (entry_of Sch_update_news 0 (frozen_clock 0) ''daily'' True)"
    by (simp_all add: broken_world_def due_world_def online_world_def initial_world_def)
  have bcl: "covid_location_configured broken_world"
    by (simp add: covid_location_configured_def broken_world_def due_world_def online_world_def
        initial_world_def)
  have bc: "\<forall>f. covid_api broken_world f = Fails OtherError"
    and bn: "\<forall>u. news_api broken_world u = Fails OtherError"
    by (simp_all add: broken_world_def)
  have del: "AList.delete ''daily'' (cdh_scheduled_updates broken_world) = []"
    "AList.delete ''daily'' (cnh_scheduled_updates broken_world) = []"
    by (simp_all add: broken_world_def due_world_def online_world_def initial_world_def)
  note t4 = repeating_update_rearmed
    [where w = broken_world and update_name = "''daily''"
       and covid_entry = "entry_of Sch_update_covid_data 0 (frozen_clock 0) ''daily'' True"
       and news_entry = "entry_of Sch_update_news 0 (frozen_clock 0) ''daily'' True"
       and update_time = "frozen_clock 0" and repeat = True]
  from t4 [THEN conjunct2, THEN conjunct2, THEN conjunct2, THEN conjunct2, THEN conjunct2,
      THEN conjunct2, THEN conjunct2, THEN conjunct1] bce bcl bc
  have b1: "sch_update_covid_data (frozen_clock 0) ''daily'' True broken_world =
     (Inl (ApiException OtherError), broken_world\<lparr>cdh_scheduled_updates := []\<rparr>)"
    unfolding del by blast
  from t4 [THEN conjunct2, THEN conjunct2, THEN conjunct2, THEN conjunct2, THEN conjunct2,
      THEN conjunct2, THEN conjunct2, THEN conjunct2] bne bn
  have b2: "sch_update_news (frozen_clock 0) ''daily'' True broken_world =
     (Inl (ApiException OtherError), broken_world\<lparr>cnh_scheduled_updates := []\<rparr>)"
    unfolding del by blast
  show ?thesis
    unfolding p_def [symmetric] q_def [symmetric]
    using ce ne nm ca cl na cw mx c1 c2 n1 n2 oce one oc1 oc2 on1 on2 fz lt bd
      lne lna ln1 ln2 bce bne bcl bc bn b1 b2
    by (intro conjI) assumption+
qed

section \<open>Further properties of the handlers\<close>

text \<open>
  A string that is neither a time nor made of digits is refused by the COVID handler without
  any effect.
\<close>

lemma schedule_covid_updates_malformed:
  assumes "\<not> covid_time_re s" "\<not> isdigit s"
  shows "schedule_covid_updates (IntervalStr s) update_name repeat w = (Inr (), w)"
  using assms by (simp add: schedule_covid_updates_def covid_update_time_def)

text \<open>
  The news handler raises ValueError on every zero-padded time of day: its first pattern does
  not match, its second does, and the string is no integer.
\<close>

lemma int_of_str_hhmm: "h < 24 \<Longrightarrow> m < 60 \<Longrightarrow> int_of_str (hhmm h m) = None"
proof -
  assume hm: "h < 24" "m < 60"
  have d: "h div 10 < 10" "h mod 10 < 10" "m div 10 < 10" "m mod 10 < 10"
    using hm by auto
  show ?thesis
    using digit_char_facts [OF d(1)] digit_char_facts [OF d(2)] digit_char_facts [OF d(4)]
    by (simp add: int_of_str_def strip_def parse_unsigned_def hhmm_def is_digit_def code_colon)
qed

lemma schedule_news_updates_hhmm_raises:
  assumes "h < 24" "m < 60"
  shows "schedule_news_updates (IntervalStr (hhmm h m)) update_name repeat w = (Inl ValueError, w)"
proof -
  have d: "h div 10 < 10" using assms by auto
  have "\<not> news_time_re (hhmm h m)"
    by (simp add: news_time_re_def hhmm_def)
  moreover have "news_digits_re (hhmm h m)"
    using digit_char_facts(1) [OF d] by (simp add: news_digits_re_def hhmm_def)
  ultimately show ?thesis
    using int_of_str_hhmm [OF assms]
    by (simp add: schedule_news_updates_def news_update_time_def)
qed

text \<open>
  Once the news API has returned, \<^verbatim>\<open>update_news\<close> leaves no article in the live list whose
  title has been removed, whatever the response holds and even when processing it raises.
\<close>

lemma append_articles_filtered:
  assumes "\<forall>article \<in> set (cnh_news w). \<forall>title. map_of article ''title'' = Some title \<longrightarrow>
             title \<notin> set (cnh_removed_articles w)"
  shows "(\<forall>article \<in> set (cnh_news (snd (append_articles articles w))).
            \<forall>title. map_of article ''title'' = Some title \<longrightarrow>
              title \<notin> set (cnh_removed_articles w)) \<and>
         cnh_removed_articles (snd (append_articles articles w)) = cnh_removed_articles w"
  using assms
proof (induction articles arbitrary: w)
  case Nil
  then show ?case by simp
next
  case (Cons article articles)
  show ?case
  proof (cases "map_of article ''title''")
    case None
    with Cons.prems show ?thesis by simp
  next
    case (Some title)
    define w1 where "w1 = (if title \<in> set (cnh_removed_articles w) then w
             else w\<lparr>cnh_news := cnh_news w @ [article]\<rparr>)"
    have r: "cnh_removed_articles w1 = cnh_removed_articles w"
      by (simp add: w1_def)
    have "\<forall>article \<in> set (cnh_news w1). \<forall>title. map_of article ''title'' = Some title \<longrightarrow>
             title \<notin> set (cnh_removed_articles w1)"
      using Cons.prems Some by (auto simp: w1_def)
    from Cons.IH [OF this] show ?thesis
      using Some r by (simp add: w1_def [symmetric])
  qed
qed

lemma format_articles_news:
  "cnh_news (snd (format_articles articles w)) = cnh_news w \<and>
   cnh_removed_articles (snd (format_articles articles w)) = cnh_removed_articles w"
  by (induction articles arbitrary: w) (auto split: sum.splits)

lemma news_formatter_news:
  "cnh_news (snd (news_formatter w)) = cnh_news w \<and>
   cnh_removed_articles (snd (news_formatter w)) = cnh_removed_articles w"
  by (simp add: news_formatter_def Let_def format_articles_news)

lemma schedule_news_updates_removed:
  "cnh_removed_articles (snd (schedule_news_updates iv nm rep w)) = cnh_removed_articles w"
proof -
  obtain r w1 where r: "news_update_time iv w = (r, w1)"
    by (cases "news_update_time iv w")
  with news_update_time_frame [of iv w] have "w1 = w\<lparr>ticks := ticks w1\<rparr>"
    by simp
  then have "cnh_removed_articles w1 = cnh_removed_articles w"
    by (metis world.select_convs(14) world.surjective world.update_convs(2))
  then show ?thesis
    using r by (auto simp: schedule_news_updates_def Let_def split: sum.splits option.splits)
qed

lemma news_API_request_removed:
  "cnh_removed_articles (snd (news_API_request terms w)) = cnh_removed_articles w"
  using schedule_news_updates_removed [of "IntervalInt 30" "''API Retry''" False w]
  by (auto simp: news_API_request_def Let_def split: fetch.splits prod.splits sum.splits)

lemma update_news_filtered:
  assumes req: "news_API_request terms w = (Inr response, w1)"
  shows "\<forall>article \<in> set (cnh_news (snd (update_news terms w))).
           \<forall>title. map_of article ''title'' = Some title \<longrightarrow>
             title \<notin> set (cnh_removed_articles w)"
proof -
  have removed: "cnh_removed_articles w1 = cnh_removed_articles w"
    using news_API_request_removed [of terms w] req by simp
  define w2 where "w2 = w1\<lparr>cnh_news := []\<rparr>"
  have e: "cnh_news w2 = []" "cnh_removed_articles w2 = cnh_removed_articles w"
    by (simp_all add: w2_def removed)
  have f: "\<forall>article \<in> set (cnh_news w2). \<forall>title. map_of article ''title'' = Some title \<longrightarrow>
             title \<notin> set (cnh_removed_articles w2)"
    by (simp add: e)
  have a: "\<forall>article \<in> set (cnh_news w3).
            \<forall>title. map_of article ''title'' = Some title \<longrightarrow>
              title \<notin> set (cnh_removed_articles w)"
    if "append_articles articles w2 = (r, w3)" for articles r w3
    using append_articles_filtered [OF f, of articles] that by (simp add: e)
  show ?thesis
    using a e
    by (auto simp: update_news_def req w2_def [symmetric] Let_def news_formatter_news
        split: option.splits sum.splits jval.splits prod.splits)
qed

section \<open>Evaluations at the inputs where the code departs from a claim\<close>

text \<open>
  Claim C1 at a failing input. Both COVID requests of a scheduled update fail with a connection
  error: \<^verbatim>\<open>covid_API_request\<close> returns \<^verbatim>\<open>{"data": None}\<close>, a non-empty dictionary, so the
  callback's \<^verbatim>\<open>if api_response:\<close> adopts it and both snapshots are replaced. The news request
  fails likewise: \<^verbatim>\<open>update_news\<close> has cleared the list before it looks at the response.
\<close>

theorem failed_fetch_replaces_snapshots:
  "cdh_covid_data loaded_world = exeter_response \<and>
   cdh_national_covid_data loaded_world = exeter_response \<and>
   fst (sch_update_covid_data (frozen_clock 0) ''update'' False loaded_world) = Inr () \<and>
   cdh_covid_data (snd (sch_update_covid_data (frozen_clock 0) ''update'' False loaded_world)) =
     [(''data'', JVal PNone)] \<and>
   cdh_national_covid_data
       (snd (sch_update_covid_data (frozen_clock 0) ''update'' False loaded_world)) =
     [(''data'', JVal PNone)] \<and>
   cnh_news loaded_world = [article_one, article_two] \<and>
   fst (update_news ''Covid COVID-19 coronavirus'' loaded_world) = Inr () \<and>
   cnh_news (snd (update_news ''Covid COVID-19 coronavirus'' loaded_world)) = []"
  by (intro conjI; code_simp)

text \<open>
  Claim C3 at a failing input. The string \<open>54:43\<close> is no time and no number. The COVID handler
  returns early and registers nothing; the news handler's \<^verbatim>\<open>match("[0-9]+", ...)\<close> accepts the
  leading digits, and \<^verbatim>\<open>int("54:43")\<close> raises ValueError.
\<close>

theorem schedule_news_updates_malformed_raises:
  "fst (schedule_news_updates (IntervalStr ''54:43'') ''bad_HH:MM'' False offline_world) =
     Inl ValueError \<and>
   fst (schedule_covid_updates (IntervalStr ''54:43'') ''bad_HH:MM'' False offline_world) =
     Inr () \<and>
   cdh_scheduled_updates
     (snd (schedule_covid_updates (IntervalStr ''54:43'') ''bad_HH:MM'' False offline_world)) = [] \<and>
   cdh_scheduler
     (snd (schedule_covid_updates (IntervalStr ''54:43'') ''bad_HH:MM'' False offline_world)) = []"
  by (intro conjI; code_simp)

text \<open>
  Claim C4 at a failing input. With \<open>-19\<close> the delay is 19 seconds, as with \<open>19\<close>, but the
  recorded \<^verbatim>\<open>update_time\<close> is \<^verbatim>\<open>now() + timedelta(seconds=-19)\<close>, 19 seconds in the past and
  38 seconds before the time recorded for \<open>19\<close>, in both handlers.
\<close>

theorem negative_seconds_recorded_in_the_past:
  "map_of (cdh_scheduled_updates
       (snd (schedule_covid_updates (IntervalInt (- 19)) ''negative_int'' False offline_world)))
     ''negative_int'' =
     Some (entry_of Sch_update_covid_data (19 * usec_per_second)
             (frozen_clock 0 - 19 * usec_per_second) ''negative_int'' False) \<and>
   map_of (cdh_scheduled_updates
       (snd (schedule_covid_updates (IntervalInt 19) ''negative_int'' False offline_world)))
     ''negative_int'' =
     Some (entry_of Sch_update_covid_data (19 * usec_per_second)
             (frozen_clock 0 + 19 * usec_per_second) ''negative_int'' False) \<and>
   map_of (cnh_scheduled_updates
       (snd (schedule_news_updates (IntervalInt (- 19)) ''negative_int'' False offline_world)))
     ''negative_int'' =
     Some (entry_of Sch_update_news (19 * usec_per_second)
             (frozen_clock 0 - 19 * usec_per_second) ''negative_int'' False) \<and>
   map_of (cnh_scheduled_updates
       (snd (schedule_news_updates (IntervalInt 19) ''negative_int'' False offline_world)))
     ''negative_int'' =
     Some (entry_of Sch_update_news (19 * usec_per_second)
             (frozen_clock 0 + 19 * usec_per_second) ''negative_int'' False)"
  by (intro conjI; code_simp)

text \<open>
  Claim C6 at a failing input. The news list holds two articles with one title; removing the
  title deletes the first of them only, so the title is still in the live list and in the
  formatted list.
\<close>

theorem add_removed_article_keeps_duplicate:
  "fst (add_removed_article (PStr ''Cases rise'') loaded_world) = Inr () \<and>
   cnh_news (snd (add_removed_article (PStr ''Cases rise'') loaded_world)) = [article_two] \<and>
   map_of article_two ''title'' = Some (PStr ''Cases rise'') \<and>
   map (\<lambda>article. map_of article ''title'')
     (cnh_formatted_news (snd (add_removed_article (PStr ''Cases rise'') loaded_world))) =
     [Some (PStr ''Cases rise'')]"
  by (intro conjI; code_simp)

end
